(* ===== verification/Prelude.thy ===== *)
theory Prelude
  imports Complex_Main "HOL-Library.List_Lexorder" "HOL-Library.Char_ord" "HOL-Library.Product_Lexorder"
    "HOL-Library.AList"
begin

text \<open>
  Shared vocabulary of the development: decimal rendering of JavaScript integers, the
  \<open>Map<string, number>\<close> counters the source keeps, the string operations
  (\<open>trim\<close>, \<open>startsWith\<close>, \<open>padStart\<close>, \<open>split\<close>, \<open>parseInt\<close>) it uses, the chunking of lists,
  and the UTC calendar of \<open>Date\<close>.  A JavaScript string is a
  \<open>string\<close> (a list of characters); the code points beyond ASCII that the source writes
  appear as their UTF-8 bytes.
\<close>

subsection \<open>Numbers as decimal strings\<close>

definition digit_char :: "nat \<Rightarrow> char" where
  "digit_char d = char_of (48 + d)"

fun js_nat :: "nat \<Rightarrow> string" where
  "js_nat n = (if n < 10 then [digit_char n] else js_nat (n div 10) @ [digit_char (n mod 10)])"

declare js_nat.simps [simp del]

definition js_int :: "int \<Rightarrow> string" where
  "js_int i = (if i < 0 then CHR ''-'' # js_nat (nat (- i)) else js_nat (nat i))"

text \<open>For evaluation: the same digits from a binary number.\<close>

function js_pos :: "int \<Rightarrow> string" where
  "js_pos i = (if i < 10 then [digit_char (nat i)] else js_pos (i div 10) @ [digit_char (nat (i mod 10))])"
  by auto
termination by (relation "measure nat") auto

declare js_pos.simps [simp del]

lemma js_pos_nat: "0 \<le> i \<Longrightarrow> js_pos i = js_nat (nat i)"
proof (induction i rule: js_pos.induct)
  case (1 i)
  show ?case
  proof (cases "i < 10")
    case True
    then have "nat i < 10" by simp
    with True show ?thesis by (subst js_pos.simps, subst js_nat.simps) simp
  next
    case False
    then have "js_pos (i div 10) = js_nat (nat i div 10)" "\<not> nat i < 10" using 1 by (auto simp: nat_div_distrib)
    with False 1(2) show ?thesis by (subst js_pos.simps, subst js_nat.simps) (simp add: nat_mod_distrib)
  qed
qed

lemma js_int_code [code]: "js_int i = (if i < 0 then CHR ''-'' # js_pos (- i) else js_pos i)"
  by (simp add: js_int_def js_pos_nat)

definition is_digit :: "char \<Rightarrow> bool" where
  "is_digit c = (CHR ''0'' \<le> c \<and> c \<le> CHR ''9'')"

lemma digit_char_is_digit: "d < 10 \<Longrightarrow> is_digit (digit_char d)"
  by (simp add: digit_char_def is_digit_def less_eq_char_def)

lemma digit_char_inj:
  assumes "d < 10" "e < 10" "digit_char d = digit_char e"
  shows "d = e"
proof -
  have "of_char (digit_char d) = (of_char (digit_char e) :: nat)" using assms(3) by simp
  with assms(1,2) show ?thesis by (simp add: digit_char_def)
qed

lemma js_nat_digits: "c \<in> set (js_nat n) \<Longrightarrow> is_digit c"
proof (induction n rule: js_nat.induct)
  case (1 n)
  then show ?case
    by (cases "n < 10") (auto simp: js_nat.simps [of n] digit_char_is_digit)
qed

lemma js_nat_nonempty [simp]: "js_nat n \<noteq> []"
  by (simp add: js_nat.simps [of n])

lemma js_nat_nonempty' [simp]: "[] \<noteq> js_nat n"
  using js_nat_nonempty [of n] by (metis)

lemma js_nat_inj: "js_nat m = js_nat n \<Longrightarrow> m = n"
proof (induction m arbitrary: n rule: js_nat.induct)
  case (1 m)
  show ?case
  proof (cases "m < 10")
    case True
    with "1.prems" show ?thesis
      by (cases "n < 10") (auto simp: js_nat.simps [of m] js_nat.simps [of n] digit_char_inj)
  next
    case m: False
    show ?thesis
    proof (cases "n < 10")
      case True
      with m "1.prems" show ?thesis by (auto simp: js_nat.simps [of m] js_nat.simps [of n])
    next
      case False
      with m "1.prems"
      have "js_nat (m div 10) = js_nat (n div 10)" "digit_char (m mod 10) = digit_char (n mod 10)"
        by (auto simp: js_nat.simps [of m] js_nat.simps [of n])
      then have "m div 10 = n div 10" "m mod 10 = n mod 10"
        using "1.IH" m digit_char_inj by auto
      then show ?thesis by (metis div_mult_mod_eq)
    qed
  qed
qed

lemma js_int_chars: "c \<in> set (js_int i) \<Longrightarrow> is_digit c \<or> c = CHR ''-''"
  by (auto simp: js_int_def js_nat_digits split: if_splits)

lemma js_int_inj: "js_int i = js_int j \<Longrightarrow> i = j"
proof -
  have minus: "CHR ''-'' # xs \<noteq> js_nat n" for xs n
  proof
    assume "CHR ''-'' # xs = js_nat n"
    then have "CHR ''-'' \<in> set (js_nat n)" by (metis list.set_intros(1))
    then have "is_digit (CHR ''-'')" by (rule js_nat_digits)
    then show False by (simp add: is_digit_def less_eq_char_def)
  qed
  assume "js_int i = js_int j"
  then show "i = j"
    using minus by (auto simp: js_int_def dest!: js_nat_inj split: if_splits) (metis minus)
qed

lemma bar_notin_js_int [simp]: "CHR ''|'' \<notin> set (js_int i)"
  using js_int_chars by (fastforce simp: is_digit_def less_eq_char_def)

lemma digit_chars:
  "digit_char 0 = CHR ''0''" "digit_char 1 = CHR ''1''" "digit_char (Suc 0) = CHR ''1''" "digit_char 2 = CHR ''2''"
  "digit_char 3 = CHR ''3''" "digit_char 4 = CHR ''4''" "digit_char 5 = CHR ''5''" "digit_char 6 = CHR ''6''"
  "digit_char 7 = CHR ''7''" "digit_char 8 = CHR ''8''" "digit_char 9 = CHR ''9''"
  by code_simp+

lemma js_nat_0 [simp]: "js_nat 0 = ''0''"
  by code_simp

subsection \<open>Keys made of fields joined by a bar\<close>

definition bar :: "string \<Rightarrow> string \<Rightarrow> string" where
  "bar a b = a @ ''|'' @ b"

lemma bar_inj:
  assumes "bar a b = bar c d" "CHR ''|'' \<notin> set a" "CHR ''|'' \<notin> set c"
  shows "a = c \<and> b = d"
proof -
  have *: "takeWhile (\<lambda>x. x \<noteq> CHR ''|'') (bar x y) = x" if "CHR ''|'' \<notin> set x" for x y
    using that by (induction x) (auto simp: bar_def)
  from assms have "a = c" using * [of a b] * [of c d] by metis
  with assms(1) show ?thesis by (simp add: bar_def)
qed

subsection \<open>Counters: a JavaScript map from strings to numbers\<close>

type_synonym counter = "string \<rightharpoonup> int"

definition cget :: "('k \<rightharpoonup> int) \<Rightarrow> 'k \<Rightarrow> int" where
  "cget m k = (case m k of None \<Rightarrow> 0 | Some v \<Rightarrow> v)"

definition cinc :: "('k \<rightharpoonup> int) \<Rightarrow> 'k \<Rightarrow> int \<Rightarrow> ('k \<rightharpoonup> int)" where
  "cinc m k d = m(k \<mapsto> cget m k + d)"

lemma cget_cinc: "cget (cinc m k d) k' = (if k' = k then cget m k + d else cget m k')"
  by (simp add: cget_def cinc_def)

lemma cget_empty [simp]: "cget Map.empty k = 0"
  by (simp add: cget_def)

subsection \<open>Strings\<close>

definition is_space :: "char \<Rightarrow> bool" where
  "is_space c = (c = CHR '' '' \<or> (of_char c :: nat) \<in> {9, 10, 11, 12, 13})"

definition js_trim :: "string \<Rightarrow> string" where
  "js_trim s = rev (dropWhile is_space (rev (dropWhile is_space s)))"

fun startsWith :: "string \<Rightarrow> string \<Rightarrow> bool" where
  "startsWith s [] = True"
| "startsWith [] (c # p) = False"
| "startsWith (d # s) (c # p) = (c = d \<and> startsWith s p)"

lemma startsWith_iff: "startsWith s p \<longleftrightarrow> (\<exists>t. s = p @ t)"
  by (induction s p rule: startsWith.induct) auto

definition endsWith :: "string \<Rightarrow> string \<Rightarrow> bool" where
  "endsWith s p = startsWith (rev s) (rev p)"

definition padStart :: "nat \<Rightarrow> char \<Rightarrow> string \<Rightarrow> string" where
  "padStart n c s = replicate (n - length s) c @ s"

fun js_join :: "string \<Rightarrow> string list \<Rightarrow> string" where
  "js_join sep [] = []"
| "js_join sep [x] = x"
| "js_join sep (x # y # xs) = x @ sep @ js_join sep (y # xs)"

definition lower_char :: "char \<Rightarrow> char" where
  "lower_char c = (if CHR ''A'' \<le> c \<and> c \<le> CHR ''Z'' then char_of ((of_char c :: nat) + 32) else c)"

definition upper_char :: "char \<Rightarrow> char" where
  "upper_char c = (if CHR ''a'' \<le> c \<and> c \<le> CHR ''z'' then char_of ((of_char c :: nat) - 32) else c)"

definition to_lower :: "string \<Rightarrow> string" where
  "to_lower = map lower_char"

text \<open>\<open>s.split(c)\<close> for a separator of one character.\<close>

fun js_split :: "char \<Rightarrow> string \<Rightarrow> string list" where
  "js_split c [] = [[]]"
| "js_split c (x # s) =
    (if x = c then [] # js_split c s
     else case js_split c s of w # ws \<Rightarrow> (x # w) # ws | [] \<Rightarrow> [[x]])"

lemma js_split_nonempty [simp]: "js_split c s \<noteq> []"
  by (induction s) (auto split: list.splits)

lemma js_join_split: "js_join [c] (js_split c s) = s"
proof (induction s)
  case (Cons x s)
  obtain w ws where w: "js_split c s = w # ws" using js_split_nonempty by (meson neq_Nil_conv)
  with Cons show ?case by (cases ws) auto
qed simp

text \<open>\<open>parseInt (s, 10)\<close>: a sign, then the leading digits; \<open>NaN\<close> is \<open>None\<close>.\<close>

definition digits_value :: "string \<Rightarrow> int" where
  "digits_value ds = foldl (\<lambda>n c. 10 * n + (of_char c - 48)) 0 ds"

definition parse_digits :: "string \<Rightarrow> int option" where
  "parse_digits s = (let ds = takeWhile is_digit s in if ds = [] then None else Some (digits_value ds))"

definition js_parseInt :: "string \<Rightarrow> int option" where
  "js_parseInt s =
    (case dropWhile is_space s of
       [] \<Rightarrow> None
     | c # r \<Rightarrow> if c = CHR ''-'' then map_option uminus (parse_digits r)
                else if c = CHR ''+'' then parse_digits r
                else parse_digits (c # r))"

subsection \<open>Rows with distinct keys\<close>

lemma other_key: "distinct (map f (x # xs)) \<Longrightarrow> y \<in> set xs \<Longrightarrow> f y \<noteq> f x"
  by (metis distinct.simps(2) image_eqI list.set_map list.simps(9))

lemma map_ids_kept: "(\<And>x. f (g x) = f x) \<Longrightarrow> map f (map (\<lambda>x. if p x then g x else x) xs) = map f xs"
  by simp

subsection \<open>Chunks of a list\<close>

fun chunks :: "nat \<Rightarrow> 'a list \<Rightarrow> 'a list list" where
  "chunks n xs = (if xs = [] \<or> n = 0 then [] else take n xs # chunks n (drop n xs))"

declare chunks.simps [simp del]

lemma chunks_Nil [simp]: "chunks n [] = []"
  by (simp add: chunks.simps)

lemma concat_chunks: "0 < n \<Longrightarrow> concat (chunks n xs) = xs"
proof (induction n xs rule: chunks.induct)
  case (1 n xs)
  then show ?case by (subst chunks.simps) auto
qed

lemma chunks_bounds: "c \<in> set (chunks n xs) \<Longrightarrow> c \<noteq> [] \<and> length c \<le> n"
proof (induction n xs rule: chunks.induct)
  case (1 n xs)
  then show ?case by (cases "xs = [] \<or> n = 0") (auto simp: chunks.simps [of n xs])
qed

subsection \<open>The UTC calendar of Date\<close>

text \<open>
  A time is a number of milliseconds since 1 January 1970.  The civil date of a day number
  counts in eras of 400 years from 1 March of year 0.
\<close>

definition utc_day :: "int \<Rightarrow> int" where "utc_day t = t div 86400000"
definition getUTCMinutes :: "int \<Rightarrow> int" where "getUTCMinutes t = t div 60000 mod 60"
definition getUTCHours :: "int \<Rightarrow> int" where "getUTCHours t = t div 3600000 mod 24"
definition getUTCDay :: "int \<Rightarrow> int" where "getUTCDay t = (utc_day t + 4) mod 7"

definition civil_of_days :: "int \<Rightarrow> int \<times> int \<times> int" where
  "civil_of_days z0 =
    (let z = z0 + 719468; era = z div 146097; doe = z mod 146097;
         yoe = (doe - doe div 1460 + doe div 36524 - doe div 146096) div 365;
         doy = doe - (365 * yoe + yoe div 4 - yoe div 100);
         mp = (5 * doy + 2) div 153;
         d = doy - (153 * mp + 2) div 5 + 1;
         m = (if mp < 10 then mp + 3 else mp - 9);
         y = yoe + era * 400 + (if m \<le> 2 then 1 else 0)
     in (y, m, d))"

definition days_of_civil :: "int \<Rightarrow> int \<Rightarrow> int \<Rightarrow> int" where
  "days_of_civil y0 m d =
    (let y = (if m \<le> 2 then y0 - 1 else y0); era = y div 400; yoe = y mod 400;
         doy = (153 * (if m > 2 then m - 3 else m + 9) + 2) div 5 + d - 1;
         doe = yoe * 365 + yoe div 4 - yoe div 100 + doy
     in era * 146097 + doe - 719468)"

definition getUTCFullYear :: "int \<Rightarrow> int" where "getUTCFullYear t = fst (civil_of_days (utc_day t))"
definition getUTCMonth :: "int \<Rightarrow> int" where "getUTCMonth t = fst (snd (civil_of_days (utc_day t))) - 1"
definition getUTCDate :: "int \<Rightarrow> int" where "getUTCDate t = snd (snd (civil_of_days (utc_day t)))"

end
