(* ===== verification/Solver.thy ===== *)
theory Solver
  imports Prelude "HOL-Library.Word"
begin

unbundle bit_operations_syntax

text \<open>
  The timetable generator, \<open>worker/src/routes/scheduling/solver.ts\<close>: greedy round-robin
  placement of the weekly periods of every (section, subject) requirement, with a bounded
  repair pass and the report of what could not be placed.  The fields the constructor of
  \<open>class State\<close> writes once are the record \<open>Env\<close>, the ones the methods change are the record
  \<open>State\<close>; a method is a function from both to the new \<open>State\<close>.  A JavaScript
  \<open>Map\<close> keyed by strings is a partial map, a \<open>Set\<close> of strings a set, and the composite keys
  are the very strings the code builds.  Scores, counts and weekdays are mathematical integers:
  the code's values stay far below \<open>2^53\<close>.  The tie-break jitter is the code's \<open>mulberry32\<close>
  on 32-bit words.
\<close>

subsection \<open>Data\<close>

record Slot =
  sl_weekday :: int
  sl_periodId :: string

record Period =
  pd_id :: string
  pd_name :: string
  pd_sequence :: int

record Grid =
  gr_weekdays :: "int list"
  gr_periods :: "Period list"

record Requirement =
  rq_sectionId :: string
  rq_sectionName :: string
  rq_classSubjectId :: string
  rq_subjectName :: string
  rq_teacherId :: string
  rq_periodsPerWeek :: int
  rq_maxPerDay :: int
  rq_difficult :: bool

record Teacher =
  tc_userId :: string
  tc_name :: string
  tc_maxPerDay :: int
  tc_maxPerWeek :: int
  tc_unavailable :: "Slot list"
  tc_committed :: "Slot list"

text \<open>The constructor extends each teacher with the set of unavailable slot keys.\<close>

record TeacherSt = Teacher +
  tc_unavailableSet :: "string set"

record Input =
  in_grid :: Grid
  in_requirements :: "Requirement list"
  in_teachers :: "Teacher list"
  in_seed :: int
  in_retryBudget :: int
  in_sectionPeriods :: "string \<rightharpoonup> Period list"
  in_overlaps :: "string \<rightharpoonup> string list"

record Placement =
  pl_sectionId :: string
  pl_sectionName :: string
  pl_classSubjectId :: string
  pl_subjectName :: string
  pl_teacherId :: string
  pl_weekday :: int
  pl_periodId :: string

record Issue =
  is_kind :: string
  is_severity :: string
  is_sectionId :: string
  is_sectionName :: string
  is_classSubjectId :: string
  is_subjectName :: string
  is_teacherId :: string
  is_teacherName :: string
  is_required :: int
  is_placed :: int
  is_detail :: string

record Result =
  re_placements :: "Placement list"
  re_issues :: "Issue list"
  re_required :: int
  re_placed :: int
  re_moves :: int

definition SEVERITY_BLOCKING :: string where
  "SEVERITY_BLOCKING = ''blocking''"

definition SEVERITY_WARNING :: string where
  "SEVERITY_WARNING = ''warning''"

definition BLK_SECTION_BUSY :: nat where "BLK_SECTION_BUSY = 0"
definition BLK_TEACHER_BUSY :: nat where "BLK_TEACHER_BUSY = 1"
definition BLK_UNAVAILABLE :: nat where "BLK_UNAVAILABLE = 2"
definition BLK_DAY_CAP :: nat where "BLK_DAY_CAP = 3"
definition BLK_WEEK_CAP :: nat where "BLK_WEEK_CAP = 4"
definition BLK_STACKING :: nat where "BLK_STACKING = 5"
definition BLK_REASONS :: nat where "BLK_REASONS = 6"

definition blockerNames :: "string list" where
  "blockerNames =
    [''the section is already teaching something in every remaining slot'',
     ''the teacher is already taking another class in every remaining slot'',
     ''the teacher is marked unavailable in every remaining slot'',
     ''the teacher would exceed their daily period limit'',
     ''the teacher has no room left in their weekly period limit'',
     ''the subject would have to be stacked more than once a day'']"

subsection \<open>The random source\<close>

text \<open>
  \<open>Math.trunc (seed / 2^32)\<close> rounds towards zero; \<open>^\<close> and \<open>>>>\<close> work on the low 32 bits.
\<close>

definition seed_word :: "int \<Rightarrow> 32 word" where
  "seed_word seed = word_of_int seed XOR word_of_int (sgn seed * (\<bar>seed\<bar> div 4294967296))"

definition mulberry32 :: "32 word \<Rightarrow> 32 word \<times> 32 word" where
  "mulberry32 a0 =
    (let a = a0 + 0x6d2b79f5;
         t1 = (a XOR drop_bit 15 a) * (a OR 1);
         t2 = t1 XOR (t1 + (t1 XOR drop_bit 7 t1) * (t1 OR 61))
     in (a, t2 XOR drop_bit 14 t2))"

text \<open>\<open>Math.floor (rng () * 1024)\<close>, where \<open>rng\<close> divides the word by \<open>2^32\<close>.\<close>

definition jitter_of :: "32 word \<Rightarrow> int" where
  "jitter_of u = uint u * 1024 div 4294967296"

subsection \<open>Keys\<close>

definition slotKey :: "Slot \<Rightarrow> string" where
  "slotKey s = bar (js_int (sl_weekday s)) (sl_periodId s)"

definition skey :: "string \<Rightarrow> Slot \<Rightarrow> string" where
  "skey section s = bar section (bar (js_int (sl_weekday s)) (sl_periodId s))"

definition tkey :: "string \<Rightarrow> Slot \<Rightarrow> string" where
  "tkey teacher s = bar teacher (bar (js_int (sl_weekday s)) (sl_periodId s))"

definition dkey :: "string \<Rightarrow> int \<Rightarrow> string" where
  "dkey i weekday = bar i (js_int weekday)"

definition rkey :: "nat \<Rightarrow> int \<Rightarrow> string" where
  "rkey req weekday = bar (js_nat req) (js_int weekday)"

definition gridSlots :: "Grid \<Rightarrow> Period list \<Rightarrow> Slot list" where
  "gridSlots g sortedPeriods =
    concat (map (\<lambda>d. map (\<lambda>p. \<lparr>sl_weekday = d, sl_periodId = pd_id p\<rparr>) sortedPeriods)
      (sort (gr_weekdays g)))"

subsection \<open>The constructor\<close>

record Env =
  en_input :: Input
  en_slots :: "Slot list"
  en_sortedPeriods :: "Period list"
  en_seq :: "string \<rightharpoonup> int"
  en_jitter :: "string \<rightharpoonup> int"
  en_teachers :: "string \<rightharpoonup> TeacherSt"
  en_budget :: int
  en_sectionSlots :: "string \<rightharpoonup> Slot list"

record State =
  st_placements :: "Placement list"
  st_owner :: "nat list"
  st_secAt :: "string \<rightharpoonup> nat"
  st_teachAt :: "string set"
  st_teachDay :: "string \<rightharpoonup> int"
  st_teachWk :: "string \<rightharpoonup> int"
  st_subjDay :: "string \<rightharpoonup> int"
  st_secDay :: "string \<rightharpoonup> int"
  st_remaining :: "int list"
  st_placed :: "int list"
  st_blocked :: "int list list"
  st_stacked :: "bool list"
  st_moves :: int

fun draw_jitter :: "Slot list \<Rightarrow> 32 word \<Rightarrow> (string \<rightharpoonup> int) \<Rightarrow> (string \<rightharpoonup> int)" where
  "draw_jitter [] a m = m"
| "draw_jitter (s # ss) a m =
    (let (a', u) = mulberry32 a in draw_jitter ss a' (m(slotKey s \<mapsto> jitter_of u)))"

definition start_budget :: "Input \<Rightarrow> int" where
  "start_budget inp =
    (let b = (if in_retryBudget inp = 0
              then 2 * sum_list (map rq_periodsPerWeek (in_requirements inp))
              else in_retryBudget inp)
     in if b < 0 then 0 else b)"

definition teacher_st :: "Input \<Rightarrow> Slot list \<Rightarrow> Teacher \<Rightarrow> TeacherSt" where
  "teacher_st inp slots src =
    \<lparr>tc_userId = tc_userId src, tc_name = tc_name src,
     tc_maxPerDay = (if tc_maxPerDay src \<le> 0 then int (length (gr_periods (in_grid inp))) else tc_maxPerDay src),
     tc_maxPerWeek = (if tc_maxPerWeek src \<le> 0 then int (length slots) else tc_maxPerWeek src),
     tc_unavailable = tc_unavailable src, tc_committed = tc_committed src,
     tc_unavailableSet = set (map slotKey (tc_unavailable src))\<rparr>"

definition commit_slot :: "string \<Rightarrow> Slot \<Rightarrow> State \<Rightarrow> State" where
  "commit_slot teacher s st =
    st\<lparr>st_teachAt := insert (tkey teacher s) (st_teachAt st),
       st_teachDay := cinc (st_teachDay st) (dkey teacher (sl_weekday s)) 1,
       st_teachWk := cinc (st_teachWk st) teacher 1\<rparr>"

fun load_teachers :: "Input \<Rightarrow> Slot list \<Rightarrow> Teacher list \<Rightarrow> (string \<rightharpoonup> TeacherSt) \<times> State
    \<Rightarrow> (string \<rightharpoonup> TeacherSt) \<times> State" where
  "load_teachers inp slots [] (m, st) = (m, st)"
| "load_teachers inp slots (src # ts) (m, st) =
    load_teachers inp slots ts
      (m(tc_userId src \<mapsto> teacher_st inp slots src),
       fold (commit_slot (tc_userId src)) (tc_committed src) st)"

definition blank_state :: "Input \<Rightarrow> State" where
  "blank_state inp =
    \<lparr>st_placements = [], st_owner = [], st_secAt = Map.empty, st_teachAt = {},
     st_teachDay = Map.empty, st_teachWk = Map.empty, st_subjDay = Map.empty, st_secDay = Map.empty,
     st_remaining = map rq_periodsPerWeek (in_requirements inp),
     st_placed = map (\<lambda>_. 0) (in_requirements inp),
     st_blocked = map (\<lambda>_. replicate BLK_REASONS 0) (in_requirements inp),
     st_stacked = map (\<lambda>_. False) (in_requirements inp),
     st_moves = 0\<rparr>"

definition new_State :: "Input \<Rightarrow> Env \<times> State" where
  "new_State inp =
    (let sorted = sort_key pd_sequence (gr_periods (in_grid inp));
         slots = gridSlots (in_grid inp) sorted;
         (ts, st) = load_teachers inp slots (in_teachers inp) (Map.empty, blank_state inp)
     in (\<lparr>en_input = inp, en_slots = slots, en_sortedPeriods = sorted,
          en_seq = map_of (rev (map (\<lambda>p. (pd_id p, pd_sequence p)) (gr_periods (in_grid inp)))),
          en_jitter = draw_jitter slots (seed_word (in_seed inp)) Map.empty,
          en_teachers = ts, en_budget = start_budget inp,
          en_sectionSlots = (\<lambda>sec. map_option (\<lambda>ps. gridSlots (in_grid inp) (sort_key pd_sequence ps))
            (in_sectionPeriods inp sec))\<rparr>, st))"

abbreviation reqs :: "Env \<Rightarrow> Requirement list" where
  "reqs e \<equiv> in_requirements (en_input e)"

subsection \<open>The methods\<close>

definition slotsFor :: "Env \<Rightarrow> string \<Rightarrow> Slot list" where
  "slotsFor e section = (case en_sectionSlots e section of Some ss \<Rightarrow> ss | None \<Rightarrow> en_slots e)"

definition overlapsOf :: "Env \<Rightarrow> string \<Rightarrow> string list" where
  "overlapsOf e p = (case in_overlaps (en_input e) p of Some ps \<Rightarrow> ps | None \<Rightarrow> [p])"

definition teacherBusy :: "Env \<Rightarrow> State \<Rightarrow> string \<Rightarrow> Slot \<Rightarrow> bool" where
  "teacherBusy e st teacher s =
    list_ex (\<lambda>p. tkey teacher \<lparr>sl_weekday = sl_weekday s, sl_periodId = p\<rparr> \<in> st_teachAt st)
      (overlapsOf e (sl_periodId s))"

definition unavailableAt :: "Env \<Rightarrow> TeacherSt \<Rightarrow> Slot \<Rightarrow> bool" where
  "unavailableAt e t s =
    list_ex (\<lambda>p. slotKey \<lparr>sl_weekday = sl_weekday s, sl_periodId = p\<rparr> \<in> tc_unavailableSet t)
      (overlapsOf e (sl_periodId s))"

definition dayCap :: "Env \<Rightarrow> nat \<Rightarrow> int" where
  "dayCap e ri =
    (let r = reqs e ! ri; days = int (length (gr_weekdays (in_grid (en_input e))))
     in if rq_maxPerDay r > 0 then rq_maxPerDay r
        else if days = 0 then 1
        else max 1 ((rq_periodsPerWeek r + days - 1) div days))"

definition tension :: "Env \<Rightarrow> State \<Rightarrow> Requirement \<Rightarrow> rat" where
  "tension e st r =
    (let slots = slotsFor e (rq_sectionId r);
         room = (case en_teachers e (rq_teacherId r) of
             None \<Rightarrow> int (length slots)
           | Some t \<Rightarrow> min (tc_maxPerWeek t)
               (int (length (filter (\<lambda>s. \<not> unavailableAt e t s \<and> \<not> teacherBusy e st (tc_userId t) s) slots))))
     in if room > 0 then of_int (rq_periodsPerWeek r) / of_int room else 1000)"

definition requirementOrder :: "Env \<Rightarrow> State \<Rightarrow> nat list" where
  "requirementOrder e st =
    map fst (sort_key (\<lambda>(i, r). (- tension e st r, \<not> rq_difficult r, rq_sectionName r,
        rq_subjectName r, rq_classSubjectId r))
      (enumerate 0 (reqs e)))"

text \<open>\<open>blockers\<close> answers -1 where nothing blocks: \<open>None\<close> here.\<close>

definition blockers :: "Env \<Rightarrow> State \<Rightarrow> nat \<Rightarrow> Slot \<Rightarrow> int \<Rightarrow> nat option" where
  "blockers e st ri s slack =
    (let r = reqs e ! ri;
         stacking = (if cget (st_subjDay st) (rkey ri (sl_weekday s)) \<ge> dayCap e ri + slack
                     then Some BLK_STACKING else None)
     in if st_secAt st (skey (rq_sectionId r) s) \<noteq> None then Some BLK_SECTION_BUSY
        else case en_teachers e (rq_teacherId r) of
          None \<Rightarrow> stacking
        | Some t \<Rightarrow>
            if teacherBusy e st (tc_userId t) s then Some BLK_TEACHER_BUSY
            else if unavailableAt e t s then Some BLK_UNAVAILABLE
            else if cget (st_teachWk st) (tc_userId t) \<ge> tc_maxPerWeek t then Some BLK_WEEK_CAP
            else if cget (st_teachDay st) (dkey (tc_userId t) (sl_weekday s)) \<ge> tc_maxPerDay t
              then Some BLK_DAY_CAP
            else stacking)"

text \<open>\<open>gaps\<close>: the free periods between a teacher's first and last busy period of a day.\<close>

definition gaps :: "Env \<Rightarrow> State \<Rightarrow> string \<Rightarrow> int \<Rightarrow> string \<Rightarrow> int" where
  "gaps e st teacher weekday extra =
    (let busy = map (\<lambda>p. tkey teacher \<lparr>sl_weekday = weekday, sl_periodId = pd_id p\<rparr> \<in> st_teachAt st
                          \<or> pd_id p = extra) (en_sortedPeriods e);
         inner = rev (dropWhile Not (rev (dropWhile Not busy)))
     in int (length (filter Not inner)))"

definition gapDelta :: "Env \<Rightarrow> State \<Rightarrow> string \<Rightarrow> Slot \<Rightarrow> int" where
  "gapDelta e st teacher s =
    gaps e st teacher (sl_weekday s) (sl_periodId s) - gaps e st teacher (sl_weekday s) ''''"

definition score :: "Env \<Rightarrow> State \<Rightarrow> nat \<Rightarrow> Slot \<Rightarrow> int" where
  "score e st ri s =
    (let r = reqs e ! ri;
         sc1 = 1000 * cget (st_subjDay st) (rkey ri (sl_weekday s))
             + 40 * cget (st_secDay st) (dkey (rq_sectionId r) (sl_weekday s));
         sc2 = (case en_teachers e (rq_teacherId r) of None \<Rightarrow> 0
               | Some t \<Rightarrow> 30 * cget (st_teachDay st) (dkey (tc_userId t) (sl_weekday s))
                         + 60 * gapDelta e st (tc_userId t) s);
         sc3 = (if rq_difficult r then 12 else 2) * cget (en_seq e) (sl_periodId s)
     in (sc1 + sc2 + sc3) * 1024 + cget (en_jitter e) (slotKey s))"

definition commit :: "Env \<Rightarrow> nat \<Rightarrow> Slot \<Rightarrow> State \<Rightarrow> State" where
  "commit e ri s st =
    (let r = reqs e ! ri;
         idx = length (st_placements st);
         p = \<lparr>pl_sectionId = rq_sectionId r, pl_sectionName = rq_sectionName r,
              pl_classSubjectId = rq_classSubjectId r, pl_subjectName = rq_subjectName r,
              pl_teacherId = rq_teacherId r, pl_weekday = sl_weekday s, pl_periodId = sl_periodId s\<rparr>;
         st1 = st\<lparr>st_placements := st_placements st @ [p],
                  st_secAt := (st_secAt st)(skey (rq_sectionId r) s \<mapsto> idx),
                  st_secDay := cinc (st_secDay st) (dkey (rq_sectionId r) (sl_weekday s)) 1,
                  st_subjDay := cinc (st_subjDay st) (rkey ri (sl_weekday s)) 1\<rparr>;
         st2 = (if rq_teacherId r \<noteq> '''' then commit_slot (rq_teacherId r) s st1 else st1)
     in st2\<lparr>st_remaining := (st_remaining st)[ri := st_remaining st ! ri - 1],
            st_placed := (st_placed st)[ri := st_placed st ! ri + 1],
            st_owner := st_owner st @ [ri]\<rparr>)"

definition uncommit :: "nat \<Rightarrow> State \<Rightarrow> State" where
  "uncommit idx st =
    (let p = st_placements st ! idx;
         ri = st_owner st ! idx;
         s = \<lparr>sl_weekday = pl_weekday p, sl_periodId = pl_periodId p\<rparr>;
         st1 = st\<lparr>st_secAt := (st_secAt st)(skey (pl_sectionId p) s := None),
                  st_secDay := cinc (st_secDay st) (dkey (pl_sectionId p) (sl_weekday s)) (-1),
                  st_subjDay := cinc (st_subjDay st) (rkey ri (sl_weekday s)) (-1)\<rparr>;
         st2 = (if pl_teacherId p \<noteq> ''''
                then st1\<lparr>st_teachAt := st_teachAt st1 - {tkey (pl_teacherId p) s},
                         st_teachDay := cinc (st_teachDay st1) (dkey (pl_teacherId p) (sl_weekday s)) (-1),
                         st_teachWk := cinc (st_teachWk st1) (pl_teacherId p) (-1)\<rparr>
                else st1)
     in st2\<lparr>st_remaining := (st_remaining st)[ri := st_remaining st ! ri + 1],
            st_placed := (st_placed st)[ri := st_placed st ! ri - 1],
            st_placements := (st_placements st)[idx := p\<lparr>pl_sectionId := ''''\<rparr>]\<rparr>)"

text \<open>
  \<open>tryPlace\<close>: \<open>scan\<close> is its loop over the slots, carrying the count of blockers and
  the best slot so far (\<open>best < 0\<close> is \<open>None\<close>).
\<close>

fun scan :: "Env \<Rightarrow> nat \<Rightarrow> int \<Rightarrow> Slot list \<Rightarrow> State \<Rightarrow> (Slot \<times> int) option \<Rightarrow> State \<times> (Slot \<times> int) option" where
  "scan e ri slack [] st best = (st, best)"
| "scan e ri slack (s # ss) st best =
    (case blockers e st ri s slack of
       Some b \<Rightarrow>
         scan e ri slack ss
           (if slack = 0
            then st\<lparr>st_blocked := (st_blocked st)[ri := (st_blocked st ! ri)[b := st_blocked st ! ri ! b + 1]]\<rparr>
            else st) best
     | None \<Rightarrow>
         scan e ri slack ss st
           (let sc = score e st ri s in
            case best of None \<Rightarrow> Some (s, sc)
            | Some (s0, sc0) \<Rightarrow> if sc < sc0 then Some (s, sc) else best))"

definition tryPlace :: "Env \<Rightarrow> nat \<Rightarrow> int \<Rightarrow> State \<Rightarrow> State \<times> bool" where
  "tryPlace e ri slack st =
    (case scan e ri slack (slotsFor e (rq_sectionId (reqs e ! ri))) st None of
       (st', None) \<Rightarrow> (st', False)
     | (st', Some (s, _)) \<Rightarrow> (commit e ri s st', True))"

definition repair_blocked :: "Env \<Rightarrow> State \<Rightarrow> nat \<Rightarrow> Slot \<Rightarrow> bool" where
  "repair_blocked e st ri s =
    (case en_teachers e (rq_teacherId (reqs e ! ri)) of None \<Rightarrow> False
     | Some t \<Rightarrow>
         teacherBusy e st (tc_userId t) s
         \<or> cget (st_teachDay st) (dkey (tc_userId t) (sl_weekday s)) \<ge> tc_maxPerDay t
         \<or> cget (st_teachWk st) (tc_userId t) \<ge> tc_maxPerWeek t
         \<or> unavailableAt e t s)"

fun repair_loop :: "Env \<Rightarrow> nat \<Rightarrow> Slot list \<Rightarrow> State \<Rightarrow> State \<times> bool" where
  "repair_loop e ri [] st = (st, False)"
| "repair_loop e ri (s # ss) st =
    (case st_secAt st (skey (rq_sectionId (reqs e ! ri)) s) of
       None \<Rightarrow> repair_loop e ri ss st
     | Some holder \<Rightarrow>
         if repair_blocked e st ri s then repair_loop e ri ss st
         else
           let slack = int (length (gr_periods (in_grid (en_input e))));
               hri = st_owner st ! holder;
               st1 = uncommit holder (st\<lparr>st_moves := st_moves st + 1\<rparr>)
           in case tryPlace e ri slack st1 of
                (st2, False) \<Rightarrow>
                  let st3 = commit e hri s st2
                  in if st_moves st3 \<ge> en_budget e then (st3, False) else repair_loop e ri ss st3
              | (st2, True) \<Rightarrow>
                  (case tryPlace e hri slack st2 of
                     (st3, True) \<Rightarrow> (st3, True)
                   | (st3, False) \<Rightarrow>
                       let st4 = commit e hri s (uncommit (length (st_placements st3) - 1) st3)
                       in if st_moves st4 \<ge> en_budget e then (st4, False) else repair_loop e ri ss st4))"

definition repair :: "Env \<Rightarrow> nat \<Rightarrow> State \<Rightarrow> State \<times> bool" where
  "repair e ri st =
    (if st_moves st \<ge> en_budget e then (st, False)
     else repair_loop e ri (slotsFor e (rq_sectionId (reqs e ! ri))) st)"

fun place_slacks :: "Env \<Rightarrow> nat \<Rightarrow> int list \<Rightarrow> State \<Rightarrow> State \<times> bool" where
  "place_slacks e ri [] st = repair e ri st"
| "place_slacks e ri (slack # sl) st =
    (case tryPlace e ri slack st of
       (st', True) \<Rightarrow> (if slack > 0 then st'\<lparr>st_stacked := (st_stacked st')[ri := True]\<rparr> else st', True)
     | (st', False) \<Rightarrow> place_slacks e ri sl st')"

definition placeOne :: "Env \<Rightarrow> nat \<Rightarrow> State \<Rightarrow> State \<times> bool" where
  "placeOne e ri st =
    place_slacks e ri [0, 1, int (length (gr_periods (in_grid (en_input e))))] st"

subsection \<open>The report\<close>

definition nameOr :: "string \<Rightarrow> string \<Rightarrow> string" where
  "nameOr s fallback = (if js_trim s = '''' then fallback else s)"

fun upperFirst :: "string \<Rightarrow> string" where
  "upperFirst [] = []"
| "upperFirst (c # s) = upper_char c # s"

definition joinShort :: "string list \<Rightarrow> nat \<Rightarrow> string" where
  "joinShort items n =
    (if items = [] then ''''
     else if length items \<le> n then js_join '', '' items
     else js_join '', '' (take n items) @ '' and '' @ js_int (int (length items) - int n) @ '' more'')"

definition no_issue :: Issue where
  "no_issue =
    \<lparr>is_kind = '''', is_severity = '''', is_sectionId = '''', is_sectionName = '''', is_classSubjectId = '''',
     is_subjectName = '''', is_teacherId = '''', is_teacherName = '''', is_required = 0, is_placed = 0,
     is_detail = ''''\<rparr>"

text \<open>The two maps of \<open>preflight\<close> are association lists in insertion order, as a JavaScript \<open>Map\<close> is.\<close>

fun demand_by_teacher :: "Requirement list \<Rightarrow> (string \<times> int \<times> string list) list \<Rightarrow> (string \<times> int \<times> string list) list" where
  "demand_by_teacher [] m = m"
| "demand_by_teacher (r # rs) m =
    (if rq_teacherId r = '''' then demand_by_teacher rs m
     else let (n, subj) = (case map_of m (rq_teacherId r) of None \<Rightarrow> (0, []) | Some d \<Rightarrow> d)
          in demand_by_teacher rs (AList.update (rq_teacherId r)
               (n + rq_periodsPerWeek r, subj @ [rq_sectionName r @ '' '' @ rq_subjectName r]) m))"

fun demand_by_section :: "Requirement list \<Rightarrow> (string \<times> string \<times> int) list \<Rightarrow> (string \<times> string \<times> int) list" where
  "demand_by_section [] m = m"
| "demand_by_section (r # rs) m =
    (let (nm, n) = (case map_of m (rq_sectionId r) of None \<Rightarrow> (rq_sectionName r, 0) | Some d \<Rightarrow> d)
     in demand_by_section rs (AList.update (rq_sectionId r) (nm, n + rq_periodsPerWeek r) m))"

definition teacher_oversubscribed :: "Env \<Rightarrow> string \<times> int \<times> string list \<Rightarrow> Issue list" where
  "teacher_oversubscribed e d =
    (case d of (i, periods, subjects) \<Rightarrow>
     (case en_teachers e i of None \<Rightarrow> []
      | Some t \<Rightarrow>
          let committed = int (length (tc_committed t)) in
          if periods + committed \<le> tc_maxPerWeek t then []
          else [no_issue\<lparr>is_kind := ''teacher_oversubscribed'', is_severity := SEVERITY_BLOCKING,
                 is_teacherId := i, is_teacherName := tc_name t,
                 is_required := periods + committed, is_placed := tc_maxPerWeek t,
                 is_detail := nameOr (tc_name t) ''This teacher'' @ '' is asked for '' @ js_int (periods + committed)
                   @ '' periods a week ('' @ js_int periods @ '' here, '' @ js_int committed
                   @ '' already committed) against a cap of '' @ js_int (tc_maxPerWeek t) @ ''. ''
                   @ joinShort (sort subjects) 3 @ '' cannot all be staffed by them.''\<rparr>]))"

definition section_oversubscribed :: "Env \<Rightarrow> string \<times> string \<times> int \<Rightarrow> Issue list" where
  "section_oversubscribed e d =
    (case d of (i, nm, periods) \<Rightarrow>
      let cells = int (length (slotsFor e i)) in
      if periods \<le> cells then []
      else [no_issue\<lparr>is_kind := ''section_oversubscribed'', is_severity := SEVERITY_BLOCKING,
             is_sectionId := i, is_sectionName := nm, is_required := periods, is_placed := cells,
             is_detail := nameOr nm ''This section'' @ '' needs '' @ js_int periods
               @ '' periods a week and the timetable has '' @ js_int cells @ '' teaching slots. ''
               @ js_int (periods - cells) @ '' periods cannot be placed anywhere.''\<rparr>])"

definition preflight :: "Env \<Rightarrow> Issue list" where
  "preflight e =
    concat (map (teacher_oversubscribed e) (sort_key fst (demand_by_teacher (reqs e) [])))
    @ concat (map (section_oversubscribed e) (sort_key fst (demand_by_section (reqs e) [])))"

fun worst_from :: "nat \<Rightarrow> int list \<Rightarrow> nat option \<times> int \<Rightarrow> nat option" where
  "worst_from k [] (worst, n) = worst"
| "worst_from k (x # xs) (worst, n) = worst_from (Suc k) xs (if x > n then (Some k, x) else (worst, n))"

definition explain :: "Env \<Rightarrow> State \<Rightarrow> nat \<Rightarrow> string" where
  "explain e st ri =
    (let r = reqs e ! ri;
         short = rq_periodsPerWeek r - st_placed st ! ri;
         head = nameOr (rq_sectionName r) ''This section'' @ '' needs '' @ js_int (rq_periodsPerWeek r) @ '' ''
           @ rq_subjectName r @ '' '' @ (if rq_periodsPerWeek r = 1 then ''period'' else ''periods'')
           @ ''; '' @ js_int (st_placed st ! ri) @ '' placed, '' @ js_int short @ '' short.'';
         worst = worst_from 0 (st_blocked st ! ri) (None, 0);
         tail = (case worst of None \<Rightarrow> head @ '' No slot in the week could take it.''
           | Some k \<Rightarrow>
               (case en_teachers e (rq_teacherId r) of
                  Some t \<Rightarrow>
                    if k = BLK_TEACHER_BUSY \<or> k = BLK_UNAVAILABLE
                    then head @ '' '' @ nameOr (tc_name t) ''The assigned teacher'' @ '': '' @ blockerNames ! k @ ''.''
                    else head @ '' '' @ upperFirst (blockerNames ! k) @ ''.''
                | None \<Rightarrow> head @ '' '' @ upperFirst (blockerNames ! k) @ ''.''))
     in case en_teachers e (rq_teacherId r) of
          None \<Rightarrow> tail
        | Some t \<Rightarrow>
            let wk = cget (st_teachWk st) (tc_userId t);
                days = gr_weekdays (in_grid (en_input e));
                full = length (filter (\<lambda>d. cget (st_teachDay st) (dkey (tc_userId t) d) \<ge> tc_maxPerDay t) days)
            in if wk \<ge> tc_maxPerWeek t
               then head @ '' '' @ nameOr (tc_name t) ''The assigned teacher'' @ '' is at '' @ js_int wk @ '' of ''
                 @ js_int (tc_maxPerWeek t) @ '' periods for the week and cannot take more.''
               else if full = length days \<and> full > 0
               then head @ '' '' @ nameOr (tc_name t) ''The assigned teacher'' @ '' is at their daily limit of ''
                 @ js_int (tc_maxPerDay t) @ '' periods on every day of the week.''
               else tail)"

definition report_one :: "Env \<Rightarrow> State \<Rightarrow> nat \<times> Requirement \<Rightarrow> Issue list" where
  "report_one e st ir =
    (case ir of (i, r) \<Rightarrow>
      let base = no_issue\<lparr>is_sectionId := rq_sectionId r, is_sectionName := rq_sectionName r,
            is_classSubjectId := rq_classSubjectId r, is_subjectName := rq_subjectName r,
            is_required := rq_periodsPerWeek r, is_placed := st_placed st ! i\<rparr>
      in (if st_placed st ! i > 0 \<and> rq_teacherId r = ''''
          then [base\<lparr>is_kind := ''no_teacher'', is_severity := SEVERITY_WARNING,
                 is_detail := rq_sectionName r @ '' '' @ rq_subjectName r @ '' has '' @ js_int (st_placed st ! i)
                   @ '' periods in the draft and no teacher assigned to any of them.''\<rparr>] else [])
       @ (if st_stacked st ! i
          then [base\<lparr>is_kind := ''subject_stacked'', is_severity := SEVERITY_WARNING,
                 is_detail := rq_sectionName r @ '' '' @ rq_subjectName r @ '' had to be doubled up on a day to fit its ''
                   @ js_int (rq_periodsPerWeek r) @ '' periods.''\<rparr>] else [])
       @ (if st_remaining st ! i \<le> 0 then []
          else [base\<lparr>is_kind := ''unmet_periods'', is_severity := SEVERITY_BLOCKING, is_teacherId := rq_teacherId r,
                 is_teacherName := (case en_teachers e (rq_teacherId r) of Some t \<Rightarrow> tc_name t | None \<Rightarrow> ''''),
                 is_detail := explain e st i\<rparr>]))"

definition report :: "Env \<Rightarrow> State \<Rightarrow> Issue list" where
  "report e st = concat (map (report_one e st) (enumerate 0 (reqs e)))"

subsection \<open>Generate\<close>

definition place_round :: "Env \<Rightarrow> nat list \<Rightarrow> State \<Rightarrow> State" where
  "place_round e order st =
    fold (\<lambda>ri st. if st_remaining st ! ri \<le> 0 then st else fst (placeOne e ri st)) order st"

definition maxRounds :: "Input \<Rightarrow> int" where
  "maxRounds inp = fold (\<lambda>r m. if rq_periodsPerWeek r > m then rq_periodsPerWeek r else m) (in_requirements inp) 0"

definition solve :: "Input \<Rightarrow> Env \<times> State" where
  "solve inp =
    (let (e, st0) = new_State inp; order = requirementOrder e st0
     in (e, fold (\<lambda>_. place_round e order) [0..<nat (maxRounds inp)] st0))"

definition generate :: "Input \<Rightarrow> Result" where
  "generate inp =
    (let (e, st) = solve inp
     in \<lparr>re_placements = sort_key (\<lambda>p. (pl_sectionName p, pl_sectionId p, pl_weekday p, pl_periodId p))
           (filter (\<lambda>p. pl_sectionId p \<noteq> '''') (st_placements st)),
         re_issues = sort_key (\<lambda>i. (is_severity i \<noteq> SEVERITY_BLOCKING, is_sectionName i, is_subjectName i, is_kind i))
           (preflight e @ report e st),
         re_required = sum_list (map rq_periodsPerWeek (in_requirements inp)),
         re_placed = sum_list (st_placed st),
         re_moves = st_moves st\<rparr>)"

end
