(* ===== verification/SolverProofs.thy ===== *)
theory SolverProofs
  imports Solver
begin

text \<open>
  The proofs about the timetable generator.  A solver state represents a finite set of
  \<^emph>\<open>assignments\<close> (requirement, slot): \<open>represents\<close> couples every index the code keeps (who is in
  a cell, where a teacher is, the daily and weekly counts, what is placed and remaining) to
  that set, and \<open>legal\<close> is what a timetable promises of it.  \<open>commit\<close> inserts an
  assignment, \<open>uncommit\<close> removes one, \<open>blockers\<close> answering nothing keeps \<open>legal\<close>, and the
  placement loops then keep both.
\<close>

subsection \<open>The interface between the bell schedules and the generator\<close>

text \<open>
  The generator asks, for a period, which periods run at the same time.  What it relies on is
  that a period overlaps itself and that overlapping is symmetric.
\<close>

locale time_overlap =
  fixes ov :: "string \<Rightarrow> string list"
  assumes ov_refl: "p \<in> set (ov p)"
    and ov_sym: "q \<in> set (ov p) \<Longrightarrow> p \<in> set (ov q)"
begin

definition clash :: "Slot \<Rightarrow> Slot \<Rightarrow> bool" where
  "clash s s' = (sl_weekday s = sl_weekday s' \<and> sl_periodId s' \<in> set (ov (sl_periodId s)))"

lemma clash_refl: "clash s s"
  by (simp add: clash_def ov_refl)

lemma clash_sym: "clash s s' \<Longrightarrow> clash s' s"
  by (auto simp: clash_def ov_sym)

end

text \<open>A school with one bell: a period overlaps itself only.\<close>

interpretation one_bell: time_overlap "\<lambda>p. [p]"
  by unfold_locales auto

subsection \<open>Assignments\<close>

type_synonym assignment = "nat \<times> Slot"

abbreviation sec_of :: "Env \<Rightarrow> assignment \<Rightarrow> string" where
  "sec_of e a \<equiv> rq_sectionId (reqs e ! fst a)"

abbreviation tch_of :: "Env \<Rightarrow> assignment \<Rightarrow> string" where
  "tch_of e a \<equiv> rq_teacherId (reqs e ! fst a)"

definition slot_of :: "Placement \<Rightarrow> Slot" where
  "slot_of p = \<lparr>sl_weekday = pl_weekday p, sl_periodId = pl_periodId p\<rparr>"

definition placement_of :: "Env \<Rightarrow> assignment \<Rightarrow> Placement" where
  "placement_of e a =
    (let r = reqs e ! fst a in
     \<lparr>pl_sectionId = rq_sectionId r, pl_sectionName = rq_sectionName r,
      pl_classSubjectId = rq_classSubjectId r, pl_subjectName = rq_subjectName r,
      pl_teacherId = rq_teacherId r, pl_weekday = sl_weekday (snd a), pl_periodId = sl_periodId (snd a)\<rparr>)"

lemma slot_of_placement_of [simp]: "slot_of (placement_of e a) = snd a"
  by (simp add: slot_of_def placement_of_def Let_def)

lemma pl_sectionId_placement_of [simp]: "pl_sectionId (placement_of e a) = sec_of e a"
  and pl_teacherId_placement_of [simp]: "pl_teacherId (placement_of e a) = tch_of e a"
  and pl_weekday_placement_of [simp]: "pl_weekday (placement_of e a) = sl_weekday (snd a)"
  and pl_periodId_placement_of [simp]: "pl_periodId (placement_of e a) = sl_periodId (snd a)"
  by (simp_all add: placement_of_def Let_def)

lemma slot_eqI: "sl_weekday s = sl_weekday s' \<Longrightarrow> sl_periodId s = sl_periodId s' \<Longrightarrow> s = (s' :: Slot)"
  by simp

lemma skey_inj:
  assumes "skey a s = skey b s'" "CHR ''|'' \<notin> set a" "CHR ''|'' \<notin> set b"
  shows "a = b \<and> s = s'"
proof -
  from assms have "a = b" and *: "bar (js_int (sl_weekday s)) (sl_periodId s) = bar (js_int (sl_weekday s')) (sl_periodId s')"
    by (auto simp: skey_def dest: bar_inj)
  from bar_inj [OF *] have "sl_weekday s = sl_weekday s'" "sl_periodId s = sl_periodId s'"
    by (auto dest: js_int_inj)
  with \<open>a = b\<close> show ?thesis by (simp add: slot_eqI)
qed

lemma tkey_skey: "tkey = skey"
  by (intro ext) (simp add: tkey_def skey_def)

lemmas tkey_inj = skey_inj [folded tkey_skey]

lemma dkey_inj:
  assumes "dkey a d = dkey b d'" "CHR ''|'' \<notin> set a" "CHR ''|'' \<notin> set b"
  shows "a = b \<and> d = d'"
  using bar_inj [OF assms [unfolded dkey_def]] by (auto dest: js_int_inj)

definition count_of :: "'a set \<Rightarrow> ('a \<Rightarrow> bool) \<Rightarrow> int" where
  "count_of A P = int (card {a \<in> A. P a})"

lemma count_of_insert:
  assumes "finite A" "x \<notin> A"
  shows "count_of (insert x A) P = count_of A P + (if P x then 1 else 0)"
proof -
  have "{a \<in> insert x A. P a} = (if P x then insert x {a \<in> A. P a} else {a \<in> A. P a})" by auto
  with assms show ?thesis by (simp add: count_of_def)
qed

lemma count_of_remove:
  assumes "finite A" "x \<in> A"
  shows "count_of (A - {x}) P = count_of A P - (if P x then 1 else 0)"
proof -
  have "count_of (insert x (A - {x})) P = count_of (A - {x}) P + (if P x then 1 else 0)"
    using assms by (intro count_of_insert) auto
  with assms(2) show ?thesis by (simp add: insert_absorb)
qed

lemma count_of_nonneg [simp]: "0 \<le> count_of A P"
  by (simp add: count_of_def)

subsection \<open>What a state represents\<close>

text \<open>
  \<open>b\<close> is the state the constructor leaves: the teachers' periods committed elsewhere are in
  its maps and nothing is placed.
\<close>

definition teaching :: "Env \<Rightarrow> assignment set \<Rightarrow> (assignment \<Rightarrow> bool) \<Rightarrow> int" where
  "teaching e A P = count_of A (\<lambda>a. tch_of e a \<noteq> '''' \<and> P a)"

definition rep_cells :: "Env \<Rightarrow> State \<Rightarrow> assignment set \<Rightarrow> bool" where
  "rep_cells e st A \<longleftrightarrow>
     length (st_owner st) = length (st_placements st)
   \<and> (\<forall>k i. st_secAt st k = Some i \<longrightarrow> i < length (st_placements st)
        \<and> (st_owner st ! i, slot_of (st_placements st ! i)) \<in> A
        \<and> st_placements st ! i = placement_of e (st_owner st ! i, slot_of (st_placements st ! i))
        \<and> k = skey (pl_sectionId (st_placements st ! i)) (slot_of (st_placements st ! i)))
   \<and> (\<forall>a\<in>A. \<exists>i. st_secAt st (skey (sec_of e a) (snd a)) = Some i
        \<and> st_owner st ! i = fst a \<and> slot_of (st_placements st ! i) = snd a)
   \<and> (\<forall>i<length (st_placements st). pl_sectionId (st_placements st ! i) \<noteq> '''' \<longrightarrow>
        st_secAt st (skey (pl_sectionId (st_placements st ! i)) (slot_of (st_placements st ! i))) = Some i)"

definition rep_counts :: "Env \<Rightarrow> State \<Rightarrow> State \<Rightarrow> assignment set \<Rightarrow> bool" where
  "rep_counts e b st A \<longleftrightarrow>
     st_teachAt st = st_teachAt b \<union> (\<lambda>a. tkey (tch_of e a) (snd a)) ` {a \<in> A. tch_of e a \<noteq> ''''}
   \<and> (\<forall>k. cget (st_teachDay st) k = cget (st_teachDay b) k
        + teaching e A (\<lambda>a. dkey (tch_of e a) (sl_weekday (snd a)) = k))
   \<and> (\<forall>u. cget (st_teachWk st) u = cget (st_teachWk b) u + teaching e A (\<lambda>a. tch_of e a = u))
   \<and> length (st_placed st) = length (reqs e) \<and> length (st_remaining st) = length (reqs e)
   \<and> (\<forall>ri<length (reqs e). st_placed st ! ri = count_of A (\<lambda>a. fst a = ri)
        \<and> st_remaining st ! ri = rq_periodsPerWeek (reqs e ! ri) - st_placed st ! ri)"

definition represents :: "Env \<Rightarrow> State \<Rightarrow> State \<Rightarrow> assignment set \<Rightarrow> bool" where
  "represents e b st A \<longleftrightarrow> finite A \<and> (\<forall>a\<in>A. fst a < length (reqs e))
     \<and> rep_cells e st A \<and> rep_counts e b st A"

definition fresh :: "Env \<Rightarrow> State \<Rightarrow> assignment \<Rightarrow> bool" where
  "fresh e st a \<longleftrightarrow> st_secAt st (skey (sec_of e a) (snd a)) = None
     \<and> (tch_of e a \<noteq> '''' \<longrightarrow> tkey (tch_of e a) (snd a) \<notin> st_teachAt st)"

lemma commit_fields:
  "st_placements (commit e ri s st) = st_placements st @ [placement_of e (ri, s)]"
  "st_owner (commit e ri s st) = st_owner st @ [ri]"
  "st_secAt (commit e ri s st) = (st_secAt st)(skey (sec_of e (ri, s)) s \<mapsto> length (st_placements st))"
  "st_teachAt (commit e ri s st) = (if tch_of e (ri, s) = '''' then st_teachAt st
     else insert (tkey (tch_of e (ri, s)) s) (st_teachAt st))"
  "st_teachDay (commit e ri s st) = (if tch_of e (ri, s) = '''' then st_teachDay st
     else cinc (st_teachDay st) (dkey (tch_of e (ri, s)) (sl_weekday s)) 1)"
  "st_teachWk (commit e ri s st) = (if tch_of e (ri, s) = '''' then st_teachWk st
     else cinc (st_teachWk st) (tch_of e (ri, s)) 1)"
  "st_remaining (commit e ri s st) = (st_remaining st)[ri := st_remaining st ! ri - 1]"
  "st_placed (commit e ri s st) = (st_placed st)[ri := st_placed st ! ri + 1]"
  "st_moves (commit e ri s st) = st_moves st"
  "st_stacked (commit e ri s st) = st_stacked st"
  by (simp_all add: commit_def commit_slot_def placement_of_def Let_def)

lemma uncommit_fields:
  "st_placements (uncommit i st) = (st_placements st)[i := (st_placements st ! i)\<lparr>pl_sectionId := ''''\<rparr>]"
  "st_owner (uncommit i st) = st_owner st"
  "st_secAt (uncommit i st) = (st_secAt st)(skey (pl_sectionId (st_placements st ! i)) (slot_of (st_placements st ! i)) := None)"
  "st_teachAt (uncommit i st) = (if pl_teacherId (st_placements st ! i) = '''' then st_teachAt st
     else st_teachAt st - {tkey (pl_teacherId (st_placements st ! i)) (slot_of (st_placements st ! i))})"
  "st_teachDay (uncommit i st) = (if pl_teacherId (st_placements st ! i) = '''' then st_teachDay st
     else cinc (st_teachDay st) (dkey (pl_teacherId (st_placements st ! i)) (pl_weekday (st_placements st ! i))) (-1))"
  "st_teachWk (uncommit i st) = (if pl_teacherId (st_placements st ! i) = '''' then st_teachWk st
     else cinc (st_teachWk st) (pl_teacherId (st_placements st ! i)) (-1))"
  "st_remaining (uncommit i st) = (st_remaining st)[st_owner st ! i := st_remaining st ! (st_owner st ! i) + 1]"
  "st_placed (uncommit i st) = (st_placed st)[st_owner st ! i := st_placed st ! (st_owner st ! i) - 1]"
  "st_moves (uncommit i st) = st_moves st"
  "st_stacked (uncommit i st) = st_stacked st"
  by (simp_all add: uncommit_def slot_of_def Let_def)

lemma teaching_insert:
  "finite A \<Longrightarrow> x \<notin> A \<Longrightarrow>
   teaching e (insert x A) P = teaching e A P + (if tch_of e x \<noteq> '''' \<and> P x then 1 else 0)"
  by (simp add: teaching_def count_of_insert)

lemma teaching_remove:
  "finite A \<Longrightarrow> x \<in> A \<Longrightarrow>
   teaching e (A - {x}) P = teaching e A P - (if tch_of e x \<noteq> '''' \<and> P x then 1 else 0)"
  by (simp add: teaching_def count_of_remove)

lemma fresh_notin:
  assumes "represents e b st A" "fresh e st a"
  shows "a \<notin> A"
  using assms by (fastforce simp: represents_def rep_cells_def fresh_def)

lemma commit_rep_cells:
  assumes rep: "represents e b st A" and fr: "fresh e st a"
  shows "rep_cells e (commit e (fst a) (snd a) st) (insert a A)"
proof -
  let ?p = "st_placements st" and ?o = "st_owner st" and ?k = "skey (sec_of e a) (snd a)"
  from rep have len: "length ?o = length ?p"
    and some: "\<And>k i. st_secAt st k = Some i \<Longrightarrow> i < length ?p \<and> (?o ! i, slot_of (?p ! i)) \<in> A
        \<and> ?p ! i = placement_of e (?o ! i, slot_of (?p ! i)) \<and> k = skey (pl_sectionId (?p ! i)) (slot_of (?p ! i))"
    and all: "\<And>x. x \<in> A \<Longrightarrow> \<exists>i. st_secAt st (skey (sec_of e x) (snd x)) = Some i \<and> ?o ! i = fst x \<and> slot_of (?p ! i) = snd x"
    and live: "\<And>i. i < length ?p \<Longrightarrow> pl_sectionId (?p ! i) \<noteq> '''' \<Longrightarrow> st_secAt st (skey (pl_sectionId (?p ! i)) (slot_of (?p ! i))) = Some i"
    by (auto simp: represents_def rep_cells_def)
  from fr have none: "st_secAt st ?k = None" by (simp add: fresh_def)
  have 1: "st_secAt (commit e (fst a) (snd a) st) k = Some i \<Longrightarrow> i < Suc (length ?p)
        \<and> ((?o @ [fst a]) ! i, slot_of ((?p @ [placement_of e a]) ! i)) \<in> insert a A
        \<and> (?p @ [placement_of e a]) ! i = placement_of e ((?o @ [fst a]) ! i, slot_of ((?p @ [placement_of e a]) ! i))
        \<and> k = skey (pl_sectionId ((?p @ [placement_of e a]) ! i)) (slot_of ((?p @ [placement_of e a]) ! i))" for k i
    using some [of k i] len by (auto simp: commit_fields nth_append split: if_splits)
  have 2: "\<exists>i. st_secAt (commit e (fst a) (snd a) st) (skey (sec_of e x) (snd x)) = Some i
        \<and> (?o @ [fst a]) ! i = fst x \<and> slot_of ((?p @ [placement_of e a]) ! i) = snd x" if "x \<in> insert a A" for x
  proof (cases "x = a")
    case True
    with len show ?thesis by (auto simp: commit_fields nth_append)
  next
    case False
    with that obtain i where i: "st_secAt st (skey (sec_of e x) (snd x)) = Some i" "?o ! i = fst x" "slot_of (?p ! i) = snd x"
      using all by blast
    moreover from i(1) have "i < length ?p" using some by blast
    moreover from i(1) none have "skey (sec_of e x) (snd x) \<noteq> ?k" by auto
    ultimately show ?thesis using len by (auto simp: commit_fields nth_append)
  qed
  have 3: "st_secAt (commit e (fst a) (snd a) st) (skey (pl_sectionId ((?p @ [placement_of e a]) ! i)) (slot_of ((?p @ [placement_of e a]) ! i))) = Some i"
    if "i < Suc (length ?p)" "pl_sectionId ((?p @ [placement_of e a]) ! i) \<noteq> ''''" for i
    using that live [of i] none by (auto simp: commit_fields nth_append less_Suc_eq)
  show ?thesis
    unfolding rep_cells_def using 1 2 3 len by (simp add: commit_fields(1,2))
qed

lemma commit_rep_counts:
  assumes rep: "represents e b st A" and new: "a \<notin> A" and ri: "fst a < length (reqs e)"
  shows "rep_counts e b (commit e (fst a) (snd a) st) (insert a A)"
proof -
  from rep have fin: "finite A" and rc: "rep_counts e b st A" by (auto simp: represents_def)
  with rc fin new ri show ?thesis
    by (auto simp: rep_counts_def commit_fields teaching_insert count_of_insert cget_cinc nth_list_update)
qed

lemma commit_represents:
  assumes "represents e b st A" "fresh e st (ri, s)" "ri < length (reqs e)"
  shows "represents e b (commit e ri s st) (insert (ri, s) A)"
  using assms commit_rep_cells [OF assms(1,2)] commit_rep_counts [OF assms(1) fresh_notin [OF assms(1,2)]]
  by (auto simp: represents_def)

definition removable :: "Env \<Rightarrow> State \<Rightarrow> assignment set \<Rightarrow> assignment \<Rightarrow> bool" where
  "removable e b A a \<longleftrightarrow> (tch_of e a \<noteq> '''' \<longrightarrow> tkey (tch_of e a) (snd a) \<notin> st_teachAt b
     \<and> (\<forall>x\<in>A. x \<noteq> a \<longrightarrow> tch_of e x \<noteq> '''' \<longrightarrow> tkey (tch_of e x) (snd x) \<noteq> tkey (tch_of e a) (snd a)))"

lemma held_assignment:
  assumes "represents e b st A" "st_secAt st k = Some i" "a = (st_owner st ! i, slot_of (st_placements st ! i))"
  shows "a \<in> A" "i < length (st_placements st)" "st_placements st ! i = placement_of e a"
    "k = skey (sec_of e a) (snd a)" "fst a < length (reqs e)"
proof -
  from assms show A: "a \<in> A" and "i < length (st_placements st)" and p: "st_placements st ! i = placement_of e a"
    by (auto simp: represents_def rep_cells_def)
  from assms have "k = skey (pl_sectionId (st_placements st ! i)) (slot_of (st_placements st ! i))"
    by (auto simp: represents_def rep_cells_def)
  with p show "k = skey (sec_of e a) (snd a)" by simp
  from A assms(1) show "fst a < length (reqs e)" by (auto simp: represents_def)
qed

lemma uncommit_rep_cells:
  assumes rep: "represents e b st A" and k: "st_secAt st k = Some i"
    and a: "a = (st_owner st ! i, slot_of (st_placements st ! i))"
  shows "rep_cells e (uncommit i st) (A - {a})"
proof -
  let ?p = "st_placements st" and ?o = "st_owner st"
  let ?p' = "?p[i := (?p ! i)\<lparr>pl_sectionId := ''''\<rparr>]"
  note held = held_assignment [OF rep k a]
  from rep have len: "length ?o = length ?p"
    and some: "\<And>k i. st_secAt st k = Some i \<Longrightarrow> i < length ?p \<and> (?o ! i, slot_of (?p ! i)) \<in> A
        \<and> ?p ! i = placement_of e (?o ! i, slot_of (?p ! i)) \<and> k = skey (pl_sectionId (?p ! i)) (slot_of (?p ! i))"
    and all: "\<And>x. x \<in> A \<Longrightarrow> \<exists>i. st_secAt st (skey (sec_of e x) (snd x)) = Some i \<and> ?o ! i = fst x \<and> slot_of (?p ! i) = snd x"
    and live: "\<And>i. i < length ?p \<Longrightarrow> pl_sectionId (?p ! i) \<noteq> '''' \<Longrightarrow> st_secAt st (skey (pl_sectionId (?p ! i)) (slot_of (?p ! i))) = Some i"
    by (auto simp: represents_def rep_cells_def)
  have sec: "st_secAt (uncommit i st) = (st_secAt st)(k := None)"
    using held(3,4) by (simp add: uncommit_fields)
  have unique: "k' = k" if "st_secAt st k' = Some i" for k'
    using some [OF that] some [OF k] by simp
  have 1: "j < length ?p \<and> (?o ! j, slot_of (?p' ! j)) \<in> A - {a}
        \<and> ?p' ! j = placement_of e (?o ! j, slot_of (?p' ! j)) \<and> k' = skey (pl_sectionId (?p' ! j)) (slot_of (?p' ! j))"
    if "st_secAt (uncommit i st) k' = Some j" for k' j
  proof -
    from that sec have k': "k' \<noteq> k" "st_secAt st k' = Some j" by (auto split: if_splits)
    then have "j \<noteq> i" using unique by blast
    moreover have "(?o ! j, slot_of (?p ! j)) \<noteq> a"
    proof
      assume "(?o ! j, slot_of (?p ! j)) = a"
      with held_assignment(4) [OF rep k'(2) refl] held(4) k'(1) show False by simp
    qed
    ultimately show ?thesis using some [OF k'(2)] by simp
  qed
  have 2: "\<exists>j. st_secAt (uncommit i st) (skey (sec_of e x) (snd x)) = Some j \<and> ?o ! j = fst x \<and> slot_of (?p' ! j) = snd x"
    if "x \<in> A - {a}" for x
  proof -
    from that all obtain j where j: "st_secAt st (skey (sec_of e x) (snd x)) = Some j" "?o ! j = fst x" "slot_of (?p ! j) = snd x"
      by blast
    have "j \<noteq> i" using j(2,3) a that by auto
    moreover from this have "skey (sec_of e x) (snd x) \<noteq> k" using k j(1) by auto
    ultimately show ?thesis using j sec by auto
  qed
  have 3: "st_secAt (uncommit i st) (skey (pl_sectionId (?p' ! j)) (slot_of (?p' ! j))) = Some j"
    if "j < length ?p" "pl_sectionId (?p' ! j) \<noteq> ''''" for j
  proof -
    from that have "j \<noteq> i" by auto
    with that live [of j] have "st_secAt st (skey (pl_sectionId (?p' ! j)) (slot_of (?p' ! j))) = Some j" by simp
    with \<open>j \<noteq> i\<close> k sec show ?thesis by auto
  qed
  show ?thesis
    unfolding rep_cells_def using 1 2 3 len by (simp add: uncommit_fields(1,2))
qed

lemma uncommit_rep_counts:
  assumes rep: "represents e b st A" and k: "st_secAt st k = Some i"
    and a: "a = (st_owner st ! i, slot_of (st_placements st ! i))" and free: "removable e b A a"
  shows "rep_counts e b (uncommit i st) (A - {a})"
proof -
  note held = held_assignment [OF rep k a]
  from rep have fin: "finite A" and rc: "rep_counts e b st A" by (auto simp: represents_def)
  have own: "st_owner st ! i = fst a" using a by simp
  have at: "st_teachAt (uncommit i st) = st_teachAt b \<union> (\<lambda>a. tkey (tch_of e a) (snd a)) ` {x \<in> A - {a}. tch_of e x \<noteq> ''''}"
    using rc free held(1) by (auto simp: rep_counts_def uncommit_fields held(3) removable_def)
  show ?thesis
    using rc fin held(1,5)
    by (simp add: rep_counts_def at)
      (auto simp: uncommit_fields held(3) own teaching_remove count_of_remove cget_cinc nth_list_update)
qed

lemma uncommit_represents:
  assumes "represents e b st A" "st_secAt st k = Some i"
    "a = (st_owner st ! i, slot_of (st_placements st ! i))" "removable e b A a"
  shows "represents e b (uncommit i st) (A - {a})"
  using assms uncommit_rep_cells [OF assms(1-3)] uncommit_rep_counts [OF assms]
  by (auto simp: represents_def)

lemma represents_cong:
  assumes "st_placements st' = st_placements st" "st_owner st' = st_owner st" "st_secAt st' = st_secAt st"
    "st_teachAt st' = st_teachAt st" "st_teachDay st' = st_teachDay st" "st_teachWk st' = st_teachWk st"
    "st_placed st' = st_placed st" "st_remaining st' = st_remaining st"
  shows "represents e b st' A = represents e b st A"
  by (simp add: represents_def rep_cells_def rep_counts_def assms)

subsection \<open>What a timetable promises\<close>

text \<open>
  \<open>env_ok\<close> is what the caller supplies: identifiers without the separator (they are UUIDs), every
  requirement's teacher empty or known, and overlapping periods a \<open>time_overlap\<close>.
\<close>

definition env_ok :: "Env \<Rightarrow> bool" where
  "env_ok e \<longleftrightarrow> time_overlap (overlapsOf e)
     \<and> (\<forall>u t. en_teachers e u = Some t \<longrightarrow> tc_userId t = u)
     \<and> (\<forall>r\<in>set (reqs e). CHR ''|'' \<notin> set (rq_sectionId r) \<and> CHR ''|'' \<notin> set (rq_teacherId r)
          \<and> (rq_teacherId r \<noteq> '''' \<longrightarrow> en_teachers e (rq_teacherId r) \<noteq> None))"

text \<open>An assignment that is fine on its own.\<close>

definition legal_one :: "Env \<Rightarrow> State \<Rightarrow> assignment \<Rightarrow> bool" where
  "legal_one e b a \<longleftrightarrow> fst a < length (reqs e) \<and> snd a \<in> set (slotsFor e (sec_of e a))
     \<and> (\<forall>t. en_teachers e (tch_of e a) = Some t \<longrightarrow>
          \<not> unavailableAt e t (snd a) \<and> (tch_of e a \<noteq> '''' \<longrightarrow> \<not> teacherBusy e b (tch_of e a) (snd a)))"

text \<open>Two assignments that do not collide: no shared cell, no teacher in two places at once.\<close>

definition apart :: "Env \<Rightarrow> assignment \<Rightarrow> assignment \<Rightarrow> bool" where
  "apart e a a' \<longleftrightarrow> \<not> (sec_of e a = sec_of e a' \<and> snd a = snd a')
     \<and> (tch_of e a = tch_of e a' \<longrightarrow> tch_of e a \<noteq> '''' \<longrightarrow>
        \<not> time_overlap.clash (overlapsOf e) (snd a) (snd a'))"

definition within_caps :: "Env \<Rightarrow> State \<Rightarrow> assignment set \<Rightarrow> bool" where
  "within_caps e b A \<longleftrightarrow> (\<forall>u t. u \<noteq> '''' \<longrightarrow> en_teachers e u = Some t \<longrightarrow>
     count_of A (\<lambda>a. tch_of e a = u) + cget (st_teachWk b) u \<le> max (tc_maxPerWeek t) (cget (st_teachWk b) u)
     \<and> (\<forall>d. count_of A (\<lambda>a. tch_of e a = u \<and> sl_weekday (snd a) = d) + cget (st_teachDay b) (dkey u d)
          \<le> max (tc_maxPerDay t) (cget (st_teachDay b) (dkey u d))))"

definition legal :: "Env \<Rightarrow> State \<Rightarrow> assignment set \<Rightarrow> bool" where
  "legal e b A \<longleftrightarrow> (\<forall>a\<in>A. legal_one e b a) \<and> (\<forall>a\<in>A. \<forall>a'\<in>A. a \<noteq> a' \<longrightarrow> apart e a a') \<and> within_caps e b A"

lemma count_of_mono: "finite A \<Longrightarrow> B \<subseteq> A \<Longrightarrow> count_of B P \<le> count_of A P"
  unfolding count_of_def by (simp add: card_mono subset_iff Collect_mono)

lemma legal_subset:
  assumes "legal e b A" "B \<subseteq> A" "finite A"
  shows "legal e b B"
proof -
  have "within_caps e b B"
    unfolding within_caps_def
  proof (intro allI impI conjI)
    fix u t d assume u: "u \<noteq> ''''" "en_teachers e u = Some t"
    with assms(1) have
      w: "count_of A (\<lambda>a. tch_of e a = u) + cget (st_teachWk b) u \<le> max (tc_maxPerWeek t) (cget (st_teachWk b) u)" and
      d: "count_of A (\<lambda>a. tch_of e a = u \<and> sl_weekday (snd a) = d) + cget (st_teachDay b) (dkey u d)
          \<le> max (tc_maxPerDay t) (cget (st_teachDay b) (dkey u d))" for d
      by (auto simp: legal_def within_caps_def)
    show "count_of B (\<lambda>a. tch_of e a = u) + cget (st_teachWk b) u \<le> max (tc_maxPerWeek t) (cget (st_teachWk b) u)"
      using w count_of_mono [OF assms(3,2)] by (meson add_right_mono order_trans)
    show "count_of B (\<lambda>a. tch_of e a = u \<and> sl_weekday (snd a) = d) + cget (st_teachDay b) (dkey u d)
          \<le> max (tc_maxPerDay t) (cget (st_teachDay b) (dkey u d))"
      using d count_of_mono [OF assms(3,2)] by (meson add_right_mono order_trans)
  qed
  with assms show ?thesis unfolding legal_def by (meson subsetD)
qed

lemma blockers_None:
  assumes "blockers e st ri s slack = None"
  shows "st_secAt st (skey (rq_sectionId (reqs e ! ri)) s) = None"
    "en_teachers e (rq_teacherId (reqs e ! ri)) = Some t \<Longrightarrow>
       \<not> teacherBusy e st (tc_userId t) s \<and> \<not> unavailableAt e t s
       \<and> cget (st_teachWk st) (tc_userId t) < tc_maxPerWeek t
       \<and> cget (st_teachDay st) (dkey (tc_userId t) (sl_weekday s)) < tc_maxPerDay t"
  using assms by (auto simp: blockers_def Let_def not_le split: if_splits option.splits)

lemma count_of_cong: "(\<And>a. a \<in> A \<Longrightarrow> P a = Q a) \<Longrightarrow> count_of A P = count_of A Q"
  unfolding count_of_def by (metis (mono_tags, lifting) Collect_cong)

lemma env_ok_req:
  assumes "env_ok e" "i < length (reqs e)"
  shows "CHR ''|'' \<notin> set (rq_sectionId (reqs e ! i))" "CHR ''|'' \<notin> set (rq_teacherId (reqs e ! i))"
    "rq_teacherId (reqs e ! i) \<noteq> '''' \<Longrightarrow> \<exists>t. en_teachers e (rq_teacherId (reqs e ! i)) = Some t \<and> tc_userId t = rq_teacherId (reqs e ! i)"
  using assms nth_mem [OF assms(2)] by (auto simp: env_ok_def)

lemma apart_sym:
  assumes "env_ok e" "apart e a a'"
  shows "apart e a' a"
proof -
  from assms(1) have "time_overlap (overlapsOf e)" by (simp add: env_ok_def)
  then have "time_overlap.clash (overlapsOf e) (snd a') (snd a) \<Longrightarrow> time_overlap.clash (overlapsOf e) (snd a) (snd a')"
    by (rule time_overlap.clash_sym)
  with assms(2) show ?thesis by (simp add: apart_def) metis
qed

lemma teacherBusy_iff:
  "teacherBusy e st u s \<longleftrightarrow> (\<exists>s'. sl_weekday s' = sl_weekday s
     \<and> sl_periodId s' \<in> set (overlapsOf e (sl_periodId s)) \<and> tkey u s' \<in> st_teachAt st)"
proof
  assume "teacherBusy e st u s"
  then obtain p where "p \<in> set (overlapsOf e (sl_periodId s))"
    "tkey u \<lparr>sl_weekday = sl_weekday s, sl_periodId = p\<rparr> \<in> st_teachAt st"
    by (auto simp: teacherBusy_def list_ex_iff)
  then show "\<exists>s'. sl_weekday s' = sl_weekday s \<and> sl_periodId s' \<in> set (overlapsOf e (sl_periodId s))
      \<and> tkey u s' \<in> st_teachAt st"
    by (intro exI [of _ "\<lparr>sl_weekday = sl_weekday s, sl_periodId = p\<rparr>"]) simp
next
  assume "\<exists>s'. sl_weekday s' = sl_weekday s \<and> sl_periodId s' \<in> set (overlapsOf e (sl_periodId s))
      \<and> tkey u s' \<in> st_teachAt st"
  then obtain s' where s': "sl_weekday s' = sl_weekday s" "sl_periodId s' \<in> set (overlapsOf e (sl_periodId s))"
    "tkey u s' \<in> st_teachAt st" by blast
  then show "teacherBusy e st u s" by (cases s') (auto simp: teacherBusy_def list_ex_iff)
qed

lemma busy_clash:
  assumes ok: "env_ok e" and rep: "represents e b st A" and a': "a' \<in> A" "tch_of e a' = u" "u \<noteq> ''''"
    and free: "\<not> teacherBusy e st u s"
  shows "\<not> time_overlap.clash (overlapsOf e) s (snd a')"
proof
  assume "time_overlap.clash (overlapsOf e) s (snd a')"
  with ok have "sl_weekday s = sl_weekday (snd a')" "sl_periodId (snd a') \<in> set (overlapsOf e (sl_periodId s))"
    by (simp_all add: env_ok_def time_overlap.clash_def)
  moreover have "tkey u (snd a') \<in> st_teachAt st"
    using rep a' by (force simp: represents_def rep_counts_def)
  ultimately show False using free by (auto simp: teacherBusy_iff)
qed

lemma busy_mono: "st_teachAt b \<subseteq> st_teachAt st \<Longrightarrow> teacherBusy e b u s \<Longrightarrow> teacherBusy e st u s"
  by (auto simp: teacherBusy_def list_ex_iff)

lemma caps_insert:
  assumes ok: "env_ok e" and rep: "represents e b st A" and caps: "within_caps e b A"
    and new: "a \<notin> A" and ri: "fst a < length (reqs e)"
    and room: "\<And>t. en_teachers e (tch_of e a) = Some t \<Longrightarrow> cget (st_teachWk st) (tch_of e a) < tc_maxPerWeek t
       \<and> cget (st_teachDay st) (dkey (tch_of e a) (sl_weekday (snd a))) < tc_maxPerDay t"
  shows "within_caps e b (insert a A)"
  unfolding within_caps_def
proof (intro allI impI)
  fix u t assume u: "u \<noteq> ''''" "en_teachers e u = Some t"
  from rep have fin: "finite A" and n: "\<And>x. x \<in> A \<Longrightarrow> fst x < length (reqs e)"
    and wk: "cget (st_teachWk st) u = cget (st_teachWk b) u + teaching e A (\<lambda>a. tch_of e a = u)"
    and day: "\<And>k. cget (st_teachDay st) k = cget (st_teachDay b) k + teaching e A (\<lambda>a. dkey (tch_of e a) (sl_weekday (snd a)) = k)"
    by (auto simp: represents_def rep_counts_def)
  have wk': "teaching e A (\<lambda>a. tch_of e a = u) = count_of A (\<lambda>a. tch_of e a = u)"
    unfolding teaching_def using u by (intro count_of_cong) auto
  have day': "teaching e A (\<lambda>x. dkey (tch_of e x) (sl_weekday (snd x)) = dkey u d)
      = count_of A (\<lambda>x. tch_of e x = u \<and> sl_weekday (snd x) = d)" if "tch_of e a = u" for d
    unfolding teaching_def using u dkey_inj env_ok_req(2) [OF ok n] env_ok_req(2) [OF ok ri] that
    by (intro count_of_cong) blast
  note old = caps [unfolded within_caps_def, rule_format, OF u]
  show "count_of (insert a A) (\<lambda>a. tch_of e a = u) + cget (st_teachWk b) u \<le> max (tc_maxPerWeek t) (cget (st_teachWk b) u)
     \<and> (\<forall>d. count_of (insert a A) (\<lambda>a. tch_of e a = u \<and> sl_weekday (snd a) = d) + cget (st_teachDay b) (dkey u d)
          \<le> max (tc_maxPerDay t) (cget (st_teachDay b) (dkey u d)))"
  proof (cases "tch_of e a = u")
    case True
    with room u wk wk' have "count_of A (\<lambda>a. tch_of e a = u) + cget (st_teachWk b) u < tc_maxPerWeek t" by auto
    moreover have "count_of A (\<lambda>x. tch_of e x = u \<and> sl_weekday (snd x) = sl_weekday (snd a))
        + cget (st_teachDay b) (dkey u (sl_weekday (snd a))) < tc_maxPerDay t"
      using room u day day' True by auto
    ultimately show ?thesis using old True fin new by (auto simp: count_of_insert)
  next
    case False
    with old fin new show ?thesis by (simp add: count_of_insert)
  qed
qed

lemma legal_insert:
  assumes ok: "env_ok e" and rep: "represents e b st A" and leg: "legal e b A"
    and free: "blockers e st ri s slack = None" and ri: "ri < length (reqs e)"
    and s: "s \<in> set (slotsFor e (rq_sectionId (reqs e ! ri)))"
  shows "legal e b (insert (ri, s) A)" "fresh e st (ri, s)"
proof -
  let ?a = "(ri, s)"
  note none = blockers_None [OF free]
  note rq = env_ok_req [OF ok ri]
  have known: "\<exists>t. en_teachers e (tch_of e ?a) = Some t \<and> tc_userId t = tch_of e ?a" if "tch_of e ?a \<noteq> ''''"
    using rq(3) that by simp
  have idt: "tc_userId t = u" if "en_teachers e u = Some t" for u t
    using ok that by (simp add: env_ok_def)
  have "tkey (tch_of e ?a) s \<notin> st_teachAt st" if "tch_of e ?a \<noteq> ''''"
  proof -
    from known [OF that] none(2) have "\<not> teacherBusy e st (tch_of e ?a) s" by auto
    moreover have "sl_periodId s \<in> set (overlapsOf e (sl_periodId s))"
      using ok by (simp add: env_ok_def time_overlap.ov_refl)
    ultimately show ?thesis by (auto simp: teacherBusy_iff)
  qed
  with none(1) show fr: "fresh e st ?a" by (simp add: fresh_def)
  note new = fresh_notin [OF rep fr]
  have at: "st_teachAt b \<subseteq> st_teachAt st" using rep by (auto simp: represents_def rep_counts_def)
  have one: "legal_one e b ?a"
    using ri s none(2) idt busy_mono [OF at] by (auto simp: legal_one_def)
  have "apart e ?a a'" if a': "a' \<in> A" for a'
  proof -
    have "skey (sec_of e a') (snd a') \<noteq> skey (sec_of e ?a) s"
      using rep a' none(1) by (fastforce simp: represents_def rep_cells_def)
    moreover have "\<not> time_overlap.clash (overlapsOf e) s (snd a')" if "tch_of e ?a = tch_of e a'" "tch_of e ?a \<noteq> ''''"
    proof -
      from known [OF that(2)] none(2) have "\<not> teacherBusy e st (tch_of e ?a) s" by auto
      with busy_clash [OF ok rep a'] that show ?thesis by metis
    qed
    ultimately show ?thesis by (auto simp: apart_def)
  qed
  then have "\<forall>a'\<in>A. apart e ?a a' \<and> apart e a' ?a" using apart_sym [OF ok] by blast
  moreover have "within_caps e b (insert ?a A)"
    using caps_insert [OF ok rep _ new] leg ri none(2) idt by (fastforce simp: legal_def)
  ultimately show "legal e b (insert ?a A)" using leg one by (auto simp: legal_def)
qed

subsection \<open>The placement loops\<close>

text \<open>The invariant of the whole run, for the assignments a state represents.\<close>

definition good :: "Env \<Rightarrow> State \<Rightarrow> State \<Rightarrow> assignment set \<Rightarrow> bool" where
  "good e b st A \<longleftrightarrow> represents e b st A \<and> legal e b A"

definition same_but_report :: "State \<Rightarrow> State \<Rightarrow> bool" where
  "same_but_report st st' \<longleftrightarrow> (\<exists>bl. st' = st\<lparr>st_blocked := bl\<rparr>)"

lemma blockers_blocked [simp]: "blockers e (st\<lparr>st_blocked := bl\<rparr>) ri s slack = blockers e st ri s slack"
  by (simp add: blockers_def teacherBusy_def cong: option.case_cong if_cong)

lemma scan_spec:
  assumes "scan e ri slack ss st best = (st', best')"
  shows "same_but_report st st'"
    and "best' = Some (s, sc) \<Longrightarrow> best = Some (s, sc) \<or> (s \<in> set ss \<and> blockers e st ri s slack = None)"
proof -
  have "same_but_report st st' \<and> (\<forall>s sc. best' = Some (s, sc) \<longrightarrow>
      best = Some (s, sc) \<or> (s \<in> set ss \<and> blockers e st ri s slack = None))"
    using assms
  proof (induction e ri slack ss st best rule: scan.induct)
    case (1 e ri slack st best)
    then show ?case by (auto simp: same_but_report_def intro: exI [of _ "st_blocked st"])
  next
    case (2 e ri slack s ss st best)
    show ?case
    proof (cases "blockers e st ri s slack")
      case None
      with "2.prems" "2.IH"(1) show ?thesis
        by (fastforce simp: Let_def split: option.splits if_splits prod.splits)
    next
      case (Some b)
      show ?thesis
      proof (cases "slack = 0")
        case True
        with "2.prems" "2.IH"(2) Some show ?thesis by (fastforce simp: same_but_report_def)
      next
        case False
        with "2.prems" "2.IH"(2) Some show ?thesis by fastforce
      qed
    qed
  qed
  then show "same_but_report st st'"
    and "best' = Some (s, sc) \<Longrightarrow> best = Some (s, sc) \<or> (s \<in> set ss \<and> blockers e st ri s slack = None)"
    by auto
qed

lemma same_but_report_represents: "same_but_report st st' \<Longrightarrow> represents e b st' A = represents e b st A"
  unfolding same_but_report_def by (elim exE) (simp add: represents_def rep_cells_def rep_counts_def)

lemma same_but_report_fields:
  assumes "same_but_report st st'"
  shows "st_moves st' = st_moves st" "st_secAt st' = st_secAt st" "st_owner st' = st_owner st"
    "st_placements st' = st_placements st" "st_stacked st' = st_stacked st"
  using assms by (auto simp: same_but_report_def)

text \<open>
  \<open>tryPlace\<close> either leaves the assignments alone or adds one for its requirement.
\<close>
lemma tryPlace_good:
  assumes ok: "env_ok e" and good: "good e b st A" and ri: "ri < length (reqs e)"
    and run: "tryPlace e ri slack st = (st', placed)"
  shows "st_moves st' = st_moves st"
    and "\<not> placed \<Longrightarrow> same_but_report st st'"
    and "placed \<Longrightarrow> \<exists>s. (ri, s) \<notin> A \<and> good e b st' (insert (ri, s) A)
           \<and> st_secAt st' (skey (rq_sectionId (reqs e ! ri)) s) = Some (length (st_placements st))
           \<and> length (st_placements st') = Suc (length (st_placements st))
           \<and> st_owner st' ! length (st_placements st) = ri
           \<and> slot_of (st_placements st' ! length (st_placements st)) = s"
proof -
  obtain st1 best where scan: "scan e ri slack (slotsFor e (rq_sectionId (reqs e ! ri))) st None = (st1, best)"
    by fastforce
  note spec = scan_spec [OF scan]
  note same = spec(1)
  show "st_moves st' = st_moves st"
    using run scan same_but_report_fields(1) [OF same]
    by (auto simp: tryPlace_def commit_fields split: option.splits)
  show "\<not> placed \<Longrightarrow> same_but_report st st'"
    using run scan same by (auto simp: tryPlace_def split: option.splits)
  show "\<exists>s. (ri, s) \<notin> A \<and> good e b st' (insert (ri, s) A)
           \<and> st_secAt st' (skey (rq_sectionId (reqs e ! ri)) s) = Some (length (st_placements st))
           \<and> length (st_placements st') = Suc (length (st_placements st))
           \<and> st_owner st' ! length (st_placements st) = ri
           \<and> slot_of (st_placements st' ! length (st_placements st)) = s" if placed
  proof -
    from that run scan obtain s sc where best: "best = Some (s, sc)" and st': "st' = commit e ri s st1"
      by (auto simp: tryPlace_def split: option.splits)
    from spec(2) [OF best] have s: "s \<in> set (slotsFor e (rq_sectionId (reqs e ! ri)))"
      and free: "blockers e st ri s slack = None" by auto
    from same have free1: "blockers e st1 ri s slack = None"
      using free by (auto simp: same_but_report_def)
    from good same have rep: "represents e b st1 A" and leg: "legal e b A"
      by (simp_all add: good_def same_but_report_represents)
    note ins = legal_insert [OF ok rep leg free1 ri s]
    have "good e b st' (insert (ri, s) A)"
      using commit_represents [OF rep ins(2) ri] ins(1) st' by (simp add: good_def)
    moreover have "length (st_owner st1) = length (st_placements st1)"
      using rep by (simp add: represents_def rep_cells_def)
    ultimately show ?thesis
      using fresh_notin [OF rep ins(2)] same_but_report_fields [OF same]
      by (auto simp: st' commit_fields nth_append intro!: exI [of _ s])
  qed
qed

lemma legal_removable:
  assumes ok: "env_ok e" and leg: "legal e b A" and a: "a \<in> A"
  shows "removable e b A a"
  unfolding removable_def
proof (intro impI conjI ballI)
  assume t: "tch_of e a \<noteq> ''''"
  from leg a have one: "legal_one e b a" by (simp add: legal_def)
  then have ri: "fst a < length (reqs e)" by (simp add: legal_one_def)
  from env_ok_req(3) [OF ok ri] t obtain tc where tc: "en_teachers e (tch_of e a) = Some tc" by auto
  with one t have "\<not> teacherBusy e b (tch_of e a) (snd a)" by (simp add: legal_one_def)
  moreover have "sl_periodId (snd a) \<in> set (overlapsOf e (sl_periodId (snd a)))"
    using ok by (simp add: env_ok_def time_overlap.ov_refl)
  ultimately show "tkey (tch_of e a) (snd a) \<notin> st_teachAt b" by (auto simp: teacherBusy_iff)
  fix x assume x: "x \<in> A" "x \<noteq> a" "tch_of e x \<noteq> ''''"
  from leg x(1) have rx: "fst x < length (reqs e)" by (simp add: legal_def legal_one_def)
  show "tkey (tch_of e x) (snd x) \<noteq> tkey (tch_of e a) (snd a)"
  proof
    assume "tkey (tch_of e x) (snd x) = tkey (tch_of e a) (snd a)"
    with tkey_inj env_ok_req(2) [OF ok ri] env_ok_req(2) [OF ok rx]
    have eq: "tch_of e x = tch_of e a" "snd x = snd a" by metis+
    from leg x a have "apart e x a" by (simp add: legal_def)
    with eq x(3) ok show False by (simp add: apart_def env_ok_def time_overlap.clash_refl)
  qed
qed

text \<open>
  Taking the holder of a cell out and putting it back is the identity on assignments.
\<close>
lemma recommit_good:
  assumes ok: "env_ok e" and leg: "legal e b A" and a: "a \<in> A" and rep: "represents e b st (A - {a})"
  shows "good e b (commit e (fst a) (snd a) st) A"
proof -
  from leg a have ri: "fst a < length (reqs e)" by (simp add: legal_def legal_one_def)
  have "st_secAt st (skey (sec_of e a) (snd a)) = None"
  proof (rule ccontr)
    assume "st_secAt st (skey (sec_of e a) (snd a)) \<noteq> None"
    then obtain i where i: "st_secAt st (skey (sec_of e a) (snd a)) = Some i" by auto
    let ?x = "(st_owner st ! i, slot_of (st_placements st ! i))"
    note held = held_assignment [OF rep i refl]
    from skey_inj [OF held(4)] env_ok_req(1) [OF ok ri] env_ok_req(1) [OF ok held(5)]
    have "sec_of e a = sec_of e ?x" "snd a = snd ?x" by auto
    moreover from held(1) leg a have "apart e a ?x" by (auto simp: legal_def)
    ultimately show False by (simp add: apart_def)
  qed
  moreover have "tkey (tch_of e a) (snd a) \<notin> st_teachAt st" if "tch_of e a \<noteq> ''''"
    using legal_removable [OF ok leg a] rep that
    by (auto simp: removable_def represents_def rep_counts_def)
  ultimately have "fresh e st (fst a, snd a)" by (simp add: fresh_def)
  from commit_represents [OF rep this ri] a leg show ?thesis
    by (simp add: good_def insert_absorb)
qed

lemma take_out:
  assumes ok: "env_ok e" and good: "good e b st A" and ri: "ri < length (reqs e)"
    and holder: "st_secAt st (skey (rq_sectionId (reqs e ! ri)) s) = Some i"
    and a: "a = (st_owner st ! i, slot_of (st_placements st ! i))"
  shows "a \<in> A" "snd a = s" "good e b (uncommit i st) (A - {a})"
proof -
  from good have rep: "represents e b st A" and leg: "legal e b A" by (simp_all add: good_def)
  note held = held_assignment [OF rep holder a]
  from held(1) show "a \<in> A" .
  from skey_inj [OF held(4)] env_ok_req(1) [OF ok ri] env_ok_req(1) [OF ok held(5)]
  show "snd a = s" by auto
  from rep have "finite A" by (simp add: represents_def)
  then have "legal e b (A - {a})" using legal_subset [OF leg] by blast
  with uncommit_represents [OF rep holder a legal_removable [OF ok leg held(1)]]
  show "good e b (uncommit i st) (A - {a})" by (simp add: good_def)
qed

lemma good_moves: "good e b (st\<lparr>st_moves := m\<rparr>) A = good e b st A"
  by (simp add: good_def represents_def rep_cells_def rep_counts_def)

lemma good_stacked: "good e b (st\<lparr>st_stacked := m\<rparr>) A = good e b st A"
  by (simp add: good_def represents_def rep_cells_def rep_counts_def)

lemma same_but_report_good: "same_but_report st st' \<Longrightarrow> good e b st' A = good e b st A"
  by (simp add: good_def same_but_report_represents)

text \<open>\<open>A'\<close> has one more period for requirement \<open>ri\<close> and as many as \<open>A\<close> for every other.\<close>

definition one_more :: "nat \<Rightarrow> assignment set \<Rightarrow> assignment set \<Rightarrow> bool" where
  "one_more ri A A' \<longleftrightarrow> (\<forall>r. count_of A' (\<lambda>a. fst a = r) = count_of A (\<lambda>a. fst a = r) + (if r = ri then 1 else 0))"

lemma one_more_insert: "finite A \<Longrightarrow> (ri, s) \<notin> A \<Longrightarrow> one_more ri A (insert (ri, s) A)"
  by (auto simp: one_more_def count_of_insert)

lemma one_more_exchange:
  assumes "finite A" "a \<in> A" "(ri, s) \<notin> A - {a}" "(fst a, s') \<notin> insert (ri, s) (A - {a})"
  shows "one_more ri A (insert (fst a, s') (insert (ri, s) (A - {a})))"
  using assms by (auto simp: one_more_def count_of_insert count_of_remove)

lemma good_finite: "good e b st A \<Longrightarrow> finite A"
  by (simp add: good_def represents_def)

lemma repair_step_good:
  assumes ok: "env_ok e" and good: "good e b st A" and ri: "ri < length (reqs e)"
    and holder: "st_secAt st (skey (rq_sectionId (reqs e ! ri)) s) = Some i"
    and st1: "st1 = uncommit i (st\<lparr>st_moves := st_moves st + 1\<rparr>)"
    and place1: "tryPlace e ri slack st1 = (st2, placed)"
  shows "\<not> placed \<Longrightarrow> good e b (commit e (st_owner st ! i) s st2) A \<and> st_moves st2 = st_moves st + 1"
    and "placed \<Longrightarrow> tryPlace e (st_owner st ! i) slack st2 = (st3, placed2) \<Longrightarrow>
      (if placed2 then (\<exists>A'. good e b st3 A' \<and> one_more ri A A') \<and> st_moves st3 = st_moves st + 1
       else good e b (commit e (st_owner st ! i) s (uncommit (length (st_placements st3) - 1) st3)) A
            \<and> st_moves st3 = st_moves st + 1)"
proof -
  let ?a = "(st_owner st ! i, slot_of (st_placements st ! i))"
  from good have "good e b (st\<lparr>st_moves := st_moves st + 1\<rparr>) A" by (simp add: good_moves)
  from take_out [OF ok this ri, of s i ?a] holder
  have a: "?a \<in> A" "snd ?a = s" and g1: "good e b st1 (A - {?a})" by (simp_all add: st1)
  have m1: "st_moves st1 = st_moves st + 1" by (simp add: st1 uncommit_fields)
  from good have leg: "legal e b A" by (simp add: good_def)
  then have hri: "fst ?a < length (reqs e)" using a(1) by (auto simp: legal_def legal_one_def)
  note tr1 = tryPlace_good [OF ok g1 ri place1]
  have again: "good e b (commit e (st_owner st ! i) s st') A" if "good e b st' (A - {?a})" for st'
    using recommit_good [OF ok leg a(1), of st'] that a(2) by (simp add: good_def)
  show "good e b (commit e (st_owner st ! i) s st2) A \<and> st_moves st2 = st_moves st + 1" if "\<not> placed"
    using again tr1(1) m1 same_but_report_good [OF tr1(2) [OF that]] g1 by simp
  assume placed: placed and place2: "tryPlace e (st_owner st ! i) slack st2 = (st3, placed2)"
  from tr1(3) [OF placed] obtain s2 where s2: "(ri, s2) \<notin> A - {?a}" "good e b st2 (insert (ri, s2) (A - {?a}))"
    "st_secAt st2 (skey (rq_sectionId (reqs e ! ri)) s2) = Some (length (st_placements st1))"
    "length (st_placements st2) = Suc (length (st_placements st1))"
    "st_owner st2 ! length (st_placements st1) = ri" "slot_of (st_placements st2 ! length (st_placements st1)) = s2"
    by blast
  note tr2 = tryPlace_good [OF ok s2(2) hri [unfolded fst_conv] place2]
  show "if placed2 then (\<exists>A'. good e b st3 A' \<and> one_more ri A A') \<and> st_moves st3 = st_moves st + 1
       else good e b (commit e (st_owner st ! i) s (uncommit (length (st_placements st3) - 1) st3)) A
            \<and> st_moves st3 = st_moves st + 1"
  proof (cases placed2)
    case True
    from tr2(3) [OF True] obtain s3 where
      "(st_owner st ! i, s3) \<notin> insert (ri, s2) (A - {?a})"
      "good e b st3 (insert (st_owner st ! i, s3) (insert (ri, s2) (A - {?a})))" by blast
    with one_more_exchange [OF good_finite [OF good] a(1) s2(1), of s3] True tr2(1) tr1(1) m1
    show ?thesis by auto
  next
    case False
    note same = tr2(2) [OF False]
    note f = same_but_report_fields [OF same]
    from s2(2) have g3: "good e b st3 (insert (ri, s2) (A - {?a}))" by (simp add: same_but_report_good [OF same])
    from take_out(3) [OF ok g3 ri, of s2 "length (st_placements st1)" "(ri, s2)"]
    have "good e b (uncommit (length (st_placements st3) - 1) st3) (insert (ri, s2) (A - {?a}) - {(ri, s2)})"
      using s2(3-6) f by simp
    with s2(1) have "good e b (uncommit (length (st_placements st3) - 1) st3) (A - {?a})" by simp
    with again tr2(1) tr1(1) m1 False show ?thesis by simp
  qed
qed

lemma repair_loop_good:
  assumes ok: "env_ok e" and ri: "ri < length (reqs e)"
  shows "good e b st A \<Longrightarrow> repair_loop e ri ss st = (st', fin) \<Longrightarrow> st_moves st < en_budget e \<Longrightarrow>
    (if fin then \<exists>A'. good e b st' A' \<and> one_more ri A A' else good e b st' A)
    \<and> st_moves st \<le> st_moves st' \<and> st_moves st' \<le> en_budget e"
proof (induction ss arbitrary: st A)
  case Nil
  then show ?case by auto
next
  case (Cons s ss)
  let ?sec = "rq_sectionId (reqs e ! ri)"
  show ?case
  proof (cases "st_secAt st (skey ?sec s) = None \<or> repair_blocked e st ri s")
    case True
    with Cons show ?thesis by (auto split: option.splits)
  next
    case False
    then obtain i where i: "st_secAt st (skey ?sec s) = Some i" and nb: "\<not> repair_blocked e st ri s" by auto
    define slack where "slack = int (length (gr_periods (in_grid (en_input e))))"
    define st1 where "st1 = uncommit i (st\<lparr>st_moves := st_moves st + 1\<rparr>)"
    obtain st2 p2 where t1: "tryPlace e ri slack st1 = (st2, p2)" by fastforce
    obtain st3 p3 where t2: "tryPlace e (st_owner st ! i) slack st2 = (st3, p3)" by fastforce
    note step = repair_step_good [OF ok Cons.prems(1) ri i st1_def t1]
    have run: "repair_loop e ri (s # ss) st =
      (if \<not> p2 then let x = commit e (st_owner st ! i) s st2 in
         if st_moves x \<ge> en_budget e then (x, False) else repair_loop e ri ss x
       else if p3 then (st3, True)
       else let x = commit e (st_owner st ! i) s (uncommit (length (st_placements st3) - 1) st3) in
         if st_moves x \<ge> en_budget e then (x, False) else repair_loop e ri ss x)"
      using i nb t1 t2 by (simp add: st1_def slack_def Let_def split: bool.splits)
    have next_: ?thesis
      if "good e b x A" "st_moves x = st_moves st + 1"
        "(if st_moves x \<ge> en_budget e then (x, False) else repair_loop e ri ss x) = (st', fin)" for x
      using that Cons.IH [OF that(1)] Cons.prems(3) by (auto split: if_splits)
    consider (fail) "\<not> p2" | (both) "p2" "p3" | (second) "p2" "\<not> p3" by blast
    then show ?thesis
    proof cases
      case fail
      with step(1) Cons.prems(2) run show ?thesis by (intro next_) (auto simp: Let_def commit_fields)
    next
      case both
      with step(2) [OF both(1) t2] run Cons.prems(2,3) show ?thesis by auto
    next
      case second
      with step(2) [OF second(1) t2] run Cons.prems(2) show ?thesis
        by (intro next_) (auto simp: Let_def commit_fields uncommit_fields)
    qed
  qed
qed

text \<open>Each step of the search: one more period for its requirement, or the same assignments.\<close>

definition step_ok :: "Env \<Rightarrow> State \<Rightarrow> nat \<Rightarrow> assignment set \<Rightarrow> State \<times> bool \<Rightarrow> bool" where
  "step_ok e b ri A r \<longleftrightarrow>
     (if snd r then \<exists>A'. good e b (fst r) A' \<and> one_more ri A A' else good e b (fst r) A)
   \<and> st_moves (fst r) \<le> en_budget e"

lemma repair_ok:
  assumes "env_ok e" "ri < length (reqs e)" "good e b st A" "st_moves st \<le> en_budget e"
  shows "step_ok e b ri A (repair e ri st)"
proof (cases "st_moves st \<ge> en_budget e")
  case True
  with assms show ?thesis by (simp add: repair_def step_ok_def)
next
  case False
  obtain st' fin where run: "repair_loop e ri (slotsFor e (rq_sectionId (reqs e ! ri))) st = (st', fin)" by fastforce
  from repair_loop_good [OF assms(1,2,3) this] False show ?thesis
    by (simp add: repair_def run step_ok_def)
qed

lemma tryPlace_ok:
  assumes "env_ok e" "ri < length (reqs e)" "good e b st A" "st_moves st \<le> en_budget e"
  shows "step_ok e b ri A (tryPlace e ri slack st)"
proof -
  obtain st' placed where run: "tryPlace e ri slack st = (st', placed)" by fastforce
  note tp = tryPlace_good [OF assms(1,3,2) run]
  show ?thesis
  proof (cases placed)
    case True
    from tp(3) [OF True] tp(1) assms(4) one_more_insert [OF good_finite [OF assms(3)]] True show ?thesis
      by (auto simp: run step_ok_def)
  next
    case False
    with same_but_report_good [OF tp(2)] tp(1) assms(3,4) show ?thesis by (simp add: run step_ok_def)
  qed
qed

lemma place_slacks_ok:
  assumes "env_ok e" "ri < length (reqs e)"
  shows "good e b st A \<Longrightarrow> st_moves st \<le> en_budget e \<Longrightarrow> step_ok e b ri A (place_slacks e ri sl st)"
proof (induction sl arbitrary: st)
  case Nil
  then show ?case by (simp add: repair_ok assms)
next
  case (Cons slack sl)
  obtain st' placed where run: "tryPlace e ri slack st = (st', placed)" by fastforce
  from tryPlace_ok [OF assms Cons.prems, of slack] have ok: "step_ok e b ri A (st', placed)" by (simp add: run)
  show ?case
  proof (cases placed)
    case True
    with ok show ?thesis by (simp add: run step_ok_def good_stacked)
  next
    case False
    with ok Cons.IH [of st'] show ?thesis by (simp add: run step_ok_def)
  qed
qed

lemma placeOne_ok:
  assumes "env_ok e" "ri < length (reqs e)" "good e b st A" "st_moves st \<le> en_budget e"
  shows "step_ok e b ri A (placeOne e ri st)"
  unfolding placeOne_def by (rule place_slacks_ok [OF assms])

text \<open>The state between two placements: nothing overplaced.\<close>

definition round_inv :: "Env \<Rightarrow> State \<Rightarrow> State \<Rightarrow> bool" where
  "round_inv e b st \<longleftrightarrow> (\<exists>A. good e b st A \<and> (\<forall>ri<length (reqs e).
      count_of A (\<lambda>a. fst a = ri) \<le> max 0 (rq_periodsPerWeek (reqs e ! ri)))) \<and> st_moves st \<le> en_budget e"

lemma placeOne_inv:
  assumes ok: "env_ok e" and ri: "ri < length (reqs e)" and inv: "round_inv e b st" and more: "st_remaining st ! ri > 0"
  shows "round_inv e b (fst (placeOne e ri st))"
proof -
  from inv obtain A where A: "good e b st A" "st_moves st \<le> en_budget e"
    and cap: "\<And>ri. ri < length (reqs e) \<Longrightarrow> count_of A (\<lambda>a. fst a = ri) \<le> max 0 (rq_periodsPerWeek (reqs e ! ri))"
    by (auto simp: round_inv_def)
  note step = placeOne_ok [OF ok ri A]
  from A(1) ri more have room: "count_of A (\<lambda>a. fst a = ri) < rq_periodsPerWeek (reqs e ! ri)"
    by (simp add: good_def represents_def rep_counts_def)
  show ?thesis
  proof (cases "snd (placeOne e ri st)")
    case True
    with step obtain A' where A': "good e b (fst (placeOne e ri st)) A'" "one_more ri A A'"
      "st_moves (fst (placeOne e ri st)) \<le> en_budget e" by (auto simp: step_ok_def)
    from A'(2) cap room have "\<forall>r<length (reqs e). count_of A' (\<lambda>a. fst a = r) \<le> max 0 (rq_periodsPerWeek (reqs e ! r))"
      by (auto simp: one_more_def)
    with A' show ?thesis by (auto simp: round_inv_def)
  next
    case False
    with step cap show ?thesis by (auto simp: step_ok_def round_inv_def)
  qed
qed

lemma place_round_inv:
  assumes ok: "env_ok e" and order: "\<forall>ri\<in>set order. ri < length (reqs e)"
  shows "round_inv e b st \<Longrightarrow> round_inv e b (place_round e order st)"
  using order
proof (induction order arbitrary: st)
  case Nil
  then show ?case by (simp add: place_round_def)
next
  case (Cons ri order)
  let ?st = "if st_remaining st ! ri \<le> 0 then st else fst (placeOne e ri st)"
  have "round_inv e b ?st"
    using Cons.prems placeOne_inv [OF ok, of ri b st] by auto
  with Cons.IH [of ?st] Cons.prems(2) show ?case by (simp add: place_round_def)
qed

lemma requirementOrder_set: "set (requirementOrder e st) = {..<length (reqs e)}"
proof -
  have "fst ` set (enumerate 0 (reqs e)) = set (map fst (enumerate 0 (reqs e)))" by (simp only: set_map)
  also have "\<dots> = {..<length (reqs e)}" unfolding map_fst_enumerate by auto
  finally show ?thesis by (simp add: requirementOrder_def)
qed

lemma rounds_inv:
  assumes "env_ok e" "round_inv e b st"
  shows "round_inv e b (fold (\<lambda>_. place_round e (requirementOrder e st0)) ks st)"
  using assms(2)
  by (induction ks arbitrary: st) (simp_all add: place_round_inv [OF assms(1)] requirementOrder_set)

subsection \<open>The state the constructor leaves\<close>

text \<open>
  What the optimiser route supplies: section and teacher identifiers are UUIDs (not empty, no
  separator), every teacher of a requirement is loaded, and overlapping is what the bell
  schedules compute.
\<close>

definition input_overlaps :: "Input \<Rightarrow> string \<Rightarrow> string list" where
  "input_overlaps inp p = (case in_overlaps inp p of Some ps \<Rightarrow> ps | None \<Rightarrow> [p])"

definition wf_input :: "Input \<Rightarrow> bool" where
  "wf_input inp \<longleftrightarrow> time_overlap (input_overlaps inp)
     \<and> (\<forall>t\<in>set (in_teachers inp). CHR ''|'' \<notin> set (tc_userId t))
     \<and> (\<forall>r\<in>set (in_requirements inp). rq_sectionId r \<noteq> '''' \<and> CHR ''|'' \<notin> set (rq_sectionId r)
          \<and> (rq_teacherId r \<noteq> '''' \<longrightarrow> rq_teacherId r \<in> tc_userId ` set (in_teachers inp)))"

lemma fold_commit_slot:
  "st_teachAt (fold (commit_slot u) ss st) = st_teachAt st \<union> tkey u ` set ss"
  "cget (st_teachDay (fold (commit_slot u) ss st)) k =
     cget (st_teachDay st) k + int (length (filter (\<lambda>s. dkey u (sl_weekday s) = k) ss))"
  "cget (st_teachWk (fold (commit_slot u) ss st)) v =
     cget (st_teachWk st) v + (if u = v then int (length ss) else 0)"
  by (induction ss arbitrary: st) (auto simp: commit_slot_def cget_cinc)

text \<open>Loading teachers touches the three teacher indexes only.\<close>

definition unteach :: "State \<Rightarrow> State" where
  "unteach st = st\<lparr>st_teachAt := {}, st_teachDay := Map.empty, st_teachWk := Map.empty\<rparr>"

lemma fold_commit_slot_rest: "unteach (fold (commit_slot u) ss st) = unteach st"
proof (induction ss arbitrary: st)
  case (Cons s ss)
  have "unteach (commit_slot u s st) = unteach st" by (simp add: unteach_def commit_slot_def)
  with Cons [of "commit_slot u s st"] show ?case by simp
qed simp

definition committed_at :: "Teacher list \<Rightarrow> string \<Rightarrow> Slot list" where
  "committed_at ts u = concat (map tc_committed (filter (\<lambda>t. tc_userId t = u) ts))"

lemma load_teachers_spec:
  assumes "load_teachers inp slots ts (m, st) = (m', st')"
  shows "m' = m ++ map_of (rev (map (\<lambda>t. (tc_userId t, teacher_st inp slots t)) ts))"
    and "st_teachAt st' = st_teachAt st \<union> (\<Union>t\<in>set ts. tkey (tc_userId t) ` set (tc_committed t))"
    and "cget (st_teachDay st') k = cget (st_teachDay st) k
      + (\<Sum>t\<leftarrow>ts. int (length (filter (\<lambda>s. dkey (tc_userId t) (sl_weekday s) = k) (tc_committed t))))"
    and "cget (st_teachWk st') u = cget (st_teachWk st) u + int (length (committed_at ts u))"
  using assms
  by (induction ts arbitrary: m st)
    (auto simp: fold_commit_slot committed_at_def simp del: fold_simps split: if_splits)

lemma load_teachers_rest:
  "load_teachers inp slots ts (m, st) = (m', st') \<Longrightarrow> unteach st' = unteach st"
  by (induction ts arbitrary: m st) (simp, metis load_teachers.simps(2) fold_commit_slot_rest)

lemma new_State_fields:
  assumes "new_State inp = (e, st)"
  shows "en_input e = inp" "en_budget e = start_budget inp" "overlapsOf e = input_overlaps inp"
    "en_teachers e = map_of (rev (map (\<lambda>t. (tc_userId t, teacher_st inp (en_slots e) t)) (in_teachers inp)))"
    "st_teachAt st = (\<Union>t\<in>set (in_teachers inp). tkey (tc_userId t) ` set (tc_committed t))"
    "cget (st_teachWk st) u = int (length (committed_at (in_teachers inp) u))"
    "cget (st_teachDay st) k = (\<Sum>t\<leftarrow>in_teachers inp. int (length (filter (\<lambda>s. dkey (tc_userId t) (sl_weekday s) = k) (tc_committed t))))"
    "unteach st = unteach (blank_state inp)"
proof -
  let ?sorted = "sort_key pd_sequence (gr_periods (in_grid inp))"
  let ?slots = "gridSlots (in_grid inp) ?sorted"
  obtain ts st' where load: "load_teachers inp ?slots (in_teachers inp) (Map.empty, blank_state inp) = (ts, st')" by fastforce
  have e: "en_teachers e = ts" "en_slots e = ?slots" "st = st'"
    and "en_input e = inp" "en_budget e = start_budget inp"
    using assms by (auto simp: new_State_def load Let_def)
  then show "en_input e = inp" "en_budget e = start_budget inp" by auto
  then show "overlapsOf e = input_overlaps inp" by (simp add: overlapsOf_def input_overlaps_def fun_eq_iff)
  note spec = load_teachers_spec [OF load]
  show "en_teachers e = map_of (rev (map (\<lambda>t. (tc_userId t, teacher_st inp (en_slots e) t)) (in_teachers inp)))"
    using spec(1) by (simp add: e)
  show "st_teachAt st = (\<Union>t\<in>set (in_teachers inp). tkey (tc_userId t) ` set (tc_committed t))"
    using spec(2) by (simp add: e blank_state_def)
  show "cget (st_teachWk st) u = int (length (committed_at (in_teachers inp) u))"
    using spec(4) by (simp add: e blank_state_def cget_def)
  show "cget (st_teachDay st) k = (\<Sum>t\<leftarrow>in_teachers inp. int (length (filter (\<lambda>s. dkey (tc_userId t) (sl_weekday s) = k) (tc_committed t))))"
    using spec(3) by (simp add: e blank_state_def cget_def)
  show "unteach st = unteach (blank_state inp)" using load_teachers_rest [OF load] e by simp
qed

lemma en_teachers_known:
  assumes "new_State inp = (e, st)"
  shows "en_teachers e u = None \<longleftrightarrow> u \<notin> tc_userId ` set (in_teachers inp)"
    and "en_teachers e u = Some t \<Longrightarrow> \<exists>src\<in>set (in_teachers inp). tc_userId src = u \<and> t = teacher_st inp (en_slots e) src"
  unfolding new_State_fields(4) [OF assms]
  by (auto simp: map_of_eq_None_iff image_image dest!: map_of_SomeD)

lemma start_budget_nonneg: "0 \<le> start_budget inp"
  by (simp add: start_budget_def Let_def)

lemma new_State_good:
  assumes wf: "wf_input inp" and new: "new_State inp = (e, st)"
  shows "env_ok e" "good e st st {}" "round_inv e st st"
proof -
  note f = new_State_fields [OF new]
  have idt: "tc_userId t = u" if "en_teachers e u = Some t" for u t
    using en_teachers_known(2) [OF new that] by (auto simp: teacher_st_def)
  show "env_ok e"
    using wf en_teachers_known(1) [OF new] idt
    by (auto simp: env_ok_def wf_input_def f(1,3))
  have rest: "st_placements st = []" "st_owner st = []" "st_secAt st = Map.empty" "st_moves st = 0"
    "st_remaining st = map rq_periodsPerWeek (reqs e)" "st_placed st = map (\<lambda>_. 0) (reqs e)"
    using f(8) by (cases st; simp add: unteach_def blank_state_def f(1))+
  show good: "good e st st {}"
    by (auto simp: good_def represents_def rep_cells_def rep_counts_def rest teaching_def count_of_def
        legal_def within_caps_def)
  then show "round_inv e st st"
    by (auto simp: round_inv_def rest f(2) start_budget_nonneg count_of_def intro!: exI [of _ "{}"])
qed

lemma solve_inv:
  assumes wf: "wf_input inp" and run: "solve inp = (e, st)"
  obtains b where "new_State inp = (e, b)" "env_ok e" "round_inv e b st"
proof -
  obtain e' b where new: "new_State inp = (e', b)" by fastforce
  with run have e: "e' = e" and st: "st = fold (\<lambda>_. place_round e (requirementOrder e b)) [0..<nat (maxRounds inp)] b"
    by (auto simp: solve_def Let_def)
  note base = new_State_good [OF wf new [unfolded e]]
  from rounds_inv [OF base(1,3)] st have "round_inv e b st" by simp
  with that new e base(1) show thesis by simp
qed

subsection \<open>The placements of the result and the assignments\<close>

abbreviation live :: "Placement \<Rightarrow> bool" where
  "live p \<equiv> pl_sectionId p \<noteq> ''''"

lemma live_bij:
  assumes rep: "represents e b st A" and sec: "\<And>a. a \<in> A \<Longrightarrow> sec_of e a \<noteq> ''''"
  shows "bij_betw (\<lambda>i. (st_owner st ! i, slot_of (st_placements st ! i)))
    {i. i < length (st_placements st) \<and> live (st_placements st ! i)} A"
    and "i < length (st_placements st) \<Longrightarrow> live (st_placements st ! i) \<Longrightarrow>
      st_placements st ! i = placement_of e (st_owner st ! i, slot_of (st_placements st ! i))"
proof -
  let ?f = "\<lambda>i. (st_owner st ! i, slot_of (st_placements st ! i))"
  let ?I = "{i. i < length (st_placements st) \<and> live (st_placements st ! i)}"
  have at: "st_secAt st (skey (sec_of e (?f i)) (snd (?f i))) = Some i \<and> ?f i \<in> A
      \<and> st_placements st ! i = placement_of e (?f i)" if "i \<in> ?I" for i
  proof -
    from that rep have s: "st_secAt st (skey (pl_sectionId (st_placements st ! i)) (slot_of (st_placements st ! i))) = Some i"
      by (auto simp: represents_def rep_cells_def)
    from held_assignment [OF rep s refl] s show ?thesis by simp
  qed
  show "bij_betw ?f ?I A"
    unfolding bij_betw_def
  proof
    show "inj_on ?f ?I"
    proof (rule inj_onI)
      fix i j assume i: "i \<in> ?I" and j: "j \<in> ?I" and eq: "?f i = ?f j"
      from at [OF i] at [OF j] have "Some i = Some j" unfolding eq by metis
      then show "i = j" by simp
    qed
    show "?f ` ?I = A"
    proof
      show "?f ` ?I \<subseteq> A" using at by blast
      show "A \<subseteq> ?f ` ?I"
      proof
        fix a assume a: "a \<in> A"
        with rep obtain i where i: "st_secAt st (skey (sec_of e a) (snd a)) = Some i" "?f i = a"
          by (fastforce simp: represents_def rep_cells_def)
        note held = held_assignment [OF rep i(1) i(2) [symmetric]]
        from held(2,3) sec [OF a] have "i \<in> ?I" by simp
        with i(2) show "a \<in> ?f ` ?I" by blast
      qed
    qed
  qed
  show "st_placements st ! i = placement_of e (?f i)"
    if "i < length (st_placements st)" "live (st_placements st ! i)" using at that by blast
qed

lemma live_set:
  assumes "represents e b st A" "\<And>a. a \<in> A \<Longrightarrow> sec_of e a \<noteq> ''''"
  shows "set (filter live (st_placements st)) = placement_of e ` A"
proof -
  note bij = live_bij [OF assms]
  have "set (filter live (st_placements st)) =
    (\<lambda>i. st_placements st ! i) ` {i. i < length (st_placements st) \<and> live (st_placements st ! i)}"
    unfolding set_filter by (auto simp: in_set_conv_nth)
  also have "\<dots> = placement_of e ` ((\<lambda>i. (st_owner st ! i, slot_of (st_placements st ! i)))
      ` {i. i < length (st_placements st) \<and> live (st_placements st ! i)})"
    unfolding image_image using bij(2) by (intro image_cong) auto
  finally show ?thesis using bij(1) by (simp add: bij_betw_def)
qed

lemma live_count:
  assumes "represents e b st A" "\<And>a. a \<in> A \<Longrightarrow> sec_of e a \<noteq> ''''"
  shows "int (length (filter P (filter live (st_placements st)))) = count_of A (\<lambda>a. P (placement_of e a))"
proof -
  note bij = live_bij [OF assms]
  let ?f = "\<lambda>i. (st_owner st ! i, slot_of (st_placements st ! i))"
  let ?I = "{i. i < length (st_placements st) \<and> live (st_placements st ! i)}"
  have "length (filter P (filter live (st_placements st))) = card {i \<in> ?I. P (st_placements st ! i)}"
    by (auto simp: length_filter_conv_card intro!: arg_cong [where f = card])
  also have "\<dots> = card (?f ` {i \<in> ?I. P (st_placements st ! i)})"
    using bij(1) by (intro card_image [symmetric]) (auto simp: bij_betw_def inj_on_def)
  also have "?f ` {i \<in> ?I. P (st_placements st ! i)} = {a \<in> A. P (placement_of e a)}"
  proof -
    have "?f ` {i \<in> ?I. P (st_placements st ! i)} = ?f ` {i \<in> ?I. P (placement_of e (?f i))}"
      using bij(2) by (intro image_cong) auto
    also have "\<dots> = {a \<in> ?f ` ?I. P (placement_of e a)}" by blast
    finally show ?thesis using bij(1) by (simp add: bij_betw_def)
  qed
  finally show ?thesis by (simp add: count_of_def)
qed

text \<open>
  The result of \<open>generate\<close> over the assignments of its final state.
\<close>
lemma generate_good:
  assumes wf: "wf_input inp"
  obtains e b st A where "solve inp = (e, st)" "new_State inp = (e, b)" "env_ok e" "en_input e = inp" "good e b st A"
    "st_moves st \<le> start_budget inp" "\<And>a. a \<in> A \<Longrightarrow> sec_of e a \<noteq> ''''"
    "\<And>ri. ri < length (reqs e) \<Longrightarrow> count_of A (\<lambda>a. fst a = ri) \<le> max 0 (rq_periodsPerWeek (reqs e ! ri))"
    "set (re_placements (generate inp)) = placement_of e ` A"
    "\<And>P. int (length (filter P (re_placements (generate inp)))) = count_of A (\<lambda>a. P (placement_of e a))"
proof -
  obtain e st where run: "solve inp = (e, st)" by fastforce
  from solve_inv [OF wf run] obtain b where new: "new_State inp = (e, b)" and ok: "env_ok e" and inv: "round_inv e b st"
    by metis
  note f = new_State_fields [OF new]
  from inv obtain A where A: "good e b st A" "\<And>ri. ri < length (reqs e) \<Longrightarrow>
      count_of A (\<lambda>a. fst a = ri) \<le> max 0 (rq_periodsPerWeek (reqs e ! ri))"
    by (auto simp: round_inv_def)
  from A have rep: "represents e b st A" by (simp add: good_def)
  have sec: "sec_of e a \<noteq> ''''" if "a \<in> A" for a
    using wf rep that nth_mem [of "fst a" "reqs e"] by (auto simp: represents_def wf_input_def f(1))
  have pl: "re_placements (generate inp) =
      sort_key (\<lambda>p. (pl_sectionName p, pl_sectionId p, pl_weekday p, pl_periodId p)) (filter live (st_placements st))"
    by (simp add: generate_def run)
  have "set (re_placements (generate inp)) = placement_of e ` A"
    using live_set [OF rep sec] by (simp add: pl)
  moreover have "int (length (filter P (re_placements (generate inp)))) = count_of A (\<lambda>a. P (placement_of e a))" for P
    using live_count [OF rep sec, of P] by (simp add: pl filter_sort)
  moreover have "st_moves st \<le> start_budget inp" using inv f(2) by (simp add: round_inv_def)
  ultimately show thesis using that run new ok f(1) A sec by blast
qed

end
