(* ===== verification/SolverProps.thy ===== *)
theory SolverProps
  imports SolverProofs
begin

text \<open>
  The properties of the generated timetable, over the result of \<open>generate\<close>, each with a
  witness on \<open>demo_input\<close>: two sections, two teachers, one of them already committed elsewhere
  for a period, another period marked unavailable, two days of two periods.
\<close>

subsection \<open>A concrete school\<close>

definition demo_input :: Input where
  "demo_input =
    \<lparr>in_grid = \<lparr>gr_weekdays = [1, 2], gr_periods =
        [\<lparr>pd_id = ''p1'', pd_name = ''I'', pd_sequence = 1\<rparr>, \<lparr>pd_id = ''p2'', pd_name = ''II'', pd_sequence = 2\<rparr>]\<rparr>,
     in_requirements =
       [\<lparr>rq_sectionId = ''s1'', rq_sectionName = ''A'', rq_classSubjectId = ''m'', rq_subjectName = ''Maths'',
          rq_teacherId = ''t1'', rq_periodsPerWeek = 2, rq_maxPerDay = 0, rq_difficult = True\<rparr>,
        \<lparr>rq_sectionId = ''s2'', rq_sectionName = ''B'', rq_classSubjectId = ''m'', rq_subjectName = ''Maths'',
          rq_teacherId = ''t1'', rq_periodsPerWeek = 2, rq_maxPerDay = 0, rq_difficult = True\<rparr>],
     in_teachers =
       [\<lparr>tc_userId = ''t1'', tc_name = ''Rao'', tc_maxPerDay = 2, tc_maxPerWeek = 4,
          tc_unavailable = [\<lparr>sl_weekday = 1, sl_periodId = ''p1''\<rparr>], tc_committed = []\<rparr>,
        \<lparr>tc_userId = ''t2'', tc_name = ''Sen'', tc_maxPerDay = 0, tc_maxPerWeek = 0,
          tc_unavailable = [], tc_committed = [\<lparr>sl_weekday = 2, sl_periodId = ''p1''\<rparr>]\<rparr>],
     in_seed = 7, in_retryBudget = 0, in_sectionPeriods = Map.empty, in_overlaps = Map.empty\<rparr>"

lemma demo_overlaps: "input_overlaps demo_input = (\<lambda>p. [p])"
  by (simp add: input_overlaps_def demo_input_def fun_eq_iff)

lemma demo_wf: "wf_input demo_input"
  unfolding wf_input_def demo_overlaps
  using one_bell.time_overlap_axioms by (simp add: demo_input_def)

text \<open>What the generator does with it: one period cannot be placed and is reported.\<close>

definition demo_view :: "Result \<Rightarrow> (string \<times> string \<times> int \<times> string \<times> string) list \<times> (string \<times> string \<times> string) list \<times> int" where
  "demo_view r =
    (map (\<lambda>p. (pl_sectionId p, pl_classSubjectId p, pl_weekday p, pl_periodId p, pl_teacherId p)) (re_placements r),
     map (\<lambda>i. (is_kind i, is_sectionId i, is_classSubjectId i)) (re_issues r), re_placed r)"

lemma demo_run:
  "demo_view (generate demo_input) =
   ([(''s1'', ''m'', 2, ''p1'', ''t1''), (''s1'', ''m'', 2, ''p2'', ''t1''), (''s2'', ''m'', 1, ''p2'', ''t1'')],
    [(''unmet_periods'', ''s2'', ''m''), (''subject_stacked'', ''s1'', ''m'')], 3)"
  by code_simp

lemma demo_placements:
  "map (\<lambda>p. (pl_sectionId p, pl_classSubjectId p, pl_weekday p, pl_periodId p, pl_teacherId p)) (re_placements (generate demo_input)) =
   [(''s1'', ''m'', 2, ''p1'', ''t1''), (''s1'', ''m'', 2, ''p2'', ''t1''), (''s2'', ''m'', 1, ''p2'', ''t1'')]"
  and demo_issues: "map (\<lambda>i. (is_kind i, is_sectionId i, is_classSubjectId i)) (re_issues (generate demo_input)) =
    [(''unmet_periods'', ''s2'', ''m''), (''subject_stacked'', ''s1'', ''m'')]"
  and demo_placed: "re_placed (generate demo_input) = 3"
  using demo_run unfolding demo_view_def prod.inject by blast+

lemma demo_placement:
  "\<exists>p\<in>set (re_placements (generate demo_input)). pl_sectionId p = ''s2'' \<and> pl_weekday p = 1 \<and> pl_periodId p = ''p2''
     \<and> pl_teacherId p = ''t1''"
proof -
  have "(''s2'', ''m'', 1, ''p2'', ''t1'') \<in> set (map (\<lambda>p. (pl_sectionId p, pl_classSubjectId p, pl_weekday p, pl_periodId p, pl_teacherId p))
      (re_placements (generate demo_input)))"
    unfolding demo_placements by simp
  then show ?thesis by (auto simp only: set_map image_iff prod.inject)
qed

lemma demo_pair:
  "\<exists>p\<in>set (re_placements (generate demo_input)). \<exists>q\<in>set (re_placements (generate demo_input)).
     p \<noteq> q \<and> pl_teacherId p = ''t1'' \<and> pl_teacherId q = ''t1'' \<and> pl_weekday p = 2 \<and> pl_weekday q = 2
     \<and> pl_periodId p = ''p1'' \<and> pl_periodId q = ''p2''"
proof -
  have "(''s1'', ''m'', 2, x, ''t1'') \<in> set (map (\<lambda>p. (pl_sectionId p, pl_classSubjectId p, pl_weekday p, pl_periodId p, pl_teacherId p))
      (re_placements (generate demo_input)))" if "x \<in> {''p1'', ''p2''}" for x
    unfolding demo_placements using that by auto
  then have ex: "\<exists>p\<in>set (re_placements (generate demo_input)). pl_teacherId p = ''t1'' \<and> pl_weekday p = 2 \<and> pl_periodId p = x"
    if "x \<in> {''p1'', ''p2''}" for x using that by (simp only: set_map image_iff prod.inject) metis
  from ex [of "''p1''"] ex [of "''p2''"] obtain p q where
    "p \<in> set (re_placements (generate demo_input))" "pl_teacherId p = ''t1''" "pl_weekday p = 2" "pl_periodId p = ''p1''"
    "q \<in> set (re_placements (generate demo_input))" "pl_teacherId q = ''t1''" "pl_weekday q = 2" "pl_periodId q = ''p2''" by auto
  moreover from this have "p \<noteq> q" by auto
  ultimately show ?thesis by blast
qed

subsection \<open>Nobody is in two places\<close>

lemma distinct_of_count:
  assumes "\<And>P. int (length (filter P xs)) = count_of A (\<lambda>a. P (g a))" "set xs = g ` A" "finite A" "inj_on (f \<circ> g) A"
  shows "distinct (map f xs)"
proof -
  have "length xs = card A" using assms(1) [of "\<lambda>_. True"] by (simp add: count_of_def)
  also have "\<dots> = card (set (map f xs))"
    using card_image [OF assms(4)] by (simp add: assms(2) image_image)
  finally show ?thesis by (metis card_distinct length_map)
qed

lemma cell_inj:
  assumes "legal e b A"
  shows "inj_on ((\<lambda>p. (pl_sectionId p, pl_weekday p, pl_periodId p)) \<circ> placement_of e) A"
proof (rule inj_onI)
  fix x y assume "x \<in> A" "y \<in> A" and
    eq: "((\<lambda>p. (pl_sectionId p, pl_weekday p, pl_periodId p)) \<circ> placement_of e) x =
         ((\<lambda>p. (pl_sectionId p, pl_weekday p, pl_periodId p)) \<circ> placement_of e) y"
  moreover from eq have "sec_of e x = sec_of e y \<and> snd x = snd y" by (simp add: slot_eqI)
  ultimately show "x = y" using assms by (auto simp: legal_def apart_def)
qed

text \<open>
  No section is ever given two lessons in one period: the (section, weekday, period) cells
  of the published placements are pairwise distinct, after any number of repair moves.
\<close>
theorem section_never_double_booked:
  assumes "wf_input inp"
  shows "distinct (map (\<lambda>p. (pl_sectionId p, pl_weekday p, pl_periodId p)) (re_placements (generate inp)))"
proof -
  from generate_good [OF assms] obtain e b st A where A: "good e b st A" "set (re_placements (generate inp)) = placement_of e ` A"
    "\<And>P. int (length (filter P (re_placements (generate inp)))) = count_of A (\<lambda>a. P (placement_of e a))" by metis
  from A(1) have "finite A" "legal e b A" by (simp_all add: good_def represents_def)
  from distinct_of_count [OF A(3,2) this(1) cell_inj [OF this(2)]] show ?thesis .
qed

theorem section_never_double_booked_witness:
  "distinct (map (\<lambda>p. (pl_sectionId p, pl_weekday p, pl_periodId p)) (re_placements (generate demo_input)))
   \<and> length (re_placements (generate demo_input)) = 3"
  using section_never_double_booked [OF demo_wf] arg_cong [OF demo_placements, of length] by simp

lemma teacher_apart:
  assumes "wf_input inp" "p \<in> set (re_placements (generate inp))" "q \<in> set (re_placements (generate inp))" "p \<noteq> q"
    "pl_teacherId p = pl_teacherId q" "pl_teacherId p \<noteq> ''''" "pl_weekday p = pl_weekday q"
  shows "pl_periodId q \<notin> set (input_overlaps inp (pl_periodId p))"
proof -
  from generate_good [OF assms(1)] obtain e b st A where A: "new_State inp = (e, b)" "env_ok e" "good e b st A"
    "set (re_placements (generate inp)) = placement_of e ` A" by metis
  from A(4) assms(2,3) obtain x y where xy: "x \<in> A" "y \<in> A" "p = placement_of e x" "q = placement_of e y" by auto
  with assms(4) A(3) have "apart e x y" by (auto simp: good_def legal_def)
  with assms(5,6) have "\<not> time_overlap.clash (overlapsOf e) (snd x) (snd y)" by (simp add: apart_def xy)
  with A(1,2) assms(7) show ?thesis
    by (simp add: env_ok_def time_overlap.clash_def new_State_fields(3) [OF A(1)] xy)
qed

text \<open>
  C1. No teacher is in two rooms at once: two different placements of one teacher never fall on
  periods of a weekday that overlap in time, also where sections run on different bells.
\<close>
theorem teacher_never_double_booked:
  assumes "wf_input inp" "p \<in> set (re_placements (generate inp))" "q \<in> set (re_placements (generate inp))" "p \<noteq> q"
    "pl_teacherId p = pl_teacherId q" "pl_teacherId p \<noteq> ''''" "pl_weekday p = pl_weekday q"
  shows "pl_periodId q \<notin> set (input_overlaps inp (pl_periodId p))"
  using assms by (rule teacher_apart)

theorem teacher_never_double_booked_witness:
  "\<exists>p q. p \<in> set (re_placements (generate demo_input)) \<and> q \<in> set (re_placements (generate demo_input)) \<and> p \<noteq> q
     \<and> pl_teacherId p = pl_teacherId q \<and> pl_weekday p = pl_weekday q
     \<and> pl_periodId q \<notin> set (input_overlaps demo_input (pl_periodId p))"
proof -
  from demo_pair obtain p q where pq: "p \<in> set (re_placements (generate demo_input))" "q \<in> set (re_placements (generate demo_input))"
    "p \<noteq> q" "pl_teacherId p = pl_teacherId q" "pl_teacherId p \<noteq> ''''" "pl_weekday p = pl_weekday q" by force
  from teacher_never_double_booked [OF demo_wf pq] pq show ?thesis by blast
qed

text \<open>
  C24. What a teacher does elsewhere is respected: no placement of a teacher overlaps a period
  they are marked unavailable for, or a period already committed in another timetable.
\<close>
theorem commitments_respected:
  assumes "wf_input inp" "distinct (map tc_userId (in_teachers inp))" "t \<in> set (in_teachers inp)" "tc_userId t \<noteq> ''''"
    "p \<in> set (re_placements (generate inp))" "pl_teacherId p = tc_userId t"
    "c \<in> set (tc_unavailable t) \<union> set (tc_committed t)" "sl_weekday c = pl_weekday p"
  shows "sl_periodId c \<notin> set (input_overlaps inp (pl_periodId p))"
proof
  assume ov: "sl_periodId c \<in> set (input_overlaps inp (pl_periodId p))"
  from generate_good [OF assms(1)] obtain e b st A where A: "new_State inp = (e, b)" "good e b st A"
    "set (re_placements (generate inp)) = placement_of e ` A" by metis
  note f = new_State_fields [OF A(1)]
  from A(3) assms(5) obtain a where a: "a \<in> A" "p = placement_of e a" by auto
  with A(2) have one: "legal_one e b a" by (simp add: good_def legal_def)
  have "en_teachers e (tc_userId t) = Some (teacher_st inp (en_slots e) t)"
    unfolding f(4) using assms(2,3)
    by (intro map_of_is_SomeI) (auto simp: comp_def image_iff distinct_map rev_map [symmetric])
  with one a(2) assms(4,6) have un: "\<not> unavailableAt e (teacher_st inp (en_slots e) t) (snd a)"
    and busy: "\<not> teacherBusy e b (tc_userId t) (snd a)" by (auto simp: legal_one_def)
  from ov assms(8) have c: "sl_weekday c = sl_weekday (snd a)" "sl_periodId c \<in> set (overlapsOf e (sl_periodId (snd a)))"
    by (simp_all add: a(2) f(3))
  have "c \<notin> set (tc_committed t)"
    using busy c assms(3) by (auto simp: teacherBusy_iff f(5))
  moreover have "c \<notin> set (tc_unavailable t)"
  proof
    assume "c \<in> set (tc_unavailable t)"
    moreover have "\<lparr>sl_weekday = sl_weekday (snd a), sl_periodId = sl_periodId c\<rparr> = c" using c(1) by simp
    ultimately have "unavailableAt e (teacher_st inp (en_slots e) t) (snd a)"
      unfolding unavailableAt_def list_ex_iff using c(2)
      by (intro bexI [of _ "sl_periodId c"]) (auto simp: teacher_st_def)
    with un show False by simp
  qed
  ultimately show False using assms(7) by blast
qed

theorem commitments_respected_witness:
  "\<exists>p. p \<in> set (re_placements (generate demo_input)) \<and> pl_teacherId p = ''t1'' \<and> pl_weekday p = 1
     \<and> ''p1'' \<notin> set (input_overlaps demo_input (pl_periodId p))"
proof -
  from demo_placement obtain p where p: "p \<in> set (re_placements (generate demo_input))" "pl_weekday p = 1" "pl_teacherId p = ''t1''" by blast
  with commitments_respected [OF demo_wf, of "hd (in_teachers demo_input)" p "\<lparr>sl_weekday = 1, sl_periodId = ''p1''\<rparr>"]
  have "''p1'' \<notin> set (input_overlaps demo_input (pl_periodId p))" by (simp add: demo_input_def)
  with p show ?thesis by blast
qed

subsection \<open>Working limits\<close>

text \<open>A limit of zero or less means the whole week, or every period of the day.\<close>

definition week_cap :: "Input \<Rightarrow> Teacher \<Rightarrow> int" where
  "week_cap inp t = tc_maxPerWeek (teacher_st inp (en_slots (fst (new_State inp))) t)"

definition day_cap :: "Input \<Rightarrow> Teacher \<Rightarrow> int" where
  "day_cap inp t = tc_maxPerDay (teacher_st inp (en_slots (fst (new_State inp))) t)"

lemma teacher_known:
  assumes "new_State inp = (e, b)" "distinct (map tc_userId (in_teachers inp))" "t \<in> set (in_teachers inp)"
  shows "en_teachers e (tc_userId t) = Some (teacher_st inp (en_slots e) t)"
  unfolding new_State_fields(4) [OF assms(1)] using assms(2,3)
  by (intro map_of_is_SomeI) (auto simp: comp_def image_iff distinct_map rev_map [symmetric])

lemma committed_at_distinct:
  assumes "distinct (map tc_userId ts)" "t \<in> set ts"
  shows "committed_at ts (tc_userId t) = tc_committed t"
proof -
  have "filter (\<lambda>x. tc_userId x = tc_userId t) ts = [t]"
    using assms
  proof (induction ts)
    case (Cons x ts)
    show ?case
    proof (cases "t = x")
      case True
      with Cons.prems(1) have "filter (\<lambda>x. tc_userId x = tc_userId t) ts = []" by (force simp: filter_empty_conv image_iff)
      with True show ?thesis by simp
    next
      case False
      with Cons show ?thesis by auto
    qed
  qed simp
  then show ?thesis by (simp add: committed_at_def)
qed

text \<open>
  The weekly limit: a teacher's placements and commitments together stay within their weekly
  cap, unless the commitments alone already exceed it, and then nothing is added.
\<close>
theorem weekly_cap:
  assumes "wf_input inp" "distinct (map tc_userId (in_teachers inp))" "t \<in> set (in_teachers inp)" "tc_userId t \<noteq> ''''"
  shows "int (length (filter (\<lambda>p. pl_teacherId p = tc_userId t) (re_placements (generate inp)))) + int (length (tc_committed t))
    \<le> max (week_cap inp t) (int (length (tc_committed t)))"
proof -
  from generate_good [OF assms(1)] obtain e b st A where A: "new_State inp = (e, b)" "good e b st A"
    "\<And>P. int (length (filter P (re_placements (generate inp)))) = count_of A (\<lambda>a. P (placement_of e a))" by metis
  from A(2) have caps: "within_caps e b A" by (simp add: good_def legal_def)
  from caps [unfolded within_caps_def, rule_format, OF assms(4) teacher_known [OF A(1) assms(2,3)], THEN conjunct1] A(1)
  show ?thesis
    unfolding A(3) by (simp add: week_cap_def new_State_fields(6) [OF A(1)] committed_at_distinct assms(2,3))
qed

theorem weekly_cap_witness:
  "length (filter (\<lambda>p. pl_teacherId p = ''t1'') (re_placements (generate demo_input))) \<le> 4"
  using weekly_cap [OF demo_wf, of "hd (in_teachers demo_input)"]
  by (simp add: demo_input_def week_cap_def teacher_st_def)

lemma committed_day:
  assumes "distinct (map tc_userId ts)" "t \<in> set ts" "\<forall>t\<in>set ts. CHR ''|'' \<notin> set (tc_userId t)"
  shows "(\<Sum>x\<leftarrow>ts. int (length (filter (\<lambda>s. dkey (tc_userId x) (sl_weekday s) = dkey (tc_userId t) d) (tc_committed x))))
    = int (length (filter (\<lambda>s. sl_weekday s = d) (tc_committed t)))"
proof -
  have none: "filter (\<lambda>s. dkey (tc_userId x) (sl_weekday s) = dkey (tc_userId t) d) (tc_committed x) = []"
    if "x \<in> set ts" "tc_userId x \<noteq> tc_userId t" for x
    using that assms(2,3) dkey_inj [of "tc_userId x" _ "tc_userId t" d] by (auto simp: filter_empty_conv)
  have own: "dkey (tc_userId t) w = dkey (tc_userId t) d \<longleftrightarrow> w = d" for w
    using assms(2,3) dkey_inj [of "tc_userId t" w "tc_userId t" d] by auto
  have "(\<Sum>x\<leftarrow>ts. int (length (filter (\<lambda>s. dkey (tc_userId x) (sl_weekday s) = dkey (tc_userId t) d) (tc_committed x))))
    = (\<Sum>x\<leftarrow>ts. if x = t then int (length (filter (\<lambda>s. sl_weekday s = d) (tc_committed t))) else 0)"
    using none own assms(1,2) by (intro arg_cong [where f = sum_list] map_cong refl) (auto simp: distinct_map inj_on_def)
  also have "\<dots> = int (length (filter (\<lambda>s. sl_weekday s = d) (tc_committed t)))"
    using assms(1,2) by (simp add: sum_list_distinct_conv_sum_set distinct_map)
  finally show ?thesis .
qed

text \<open>
  The daily limit, in the same way, on every weekday.
\<close>
theorem daily_cap:
  assumes "wf_input inp" "distinct (map tc_userId (in_teachers inp))" "t \<in> set (in_teachers inp)" "tc_userId t \<noteq> ''''"
  shows "int (length (filter (\<lambda>p. pl_teacherId p = tc_userId t \<and> pl_weekday p = d) (re_placements (generate inp))))
      + int (length (filter (\<lambda>s. sl_weekday s = d) (tc_committed t)))
    \<le> max (day_cap inp t) (int (length (filter (\<lambda>s. sl_weekday s = d) (tc_committed t))))"
proof -
  from generate_good [OF assms(1)] obtain e b st A where A: "new_State inp = (e, b)" "good e b st A"
    "\<And>P. int (length (filter P (re_placements (generate inp)))) = count_of A (\<lambda>a. P (placement_of e a))" by metis
  from A(2) have caps: "within_caps e b A" by (simp add: good_def legal_def)
  have "cget (st_teachDay b) (dkey (tc_userId t) d) = int (length (filter (\<lambda>s. sl_weekday s = d) (tc_committed t)))"
    unfolding new_State_fields(7) [OF A(1)] using assms(1) by (intro committed_day assms(2,3)) (simp add: wf_input_def)
  with caps [unfolded within_caps_def, rule_format, OF assms(4) teacher_known [OF A(1) assms(2,3)], THEN conjunct2, THEN spec [of _ d]] A(1)
  show ?thesis
    unfolding A(3) by (simp add: day_cap_def)
qed

theorem daily_cap_witness:
  "length (filter (\<lambda>p. pl_teacherId p = ''t1'' \<and> pl_weekday p = 2) (re_placements (generate demo_input))) \<le> 2"
  using daily_cap [OF demo_wf, of "hd (in_teachers demo_input)" 2]
  by (simp add: demo_input_def day_cap_def teacher_st_def)

subsection \<open>Where a lesson may fall\<close>

text \<open>The periods of a section: its own bell, or the grid of the year.\<close>

definition periods_of_section :: "Input \<Rightarrow> string \<Rightarrow> Period list" where
  "periods_of_section inp sec = (case in_sectionPeriods inp sec of Some ps \<Rightarrow> ps | None \<Rightarrow> gr_periods (in_grid inp))"

lemma set_gridSlots:
  "set (gridSlots g ps) = {s :: Slot. sl_weekday s \<in> set (gr_weekdays g) \<and> sl_periodId s \<in> pd_id ` set ps}"
proof (intro equalityI subsetI)
  fix s :: Slot assume "s \<in> {s. sl_weekday s \<in> set (gr_weekdays g) \<and> sl_periodId s \<in> pd_id ` set ps}"
  then show "s \<in> set (gridSlots g ps)" by (cases s) (auto simp: gridSlots_def)
qed (auto simp: gridSlots_def)

lemma slotsFor_new:
  assumes "new_State inp = (e, b)"
  shows "set (slotsFor e sec) = {s. sl_weekday s \<in> set (gr_weekdays (in_grid inp)) \<and> sl_periodId s \<in> pd_id ` set (periods_of_section inp sec)}"
  using assms
  by (cases "in_sectionPeriods inp sec")
    (auto simp: new_State_def slotsFor_def periods_of_section_def set_gridSlots Let_def split: prod.splits)

lemma placements_in_timetable_parts:
  assumes "wf_input inp" "p \<in> set (re_placements (generate inp))"
  shows "pl_weekday p \<in> set (gr_weekdays (in_grid inp))"
    "pl_periodId p \<in> pd_id ` set (periods_of_section inp (pl_sectionId p))"
    "\<exists>r\<in>set (in_requirements inp). rq_sectionId r = pl_sectionId p \<and> rq_classSubjectId r = pl_classSubjectId p
       \<and> rq_teacherId r = pl_teacherId p \<and> rq_sectionName r = pl_sectionName p \<and> rq_subjectName r = pl_subjectName p"
proof -
  from generate_good [OF assms(1)] obtain e b st A where A: "new_State inp = (e, b)" "en_input e = inp" "good e b st A"
    "set (re_placements (generate inp)) = placement_of e ` A" by metis
  from A(4) assms(2) obtain a where a: "a \<in> A" "p = placement_of e a" by auto
  with A(3) have one: "fst a < length (reqs e)" "snd a \<in> set (slotsFor e (sec_of e a))"
    by (auto simp: good_def legal_def legal_one_def)
  then show "pl_weekday p \<in> set (gr_weekdays (in_grid inp))"
    "pl_periodId p \<in> pd_id ` set (periods_of_section inp (pl_sectionId p))"
    by (simp_all add: slotsFor_new [OF A(1)] a(2))
  from one(1) show "\<exists>r\<in>set (in_requirements inp). rq_sectionId r = pl_sectionId p \<and> rq_classSubjectId r = pl_classSubjectId p
       \<and> rq_teacherId r = pl_teacherId p \<and> rq_sectionName r = pl_sectionName p \<and> rq_subjectName r = pl_subjectName p"
    by (intro bexI [of _ "reqs e ! fst a"]) (auto simp: a(2) placement_of_def Let_def A(2))
qed

text \<open>
  Every placement is of a requirement that was asked for, with its teacher, on a weekday of
  the grid and in a period of the bell its own section runs on.
\<close>
theorem placements_in_timetable:
  assumes "wf_input inp" "p \<in> set (re_placements (generate inp))"
  shows "pl_weekday p \<in> set (gr_weekdays (in_grid inp))
    \<and> pl_periodId p \<in> pd_id ` set (periods_of_section inp (pl_sectionId p))
    \<and> (\<exists>r\<in>set (in_requirements inp). rq_sectionId r = pl_sectionId p \<and> rq_classSubjectId r = pl_classSubjectId p
       \<and> rq_teacherId r = pl_teacherId p \<and> rq_sectionName r = pl_sectionName p \<and> rq_subjectName r = pl_subjectName p)"
  using placements_in_timetable_parts [OF assms] by blast

theorem placements_in_timetable_witness:
  "\<exists>p. p \<in> set (re_placements (generate demo_input)) \<and> pl_weekday p \<in> set [1, 2]
     \<and> (\<exists>r\<in>set (in_requirements demo_input). rq_sectionId r = pl_sectionId p)"
proof -
  from demo_placement obtain p where p: "p \<in> set (re_placements (generate demo_input))" by blast
  from placements_in_timetable [OF demo_wf p] have "pl_weekday p \<in> set (gr_weekdays (in_grid demo_input))"
    "\<exists>r\<in>set (in_requirements demo_input). rq_sectionId r = pl_sectionId p" by blast+
  moreover have "gr_weekdays (in_grid demo_input) = [1, 2]" by (simp add: demo_input_def)
  ultimately show ?thesis using p by metis
qed

subsection \<open>Nothing is lost and nothing is invented\<close>

lemma count_by_owner:
  fixes A :: "assignment set"
  assumes "finite A" "\<And>a. a \<in> A \<Longrightarrow> fst a < n"
  shows "count_of A (\<lambda>_. True) = (\<Sum>ri<n. count_of A (\<lambda>a. fst a = ri))"
proof -
  have "(\<Sum>ri<n. \<Sum>a\<in>{a \<in> A. fst a = ri}. 1) = (\<Sum>a\<in>A. 1::nat)"
    by (rule sum.group) (use assms in auto)
  then have "card A = (\<Sum>ri<n. card {a \<in> A. fst a = ri})" by simp
  then show ?thesis by (simp add: count_of_def)
qed

lemma placed_total:
  assumes "good e b st A"
  shows "sum_list (st_placed st) = count_of A (\<lambda>_. True)"
proof -
  from assms have fin: "finite A" "\<And>a. a \<in> A \<Longrightarrow> fst a < length (reqs e)" "length (st_placed st) = length (reqs e)"
    "\<And>ri. ri < length (reqs e) \<Longrightarrow> st_placed st ! ri = count_of A (\<lambda>a. fst a = ri)"
    by (auto simp: good_def represents_def rep_counts_def)
  have "sum_list (st_placed st) = (\<Sum>ri<length (reqs e). st_placed st ! ri)"
    by (simp add: sum_list_sum_nth fin(3) atLeast0LessThan)
  then show ?thesis using count_by_owner [OF fin(1,2)] fin(4) by simp
qed

lemma result_counters_parts:
  assumes "wf_input inp" "\<forall>r\<in>set (in_requirements inp). 0 \<le> rq_periodsPerWeek r"
  shows "re_placed (generate inp) = int (length (re_placements (generate inp)))"
    "re_placed (generate inp) \<le> re_required (generate inp)"
    "re_moves (generate inp) \<le> start_budget inp"
proof -
  from generate_good [OF assms(1)] obtain e b st A where A: "solve inp = (e, st)" "en_input e = inp" "good e b st A"
    "st_moves st \<le> start_budget inp"
    and cap: "\<And>ri. ri < length (reqs e) \<Longrightarrow> count_of A (\<lambda>a. fst a = ri) \<le> max 0 (rq_periodsPerWeek (reqs e ! ri))"
    and cnt: "\<And>P. int (length (filter P (re_placements (generate inp)))) = count_of A (\<lambda>a. P (placement_of e a))" by metis
  have placed: "re_placed (generate inp) = count_of A (\<lambda>_. True)"
    using placed_total [OF A(3)] by (simp add: generate_def A(1))
  with cnt [of "\<lambda>_. True"] show "re_placed (generate inp) = int (length (re_placements (generate inp)))" by simp
  show "re_moves (generate inp) \<le> start_budget inp" using A(4) by (simp add: generate_def A(1))
  from A(3) have fin: "finite A" "\<And>a. a \<in> A \<Longrightarrow> fst a < length (reqs e)" by (auto simp: good_def represents_def)
  have "count_of A (\<lambda>_. True) = (\<Sum>ri<length (reqs e). count_of A (\<lambda>a. fst a = ri))"
    using count_by_owner [OF fin] by simp
  also have "\<dots> \<le> (\<Sum>ri<length (reqs e). rq_periodsPerWeek (reqs e ! ri))"
    using cap assms(2) A(2) by (intro sum_mono) (fastforce simp: max_def)
  also have "\<dots> = re_required (generate inp)"
    by (simp add: generate_def A(1,2) sum_list_sum_nth atLeast0LessThan)
  finally show "re_placed (generate inp) \<le> re_required (generate inp)" by (simp add: placed)
qed

text \<open>
  The counters of the result are honest: \<open>placed\<close> is the number of placements listed, it
  never exceeds \<open>required\<close>, and the repair moves stay within the budget.
\<close>
theorem result_counters:
  assumes "wf_input inp" "\<forall>r\<in>set (in_requirements inp). 0 \<le> rq_periodsPerWeek r"
  shows "re_placed (generate inp) = int (length (re_placements (generate inp)))
    \<and> re_placed (generate inp) \<le> re_required (generate inp)
    \<and> re_moves (generate inp) \<le> start_budget inp"
  using result_counters_parts [OF assms] by blast

theorem result_counters_witness: "re_placed (generate demo_input) = 3 \<and> 3 \<le> re_required (generate demo_input)"
  using result_counters [OF demo_wf] demo_placed by (simp add: demo_input_def)

lemma preflight_kind:
  "i \<in> set (preflight e) \<Longrightarrow> is_kind i \<noteq> ''unmet_periods''"
  by (auto simp: preflight_def teacher_oversubscribed_def section_oversubscribed_def Let_def
      split: prod.splits option.splits if_splits)

lemma unmet_in_report_one:
  "(\<exists>i\<in>set (report_one e st (j, r)). is_kind i = ''unmet_periods'' \<and> is_severity i = SEVERITY_BLOCKING
      \<and> is_sectionId i = sec \<and> is_classSubjectId i = cs)
   \<longleftrightarrow> 0 < st_remaining st ! j \<and> rq_sectionId r = sec \<and> rq_classSubjectId r = cs"
  by (simp add: report_one_def Let_def bex_Un not_le)

lemma set_enumerate0: "set (enumerate 0 xs) = {(j, xs ! j) |j. j < length xs}"
  by (auto simp: in_set_enumerate_eq)

lemma unmet_in_report:
  "(\<exists>i\<in>set (report e st). is_kind i = ''unmet_periods'' \<and> is_severity i = SEVERITY_BLOCKING
      \<and> is_sectionId i = sec \<and> is_classSubjectId i = cs)
   \<longleftrightarrow> (\<exists>j<length (reqs e). 0 < st_remaining st ! j \<and> rq_sectionId (reqs e ! j) = sec
        \<and> rq_classSubjectId (reqs e ! j) = cs)"
proof -
  have "set (report e st) = (\<Union>j\<in>{..<length (reqs e)}. set (report_one e st (j, reqs e ! j)))"
    unfolding report_def set_concat set_map set_enumerate0 by blast
  then have "(\<exists>i\<in>set (report e st). P i) \<longleftrightarrow> (\<exists>j<length (reqs e). \<exists>i\<in>set (report_one e st (j, reqs e ! j)). P i)" for P
    by auto
  then show ?thesis by (simp only: unmet_in_report_one)
qed

text \<open>
  C25. Every shortfall is reported and nothing else is: a requirement has a blocking
  \<open>unmet_periods\<close> issue exactly when fewer periods were placed for it than it asks for.
\<close>
theorem unmet_reported:
  assumes "wf_input inp" "distinct (map (\<lambda>r. (rq_sectionId r, rq_classSubjectId r)) (in_requirements inp))"
    "r \<in> set (in_requirements inp)"
  shows "(\<exists>i\<in>set (re_issues (generate inp)). is_kind i = ''unmet_periods'' \<and> is_severity i = SEVERITY_BLOCKING
      \<and> is_sectionId i = rq_sectionId r \<and> is_classSubjectId i = rq_classSubjectId r)
    \<longleftrightarrow> int (length (filter (\<lambda>p. pl_sectionId p = rq_sectionId r \<and> pl_classSubjectId p = rq_classSubjectId r)
          (re_placements (generate inp)))) < rq_periodsPerWeek r" (is "?L \<longleftrightarrow> ?n < _")
proof -
  from generate_good [OF assms(1)] obtain e b st A where A: "solve inp = (e, st)" "en_input e = inp" "good e b st A"
    and cnt: "\<And>P. int (length (filter P (re_placements (generate inp)))) = count_of A (\<lambda>a. P (placement_of e a))" by metis
  from assms(3) A(2) obtain ri where ri: "ri < length (reqs e)" "reqs e ! ri = r" by (auto simp: in_set_conv_nth)
  have same: "j = ri" if "j < length (reqs e)" "rq_sectionId (reqs e ! j) = rq_sectionId r"
    "rq_classSubjectId (reqs e ! j) = rq_classSubjectId r" for j
    using assms(2) that ri A(2) nth_eq_iff_index_eq [OF assms(2), of j ri] by simp
  from A(3) have rc: "st_remaining st ! ri = rq_periodsPerWeek r - count_of A (\<lambda>a. fst a = ri)"
    and own: "\<And>a. a \<in> A \<Longrightarrow> fst a < length (reqs e)"
    using ri by (auto simp: good_def represents_def rep_counts_def)
  have "(pl_sectionId (placement_of e a) = rq_sectionId r \<and> pl_classSubjectId (placement_of e a) = rq_classSubjectId r)
      \<longleftrightarrow> fst a = ri" if "a \<in> A" for a
  proof -
    have "pl_classSubjectId (placement_of e a) = rq_classSubjectId (reqs e ! fst a)" by (simp add: placement_of_def Let_def)
    then show ?thesis using same [OF own [OF that]] ri(2) by (metis pl_sectionId_placement_of)
  qed
  then have "?n = count_of A (\<lambda>a. fst a = ri)"
    unfolding cnt by (intro count_of_cong)
  moreover have "?L \<longleftrightarrow> 0 < st_remaining st ! ri"
  proof -
    have "?L \<longleftrightarrow> (\<exists>i\<in>set (report e st). is_kind i = ''unmet_periods'' \<and> is_severity i = SEVERITY_BLOCKING
      \<and> is_sectionId i = rq_sectionId r \<and> is_classSubjectId i = rq_classSubjectId r)"
      using preflight_kind [of _ e] by (auto simp: generate_def A(1))
    also have "\<dots> \<longleftrightarrow> (\<exists>j<length (reqs e). 0 < st_remaining st ! j \<and> rq_sectionId (reqs e ! j) = rq_sectionId r
        \<and> rq_classSubjectId (reqs e ! j) = rq_classSubjectId r)"
      by (rule unmet_in_report)
    also have "\<dots> \<longleftrightarrow> 0 < st_remaining st ! ri"
    proof
      show "0 < st_remaining st ! ri" if "\<exists>j<length (reqs e). 0 < st_remaining st ! j \<and> rq_sectionId (reqs e ! j) = rq_sectionId r
        \<and> rq_classSubjectId (reqs e ! j) = rq_classSubjectId r" using that same by metis
    qed (use ri in metis)
    finally show ?thesis .
  qed
  ultimately show ?thesis using rc by simp
qed

theorem unmet_reported_witness:
  "\<exists>i\<in>set (re_issues (generate demo_input)). is_kind i = ''unmet_periods'' \<and> is_severity i = SEVERITY_BLOCKING
      \<and> is_sectionId i = ''s2'' \<and> is_classSubjectId i = ''m''"
proof -
  let ?v = "\<lambda>p. (pl_sectionId p, pl_classSubjectId p, pl_weekday p, pl_periodId p, pl_teacherId p)"
  let ?P = "\<lambda>(s, c, _). s = ''s2'' \<and> c = ''m''"
  have "length (filter ?P (map ?v (re_placements (generate demo_input)))) = 1"
    unfolding demo_placements by simp
  then have "length (filter (\<lambda>p. pl_sectionId p = ''s2'' \<and> pl_classSubjectId p = ''m'') (re_placements (generate demo_input))) = 1"
    by (simp add: length_filter_map comp_def)
  with unmet_reported [OF demo_wf, of "in_requirements demo_input ! 1"] show ?thesis
    by (simp add: demo_input_def)
qed

subsection \<open>The greedy step\<close>

text \<open>The slots a requirement could take in a state, under a slack.\<close>

definition open_slots :: "Env \<Rightarrow> State \<Rightarrow> nat \<Rightarrow> int \<Rightarrow> Slot list \<Rightarrow> Slot list" where
  "open_slots e st ri slack ss = filter (\<lambda>s. blockers e st ri s slack = None) ss"

lemma score_blocked [simp]: "score e (st\<lparr>st_blocked := bl\<rparr>) ri s = score e st ri s"
  by (simp add: score_def gapDelta_def gaps_def cong: option.case_cong)

lemma scan_best:
  assumes "scan e ri slack ss st best = (st', best')" "\<And>s sc. best = Some (s, sc) \<Longrightarrow> sc = score e st ri s"
  shows "case best' of
      None \<Rightarrow> best = None \<and> open_slots e st ri slack ss = []
    | Some (s, sc) \<Rightarrow> sc = score e st ri s \<and> (best = Some (s, sc) \<or> s \<in> set (open_slots e st ri slack ss))
        \<and> (\<forall>s'\<in>set (open_slots e st ri slack ss). sc \<le> score e st ri s') \<and> (\<forall>s0 sc0. best = Some (s0, sc0) \<longrightarrow> sc \<le> sc0)"
  using assms
proof (induction e ri slack ss st best arbitrary: st' best' rule: scan.induct)
  case (1 e ri slack st best)
  then show ?case by (auto simp: open_slots_def split: option.splits)
next
  case (2 e ri slack s ss st best)
  show ?case
  proof (cases "blockers e st ri s slack")
    case None
    define best1 where "best1 = (let sc = score e st ri s in
            case best of None \<Rightarrow> Some (s, sc) | Some (s0, sc0) \<Rightarrow> if sc < sc0 then Some (s, sc) else best)"
    have b1: "best1 = (if best = None \<or> score e st ri s < snd (the best) then Some (s, score e st ri s) else best)"
      by (cases best) (auto simp: best1_def Let_def)
    have run: "scan e ri slack ss st best1 = (st', best')" using "2.prems"(1) None by (simp add: best1_def)
    have "\<And>s sc. best1 = Some (s, sc) \<Longrightarrow> sc = score e st ri s" using "2.prems"(2) by (auto simp: b1 split: if_splits)
    note IH = "2.IH"(1) [OF None, folded best1_def, OF run this]
    show ?thesis
    proof (cases best')
      case None
      with IH have "best1 = None" by simp
      then show ?thesis using b1 by (cases best) (auto split: if_splits)
    next
      case (Some r)
      obtain s1 sc1 where r: "r = (s1, sc1)" by (cases r)
      obtain t0 tc0 where t0: "best1 = Some (t0, tc0)" using b1 by (cases best) (auto split: if_splits)
      have from1: "best1 = best \<or> best1 = Some (s, score e st ri s)" by (simp add: b1)
      have low: "tc0 \<le> score e st ri s" "\<And>s0 sc0. best = Some (s0, sc0) \<Longrightarrow> tc0 \<le> sc0"
        using t0 unfolding b1 by (auto split: if_splits)
      from IH have r1: "sc1 = score e st ri s1" "best1 = Some (s1, sc1) \<or> s1 \<in> set (open_slots e st ri slack ss)"
        "\<forall>s'\<in>set (open_slots e st ri slack ss). sc1 \<le> score e st ri s'" "sc1 \<le> tc0"
        by (auto simp: Some r t0)
      have "open_slots e st ri slack (s # ss) = s # open_slots e st ri slack ss" by (simp add: open_slots_def None)
      moreover have "best = Some (s1, sc1) \<or> s1 \<in> insert s (set (open_slots e st ri slack ss))"
        using r1(2) from1 by auto
      moreover have "sc1 \<le> score e st ri s" using r1(4) low(1) by simp
      moreover have "\<forall>s0 sc0. best = Some (s0, sc0) \<longrightarrow> sc1 \<le> sc0" using r1(4) low(2) by fastforce
      ultimately show ?thesis using r1(1,3) by (simp add: Some r)
    qed
  next
    case (Some b)
    let ?st = "if slack = 0 then st\<lparr>st_blocked := (st_blocked st)[ri := (st_blocked st ! ri)[b := st_blocked st ! ri ! b + 1]]\<rparr> else st"
    have same: "score e ?st ri x = score e st ri x" "open_slots e ?st ri slack ss = open_slots e st ri slack ss" for x
      by (simp_all add: open_slots_def)
    have run: "scan e ri slack ss ?st best = (st', best')" using "2.prems"(1) Some by simp
    have "open_slots e st ri slack (s # ss) = open_slots e st ri slack ss" by (simp add: open_slots_def Some)
    with "2.IH"(2) [OF Some run] "2.prems"(2) same show ?thesis by (simp cong: option.case_cong)
  qed
qed

lemma tryPlace_takes_cheapest_parts:
  fixes e st ri slack
  defines "ss \<equiv> slotsFor e (rq_sectionId (reqs e ! ri))"
  shows "snd (tryPlace e ri slack st) \<longleftrightarrow> open_slots e st ri slack ss \<noteq> []"
    "snd (tryPlace e ri slack st) \<Longrightarrow> \<exists>s\<in>set (open_slots e st ri slack ss).
       slot_of (last (st_placements (fst (tryPlace e ri slack st)))) = s
     \<and> (\<forall>s'\<in>set (open_slots e st ri slack ss). score e st ri s \<le> score e st ri s')"
proof -
  obtain st' best where run: "scan e ri slack ss st None = (st', best)" by fastforce
  from scan_best [OF this] have best: "case best of None \<Rightarrow> open_slots e st ri slack ss = []
    | Some (s, sc) \<Rightarrow> sc = score e st ri s \<and> s \<in> set (open_slots e st ri slack ss)
        \<and> (\<forall>s'\<in>set (open_slots e st ri slack ss). sc \<le> score e st ri s')"
    by (auto split: option.splits)
  show "snd (tryPlace e ri slack st) \<longleftrightarrow> open_slots e st ri slack ss \<noteq> []"
    using best run by (auto simp: tryPlace_def ss_def split: option.splits)
  show "\<exists>s\<in>set (open_slots e st ri slack ss).
       slot_of (last (st_placements (fst (tryPlace e ri slack st)))) = s
     \<and> (\<forall>s'\<in>set (open_slots e st ri slack ss). score e st ri s \<le> score e st ri s')"
    if "snd (tryPlace e ri slack st)"
    using best run that by (auto simp: tryPlace_def ss_def commit_fields split: option.splits)
qed

text \<open>
  The greedy step is complete and takes the cheapest slot: \<open>tryPlace\<close> fails exactly when
  every slot of the section is blocked, and otherwise commits an open slot of minimal score.
\<close>
theorem tryPlace_takes_cheapest:
  assumes "ss = slotsFor e (rq_sectionId (reqs e ! ri))"
  shows "(snd (tryPlace e ri slack st) \<longleftrightarrow> open_slots e st ri slack ss \<noteq> [])
    \<and> (snd (tryPlace e ri slack st) \<longrightarrow> (\<exists>s\<in>set (open_slots e st ri slack ss).
       slot_of (last (st_placements (fst (tryPlace e ri slack st)))) = s
     \<and> (\<forall>s'\<in>set (open_slots e st ri slack ss). score e st ri s \<le> score e st ri s')))"
  unfolding assms using tryPlace_takes_cheapest_parts [of e ri slack st] by blast

theorem tryPlace_takes_cheapest_witness:
  "\<exists>s. slot_of (last (st_placements (fst (tryPlace (fst (new_State demo_input)) 0 0 (snd (new_State demo_input)))))) = s
     \<and> s \<noteq> \<lparr>sl_weekday = 1, sl_periodId = ''p1''\<rparr>"
proof -
  let ?e = "fst (new_State demo_input)" and ?st = "snd (new_State demo_input)"
  let ?ss = "slotsFor ?e (rq_sectionId (reqs ?e ! 0))"
  have shape: "open_slots ?e ?st 0 0 ?ss \<noteq> [] \<and> \<lparr>sl_weekday = 1, sl_periodId = ''p1''\<rparr> \<notin> set (open_slots ?e ?st 0 0 ?ss)"
    by code_simp
  with tryPlace_takes_cheapest [of ?ss ?e 0 0 ?st, OF refl] show ?thesis by metis
qed

definition points :: "Env \<Rightarrow> State \<Rightarrow> nat \<Rightarrow> Slot \<Rightarrow> int" where
  "points e st ri s =
    (let r = reqs e ! ri in
     1000 * cget (st_subjDay st) (rkey ri (sl_weekday s))
     + 40 * cget (st_secDay st) (dkey (rq_sectionId r) (sl_weekday s))
     + (case en_teachers e (rq_teacherId r) of None \<Rightarrow> 0
        | Some t \<Rightarrow> 30 * cget (st_teachDay st) (dkey (tc_userId t) (sl_weekday s)) + 60 * gapDelta e st (tc_userId t) s)
     + (if rq_difficult r then 12 else 2) * cget (en_seq e) (sl_periodId s))"

lemma jitter_of_bounds: "0 \<le> jitter_of u \<and> jitter_of u < 1024"
proof -
  have "0 \<le> uint u" "uint u < 4294967296" using uint_lt2p [of u] by simp_all
  then show ?thesis unfolding jitter_of_def by (simp add: div_less_iff_less_mult pos_imp_zdiv_nonneg_iff)
qed

lemma draw_jitter_bounds:
  "(\<And>k j. m k = Some j \<Longrightarrow> 0 \<le> j \<and> j < 1024) \<Longrightarrow> draw_jitter ss a m k = Some j \<Longrightarrow> 0 \<le> j \<and> j < 1024"
proof (induction ss arbitrary: a m)
  case (Cons s ss)
  obtain a' u where mb: "mulberry32 a = (a', u)" by fastforce
  show ?case
  proof (rule Cons.IH)
    show "draw_jitter ss a' (m(slotKey s \<mapsto> jitter_of u)) k = Some j" using Cons.prems(2) by (simp add: mb)
    show "0 \<le> j \<and> j < 1024" if "(m(slotKey s \<mapsto> jitter_of u)) k = Some j" for k j
      using that Cons.prems(1) by (auto simp: jitter_of_bounds split: if_splits)
  qed
qed simp

lemma jitter_bounds:
  assumes "new_State inp = (e, b)"
  shows "0 \<le> cget (en_jitter e) k \<and> cget (en_jitter e) k < 1024"
proof -
  from assms have "en_jitter e = draw_jitter (en_slots e) (seed_word (in_seed inp)) Map.empty"
    by (auto simp: new_State_def Let_def split: prod.splits)
  then show ?thesis using draw_jitter_bounds [of Map.empty "en_slots e" "seed_word (in_seed inp)" k]
    by (cases "en_jitter e k") (auto simp: cget_def)
qed

text \<open>
  The tie-break never outweighs a point: a slot whose points are lower scores lower
  whatever the seed drew for it, so the seed only chooses among slots of equal points.
\<close>
theorem jitter_only_breaks_ties:
  assumes "new_State inp = (e, b)" "points e st ri s < points e st ri s'"
  shows "score e st ri s < score e st ri s'"
proof -
  have pt: "score e st ri x = points e st ri x * 1024 + cget (en_jitter e) (slotKey x)" for x
    by (simp add: points_def score_def Let_def)
  show ?thesis
    using assms(2) jitter_bounds [OF assms(1), of "slotKey s"] jitter_bounds [OF assms(1), of "slotKey s'"]
    unfolding pt by linarith
qed

theorem jitter_only_breaks_ties_witness:
  "score (fst (new_State demo_input)) (snd (new_State demo_input)) 0 \<lparr>sl_weekday = 2, sl_periodId = ''p1''\<rparr>
   < score (fst (new_State demo_input)) (snd (new_State demo_input)) 0 \<lparr>sl_weekday = 2, sl_periodId = ''p2''\<rparr>"
proof -
  have "points (fst (new_State demo_input)) (snd (new_State demo_input)) 0 \<lparr>sl_weekday = 2, sl_periodId = ''p1''\<rparr>
   < points (fst (new_State demo_input)) (snd (new_State demo_input)) 0 \<lparr>sl_weekday = 2, sl_periodId = ''p2''\<rparr>"
    by code_simp
  then show ?thesis
    by (rule jitter_only_breaks_ties [of demo_input "fst (new_State demo_input)" "snd (new_State demo_input)", OF prod.collapse [symmetric]])
qed

end
