(* ===== verification/Bell.thy ===== *)
theory Bell
  imports SolverProofs
begin

text \<open>
  Which bell a class runs to, \<open>worker/src/routes/scheduling/bell.ts\<close>: the periods of the
  schedules, grouped and ordered, and the periods of \<^emph>\<open>other\<close> schedules that overlap each period
  in time.  The rows of the table \<open>periods\<close> are the input; the times are the strings
  \<open>''HH:MM''\<close> the code compares.  \<open>crossScheduleOverlaps\<close> is what the generator is given as
  \<open>overlaps\<close>: it is shown to be a \<open>time_overlap\<close>, the contract the generator relies on.
\<close>

record BellPeriod =
  bp_id :: string
  bp_name :: string
  bp_sequence :: int
  bp_starts_at :: string
  bp_ends_at :: string
  bp_is_break :: bool
  bp_schedule :: string

text \<open>A row as the database returns it: times may be NULL, the break flag is 0 or 1.\<close>

record BellRow =
  br_id :: string
  br_name :: string
  br_sequence :: int
  br_starts_at :: "string option"
  br_ends_at :: "string option"
  br_is_break :: int
  br_schedule :: string

definition shape :: "BellRow \<Rightarrow> BellPeriod" where
  "shape p =
    \<lparr>bp_id = br_id p, bp_name = br_name p, bp_sequence = br_sequence p,
     bp_starts_at = take 5 (case br_starts_at p of None \<Rightarrow> '''' | Some s \<Rightarrow> s),
     bp_ends_at = take 5 (case br_ends_at p of None \<Rightarrow> '''' | Some s \<Rightarrow> s),
     bp_is_break = (br_is_break p \<noteq> 0), bp_schedule = br_schedule p\<rparr>"

text \<open>\<open>COALESCE(own, class's, default)\<close>, where a schedule without periods counts as not set.\<close>

definition set_schedule :: "BellRow list \<Rightarrow> string option \<Rightarrow> string option" where
  "set_schedule rows sched =
    (case sched of None \<Rightarrow> None | Some s \<Rightarrow> if list_ex (\<lambda>p. br_schedule p = s) rows then Some s else None)"

definition classSchedule :: "BellRow list \<Rightarrow> string option \<Rightarrow> string option \<Rightarrow> string option" where
  "classSchedule rows dflt cls =
    (case set_schedule rows cls of Some s \<Rightarrow> Some s | None \<Rightarrow> dflt)"

definition sectionSchedule :: "BellRow list \<Rightarrow> string option \<Rightarrow> string option \<Rightarrow> string option \<Rightarrow> string option" where
  "sectionSchedule rows dflt cls sec =
    (case set_schedule rows sec of Some s \<Rightarrow> Some s | None \<Rightarrow> classSchedule rows dflt cls)"

definition periodsOfSchedule :: "BellRow list \<Rightarrow> string option \<Rightarrow> BellPeriod list" where
  "periodsOfSchedule rows sched =
    (case sched of None \<Rightarrow> []
     | Some s \<Rightarrow> if s = '''' then [] else map shape (sort_key br_sequence (filter (\<lambda>p. br_schedule p = s) rows)))"

definition schoolDayPeriods :: "BellRow list \<Rightarrow> string option \<Rightarrow> BellPeriod list" where
  "schoolDayPeriods rows dflt =
    (case dflt of Some s \<Rightarrow> if s = '''' then map shape (sort_key br_sequence rows) else periodsOfSchedule rows dflt
     | None \<Rightarrow> map shape (sort_key br_sequence rows))"

definition allPeriods :: "BellRow list \<Rightarrow> BellPeriod list" where
  "allPeriods rows = map shape (sort_key (\<lambda>p. (br_sequence p, br_schedule p)) rows)"

text \<open>The \<open>Map\<close> is an association list in insertion order.\<close>

fun group_periods :: "BellPeriod list \<Rightarrow> (string \<times> BellPeriod list) list \<Rightarrow> (string \<times> BellPeriod list) list" where
  "group_periods [] m = m"
| "group_periods (p # ps) m =
    group_periods ps (AList.update (bp_schedule p)
      ((case map_of m (bp_schedule p) of None \<Rightarrow> [] | Some l \<Rightarrow> l) @ [p]) m)"

definition periodsBySchedule :: "BellRow list \<Rightarrow> (string \<times> BellPeriod list) list" where
  "periodsBySchedule rows =
    map (\<lambda>(s, l). (s, sort_key bp_sequence l)) (group_periods (allPeriods rows) [])"

text \<open>Two periods of different schedules overlap when each starts before the other ends.\<close>

definition overlap_hits :: "BellPeriod list \<Rightarrow> BellPeriod \<Rightarrow> string list" where
  "overlap_hits periods p =
    bp_id p # map bp_id (filter (\<lambda>q. bp_schedule q \<noteq> bp_schedule p
      \<and> bp_starts_at q < bp_ends_at p \<and> bp_starts_at p < bp_ends_at q) periods)"

definition crossScheduleOverlaps :: "BellPeriod list \<Rightarrow> (string \<rightharpoonup> string list)" where
  "crossScheduleOverlaps periods =
    (if length (remdups (map bp_schedule periods)) < 2 then Map.empty
     else map_of (rev (map (\<lambda>p. (bp_id p, overlap_hits periods p)) periods)))"

subsection \<open>Grouping\<close>

lemma group_periods_lookup:
  "map_of (group_periods ps m) s =
    (let old = (case map_of m s of None \<Rightarrow> [] | Some l \<Rightarrow> l); new = filter (\<lambda>p. bp_schedule p = s) ps
     in if map_of m s = None \<and> new = [] then None else Some (old @ new))"
proof (induction ps arbitrary: m)
  case (Cons p ps)
  show ?case
    by (simp add: Cons.IH Let_def update_conv' split: option.splits)
qed (simp add: Let_def split: option.splits)

lemma map_of_map_values: "map_of (map (\<lambda>(k, v). (k, f v)) xs) k = map_option f (map_of xs k)"
  by (induction xs) auto

lemma set_allPeriods: "set (allPeriods rows) = shape ` set rows"
  by (simp add: allPeriods_def)

text \<open>
  Grouping loses no period and mixes no schedules: each schedule with periods is mapped to
  exactly its own periods, in order of their sequence, and a schedule without periods is absent.
\<close>
theorem periodsBySchedule_groups:
  "map_of (periodsBySchedule rows) s =
    (if \<exists>p\<in>set rows. br_schedule p = s
     then Some (sort_key bp_sequence (filter (\<lambda>p. bp_schedule p = s) (allPeriods rows))) else None)"
proof -
  have "filter (\<lambda>p. bp_schedule p = s) (allPeriods rows) = [] \<longleftrightarrow> \<not> (\<exists>p\<in>set rows. br_schedule p = s)"
    by (auto simp: filter_empty_conv set_allPeriods shape_def)
  then show ?thesis
    by (simp add: periodsBySchedule_def map_of_map_values group_periods_lookup Let_def)
qed

subsection \<open>Overlap is the generator's contract\<close>

lemma overlap_hits_iff:
  "x \<in> set (overlap_hits ps p) \<longleftrightarrow> x = bp_id p \<or> (\<exists>q\<in>set ps. x = bp_id q \<and> bp_schedule q \<noteq> bp_schedule p
      \<and> bp_starts_at q < bp_ends_at p \<and> bp_starts_at p < bp_ends_at q)"
  by (auto simp: overlap_hits_def)

lemma crossScheduleOverlaps_lookup:
  assumes "distinct (map bp_id ps)" "p \<in> set ps" "length (remdups (map bp_schedule ps)) \<ge> 2"
  shows "crossScheduleOverlaps ps (bp_id p) = Some (overlap_hits ps p)"
  unfolding crossScheduleOverlaps_def using assms
  by (auto simp: comp_def rev_map [symmetric] intro!: map_of_is_SomeI)

lemma crossScheduleOverlaps_none:
  "x \<notin> bp_id ` set ps \<Longrightarrow> crossScheduleOverlaps ps x = None"
  by (auto simp: crossScheduleOverlaps_def map_of_eq_None_iff image_image)

text \<open>What the generator asks of a period: itself, when the map has no entry for it.\<close>

definition overlap_or_self :: "(string \<rightharpoonup> string list) \<Rightarrow> string \<Rightarrow> string list" where
  "overlap_or_self m p = (case m p of Some ps \<Rightarrow> ps | None \<Rightarrow> [p])"

lemma cross_time_overlap:
  assumes "distinct (map bp_id ps)"
  shows "time_overlap (overlap_or_self (crossScheduleOverlaps ps))"
proof (cases "length (remdups (map bp_schedule ps)) < 2")
  case True
  then have "overlap_or_self (crossScheduleOverlaps ps) = (\<lambda>p. [p])"
    by (simp add: overlap_or_self_def crossScheduleOverlaps_def fun_eq_iff)
  then show ?thesis by (simp add: one_bell.time_overlap_axioms)
next
  case False
  then have two: "length (remdups (map bp_schedule ps)) \<ge> 2" by simp
  have own: "overlap_or_self (crossScheduleOverlaps ps) (bp_id p) = overlap_hits ps p" if "p \<in> set ps" for p
    by (simp add: overlap_or_self_def crossScheduleOverlaps_lookup [OF assms that two])
  have other: "overlap_or_self (crossScheduleOverlaps ps) x = [x]" if "x \<notin> bp_id ` set ps" for x
    by (simp add: overlap_or_self_def crossScheduleOverlaps_none [OF that])
  show ?thesis
  proof
    fix x show "x \<in> set (overlap_or_self (crossScheduleOverlaps ps) x)"
      by (cases "x \<in> bp_id ` set ps") (auto simp: own other overlap_hits_iff)
  next
    fix x y assume y: "y \<in> set (overlap_or_self (crossScheduleOverlaps ps) x)"
    show "x \<in> set (overlap_or_self (crossScheduleOverlaps ps) y)"
    proof (cases "x \<in> bp_id ` set ps")
      case False
      with y show ?thesis by (simp add: other)
    next
      case True
      then obtain p where p: "p \<in> set ps" "x = bp_id p" by auto
      from y own [OF p(1)] p(2) consider "y = bp_id p"
        | q where "q \<in> set ps" "y = bp_id q" "bp_schedule q \<noteq> bp_schedule p" "bp_starts_at q < bp_ends_at p" "bp_starts_at p < bp_ends_at q"
        by (auto simp: overlap_hits_iff)
      then show ?thesis
      proof cases
        case 1
        with p own [OF p(1)] show ?thesis by (simp add: overlap_hits_iff)
      next
        case (2 q)
        with p own [OF 2(1)] show ?thesis by (auto simp: overlap_hits_iff)
      qed
    qed
  qed
qed

text \<open>Periods with a row each, whichever they are, keep the generator's contract.\<close>

locale bell_grid =
  fixes ps :: "BellPeriod list"
  assumes one_row_each: "distinct (map bp_id ps)"
begin

lemma hits: "p \<in> set ps \<Longrightarrow> length (remdups (map bp_schedule ps)) \<ge> 2 \<Longrightarrow> overlap_or_self (crossScheduleOverlaps ps) (bp_id p) = overlap_hits ps p"
  using crossScheduleOverlaps_lookup [OF one_row_each] by (simp add: overlap_or_self_def)

end

sublocale bell_grid \<subseteq> overlaps: time_overlap "overlap_or_self (crossScheduleOverlaps ps)"
  by (rule cross_time_overlap [OF one_row_each])

text \<open>The bell of a school with two schedules.\<close>

definition two_bells :: "BellPeriod list" where
  "two_bells =
    [\<lparr>bp_id = ''a1'', bp_name = ''I'', bp_sequence = 1, bp_starts_at = ''09:00'', bp_ends_at = ''09:45'', bp_is_break = False, bp_schedule = ''A''\<rparr>,
     \<lparr>bp_id = ''a2'', bp_name = ''II'', bp_sequence = 2, bp_starts_at = ''09:45'', bp_ends_at = ''10:30'', bp_is_break = False, bp_schedule = ''A''\<rparr>,
     \<lparr>bp_id = ''b1'', bp_name = ''I'', bp_sequence = 1, bp_starts_at = ''09:30'', bp_ends_at = ''10:00'', bp_is_break = False, bp_schedule = ''B''\<rparr>]"

interpretation bells: bell_grid two_bells
  by unfold_locales (simp add: two_bells_def)

lemma overlaps_are_clock_overlaps_parts:
  assumes "distinct (map bp_id ps)" "p \<in> set ps" "q \<in> set ps" "bp_schedule p \<noteq> bp_schedule q"
  shows "bp_id q \<in> set (overlap_or_self (crossScheduleOverlaps ps) (bp_id p))
     \<longleftrightarrow> bp_starts_at q < bp_ends_at p \<and> bp_starts_at p < bp_ends_at q"
    and "bp_id p \<in> set (overlap_or_self (crossScheduleOverlaps ps) (bp_id q))
     \<longleftrightarrow> bp_id q \<in> set (overlap_or_self (crossScheduleOverlaps ps) (bp_id p))"
proof -
  have "{bp_schedule p, bp_schedule q} \<subseteq> set (map bp_schedule ps)" using assms(2,3) by auto
  then have "card {bp_schedule p, bp_schedule q} \<le> card (set (map bp_schedule ps))" by (intro card_mono) auto
  then have two: "length (remdups (map bp_schedule ps)) \<ge> 2" using assms(4) by (simp add: length_remdups_card_conv)
  have inj: "bp_id x = bp_id y \<Longrightarrow> x \<in> set ps \<Longrightarrow> y \<in> set ps \<Longrightarrow> x = y" for x y
    using assms(1) by (auto simp: distinct_map inj_on_def)
  have "overlap_or_self (crossScheduleOverlaps ps) (bp_id p) = overlap_hits ps p"
    by (rule bell_grid.hits [OF bell_grid.intro [OF assms(1)] assms(2) two])
  then show "bp_id q \<in> set (overlap_or_self (crossScheduleOverlaps ps) (bp_id p))
     \<longleftrightarrow> bp_starts_at q < bp_ends_at p \<and> bp_starts_at p < bp_ends_at q"
    using inj assms(2-4) by (auto simp: overlap_hits_iff)
  from cross_time_overlap [OF assms(1)]
  show "bp_id p \<in> set (overlap_or_self (crossScheduleOverlaps ps) (bp_id q))
     \<longleftrightarrow> bp_id q \<in> set (overlap_or_self (crossScheduleOverlaps ps) (bp_id p))"
    by (meson time_overlap.ov_sym)
qed

text \<open>
  Overlap is symmetric and includes the period itself, and across schedules it is exactly
  overlap of the clock times.
\<close>
theorem overlaps_are_clock_overlaps:
  assumes "distinct (map bp_id ps)" "p \<in> set ps" "q \<in> set ps" "bp_schedule p \<noteq> bp_schedule q"
  shows "(bp_id q \<in> set (overlap_or_self (crossScheduleOverlaps ps) (bp_id p))
     \<longleftrightarrow> bp_starts_at q < bp_ends_at p \<and> bp_starts_at p < bp_ends_at q)
   \<and> (bp_id p \<in> set (overlap_or_self (crossScheduleOverlaps ps) (bp_id q))
     \<longleftrightarrow> bp_id q \<in> set (overlap_or_self (crossScheduleOverlaps ps) (bp_id p)))"
  using overlaps_are_clock_overlaps_parts [OF assms] by (rule conjI)

theorem overlaps_are_clock_overlaps_witness:
  "''b1'' \<in> set (overlap_or_self (crossScheduleOverlaps two_bells) ''a2'')
   \<and> ''a1'' \<in> set (overlap_or_self (crossScheduleOverlaps two_bells) ''b1'')"
proof -
  have d: "distinct (map bp_id two_bells)" by (simp add: two_bells_def)
  have clock: "''09:30'' < ''10:30''" "''09:45'' < ''10:00''" "''09:00'' < ''10:00''" "''09:30'' < ''09:45''"
    by code_simp+
  have "''b1'' \<in> set (overlap_or_self (crossScheduleOverlaps two_bells) ''a2'')"
    using overlaps_are_clock_overlaps [OF d, of "two_bells ! 1" "two_bells ! 2"] clock(1,2) by (simp add: two_bells_def)
  moreover have "''a1'' \<in> set (overlap_or_self (crossScheduleOverlaps two_bells) ''b1'')"
    using overlaps_are_clock_overlaps [OF d, of "two_bells ! 2" "two_bells ! 0"] clock(3,4) by (simp add: two_bells_def)
  ultimately show ?thesis by simp
qed

end
