(* ===== verification/Jobs.thy ===== *)
theory Jobs
  imports Prelude
begin

text \<open>
  Background jobs, \<open>worker/src/services/jobs.ts\<close>: the table of handlers, the state of a job in
  \<open>CONTROL.jobs\<close>, queueing in batches of at most 100, and what \<open>runBatch\<close> answers the queue for
  each message.  The queue itself (Cloudflare Queues) is not in the source; what it does with an
  acknowledgement or a retry request is its documented behaviour and is the datatype \<open>Reply\<close>.
  \<open>up\<close> says whether CONTROL takes writes: the code ignores a failed one.
\<close>

record Job =
  jb_type :: string
  jb_payload :: string
  jb_institution :: "string option"
  jb_id :: "string option"

record JobRow =
  jr_type :: string
  jr_queue :: string
  jr_institution :: "string option"
  jr_state :: string
  jr_attempts :: int
  jr_max :: int
  jr_error :: "string option"
  jr_finished :: "int option"

definition QUEUE_OF :: "string \<rightharpoonup> string" where
  "QUEUE_OF = map_of
    [(''reportcard:generate'', ''bulk''), (''invoice:generate'', ''bulk''), (''fee:reminder_fanout'', ''bulk''),
     (''bulk:import'', ''bulk''), (''export:build'', ''bulk''),
     (''message:send'', ''critical''), (''message.send'', ''critical''),
     (''attendance:rollup'', ''low''), (''session:prune'', ''low''), (''report:digest_daily'', ''low''),
     (''report:digest_weekly'', ''low''), (''transport:trip_timeout'', ''low''),
     (''transport:position_retention'', ''low''), (''security:retention'', ''low''), (''status:expire'', ''low'')]"

definition QUEUES :: "string list" where
  "QUEUES = [''critical'', ''default'', ''bulk'', ''low'']"

definition queueOf :: "string \<Rightarrow> string" where
  "queueOf t = (case QUEUE_OF t of Some q \<Rightarrow> q | None \<Rightarrow> ''default'')"

definition MAX_ATTEMPTS :: int where "MAX_ATTEMPTS = 6"

text \<open>\<open>registerJob\<close> throws (\<open>None\<close>) when the type is already registered.\<close>

definition registerJob :: "(string \<rightharpoonup> 'h) \<Rightarrow> string \<Rightarrow> 'h \<Rightarrow> (string \<rightharpoonup> 'h) option" where
  "registerJob handlers t fn = (if handlers t \<noteq> None then None else Some (handlers(t \<mapsto> fn)))"

definition recordRow :: "string \<Rightarrow> string option \<Rightarrow> JobRow" where
  "recordRow t inst =
    \<lparr>jr_type = t, jr_queue = queueOf t, jr_institution = inst, jr_state = ''pending'', jr_attempts = 0,
     jr_max = MAX_ATTEMPTS, jr_error = None, jr_finished = None\<rparr>"

type_synonym jobs = "string \<rightharpoonup> JobRow"

text \<open>\<open>INSERT OR IGNORE\<close>.\<close>

definition insert_job :: "bool \<Rightarrow> string \<Rightarrow> JobRow \<Rightarrow> jobs \<Rightarrow> jobs" where
  "insert_job up i row jobs = (if up \<and> jobs i = None then jobs(i \<mapsto> row) else jobs)"

definition setState :: "bool \<Rightarrow> int \<Rightarrow> string option \<Rightarrow> string \<Rightarrow> int \<Rightarrow> string option \<Rightarrow> jobs \<Rightarrow> jobs" where
  "setState up now ji state attempts err jobs =
    (case ji of None \<Rightarrow> jobs
     | Some i \<Rightarrow>
         if i = '''' then jobs
         else case jobs i of None \<Rightarrow> jobs
         | Some row \<Rightarrow>
             if \<not> up then jobs
             else jobs(i \<mapsto> row\<lparr>jr_state := state, jr_attempts := attempts,
               jr_error := (case err of None \<Rightarrow> jr_error row | Some e \<Rightarrow> Some (take 2000 e)),
               jr_finished := (if state = ''completed'' \<or> state = ''archived'' then Some now else None)\<rparr>))"

text \<open>\<open>enqueue\<close>: the id is drawn by \<open>crypto.randomUUID\<close>; the message sent and its delay.\<close>

definition enqueue :: "bool \<Rightarrow> string \<Rightarrow> string \<Rightarrow> string \<Rightarrow> string option \<Rightarrow> int \<Rightarrow> jobs \<Rightarrow> jobs \<times> Job \<times> int" where
  "enqueue up i t payload inst delay jobs =
    (insert_job up i (recordRow t inst) jobs,
     \<lparr>jb_type = t, jb_payload = payload, jb_institution = inst, jb_id = Some i\<rparr>,
     if delay = 0 then 0 else min delay 43200)"

text \<open>\<open>enqueueMany\<close>: one \<open>sendBatch\<close> per hundred jobs; \<open>ids\<close> are the UUIDs drawn, in order.\<close>

fun record_all :: "bool \<Rightarrow> (string \<times> Job) list \<Rightarrow> jobs \<Rightarrow> jobs" where
  "record_all up [] jobs = jobs"
| "record_all up ((i, j) # r) jobs = record_all up r (insert_job up i (recordRow (jb_type j) (jb_institution j)) jobs)"

definition stamp :: "string list \<Rightarrow> Job list \<Rightarrow> (string \<times> Job) list" where
  "stamp ids js = map (\<lambda>(i, j). (i, j\<lparr>jb_id := Some i\<rparr>)) (zip ids js)"

definition enqueueMany :: "bool \<Rightarrow> string list \<Rightarrow> Job list \<Rightarrow> jobs \<Rightarrow> jobs \<times> Job list list" where
  "enqueueMany up ids js jobs =
    (fold (record_all up) (chunks 100 (stamp ids js)) jobs, map (map snd) (chunks 100 (stamp ids js)))"

subsection \<open>Running a message\<close>

datatype Outcome = Done | Failed string | SkipRetry string

datatype Reply = Ack | Retry int

text \<open>\<open>30 * 2 ** (attempts - 1)\<close> seconds, at most an hour; the queue counts attempts from one.\<close>

definition backoff :: "int \<Rightarrow> int" where
  "backoff attempts = min (30 * 2 ^ nat (attempts - 1)) 3600"

definition runMessage :: "bool \<Rightarrow> int \<Rightarrow> (string \<rightharpoonup> (Job \<Rightarrow> Outcome)) \<Rightarrow> Job \<Rightarrow> int \<Rightarrow> jobs \<Rightarrow> jobs \<times> Reply" where
  "runMessage up now handlers job attempts jobs =
    (case handlers (jb_type job) of
       None \<Rightarrow> (setState up now (jb_id job) ''archived'' attempts (Some (''no handler for type '' @ jb_type job)) jobs, Ack)
     | Some fn \<Rightarrow>
         let jobs1 = setState up now (jb_id job) ''active'' attempts None jobs
         in case fn job of
              Done \<Rightarrow> (setState up now (jb_id job) ''completed'' attempts None jobs1, Ack)
            | SkipRetry e \<Rightarrow> (setState up now (jb_id job) ''archived'' attempts (Some e) jobs1, Ack)
            | Failed e \<Rightarrow>
                (setState up now (jb_id job) (if attempts \<ge> MAX_ATTEMPTS then ''archived'' else ''retry'') attempts (Some e) jobs1,
                 Retry (backoff attempts)))"

fun runBatch :: "bool \<Rightarrow> int \<Rightarrow> (string \<rightharpoonup> (Job \<Rightarrow> Outcome)) \<Rightarrow> (Job \<times> int) list \<Rightarrow> jobs \<Rightarrow> jobs \<times> Reply list" where
  "runBatch up now handlers [] jobs = (jobs, [])"
| "runBatch up now handlers ((job, attempts) # ms) jobs =
    (let (jobs1, r) = runMessage up now handlers job attempts jobs;
         (jobs2, rs) = runBatch up now handlers ms jobs1
     in (jobs2, r # rs))"

subsection \<open>Properties\<close>

lemma zip_snd: "length ids = length js \<Longrightarrow> map snd (stamp ids js) = map (\<lambda>(i, j). j\<lparr>jb_id := Some i\<rparr>) (zip ids js)"
  by (simp add: stamp_def comp_def case_prod_beta)

text \<open>
  Queueing many jobs sends every job exactly once, in order, in batches the queue accepts:
  never empty and never more than a hundred, and records one row for each.
\<close>
theorem enqueueMany_batches:
  "concat (snd (enqueueMany up ids js jobs)) = map snd (stamp ids js)
   \<and> list_all (\<lambda>b. b \<noteq> [] \<and> length b \<le> 100) (snd (enqueueMany up ids js jobs))"
  using chunks_bounds [of _ 100 "stamp ids js"] concat_chunks [of 100 "stamp ids js"]
  by (auto simp: enqueueMany_def list_all_iff map_concat [symmetric])

lemma record_all_append: "record_all up (xs @ ys) jobs = record_all up ys (record_all up xs jobs)"
  by (induction xs arbitrary: jobs) auto

lemma fold_record_all: "fold (record_all up) xss jobs = record_all up (concat xss) jobs"
  by (induction xss arbitrary: jobs) (simp_all add: record_all_append)

lemma record_all_keeps: "i \<notin> fst ` set xs \<Longrightarrow> record_all up xs jobs i = jobs i"
  by (induction up xs jobs rule: record_all.induct) (auto simp: insert_job_def)

lemma record_all_new:
  "distinct (map fst xs) \<Longrightarrow> (i, j) \<in> set xs \<Longrightarrow> jobs i = None \<Longrightarrow>
   record_all True xs jobs i = Some (recordRow (jb_type j) (jb_institution j))"
proof (induction xs arbitrary: jobs)
  case (Cons x xs)
  obtain i' j' where x: "x = (i', j')" by (cases x)
  show ?case
  proof (cases "i = i'")
    case True
    with Cons.prems x have "j = j'" "i \<notin> fst ` set xs" by (force simp: image_iff)+
    with x True Cons.prems(3) show ?thesis by (simp add: record_all_keeps insert_job_def)
  next
    case False
    with Cons.prems x have "record_all True xs (insert_job True i' (recordRow (jb_type j') (jb_institution j')) jobs) i
       = Some (recordRow (jb_type j) (jb_institution j))"
      by (intro Cons.IH) (auto simp: insert_job_def)
    with x show ?thesis by simp
  qed
qed simp

text \<open>
  Every job queued is on the stats screen as pending, in its own queue, with six attempts to come.
\<close>
theorem enqueueMany_records:
  assumes "distinct ids" "length ids = length js" "k < length js" "jobs (ids ! k) = None"
  shows "fst (enqueueMany True ids js jobs) (ids ! k) = Some (recordRow (jb_type (js ! k)) (jb_institution (js ! k)))"
proof -
  have "(ids ! k, (js ! k)\<lparr>jb_id := Some (ids ! k)\<rparr>) \<in> set (stamp ids js)"
    using assms(2,3) by (force simp: stamp_def set_zip)
  moreover have "map fst (stamp ids js) = ids"
    using assms(2) by (simp add: stamp_def comp_def case_prod_beta)
  ultimately show ?thesis
    using record_all_new [of "stamp ids js" "ids ! k" "(js ! k)\<lparr>jb_id := Some (ids ! k)\<rparr>" jobs] assms(1,4)
    by (simp add: enqueueMany_def fold_record_all concat_chunks)
qed

definition demo_job :: Job where
  "demo_job = \<lparr>jb_type = ''message.send'', jb_payload = '''', jb_institution = None, jb_id = Some ''j1''\<rparr>"

theorem enqueueMany_records_witness:
  "fst (enqueueMany True [''j1''] [demo_job] Map.empty) ''j1'' = Some (recordRow ''message.send'' None)"
  using enqueueMany_records [of "[''j1'']" "[demo_job]" 0 Map.empty] by (simp add: demo_job_def)

text \<open>The life of one message: delivered again, with one more attempt, while the answer is a retry.\<close>

fun deliver :: "(string \<rightharpoonup> (Job \<Rightarrow> Outcome)) list \<Rightarrow> Job \<Rightarrow> int \<Rightarrow> jobs \<Rightarrow> jobs \<times> bool" where
  "deliver [] job attempts jobs = (jobs, False)"
| "deliver (h # hs) job attempts jobs =
    (case runMessage True 0 h job attempts jobs of
       (jobs', Ack) \<Rightarrow> (jobs', True)
     | (jobs', Retry _) \<Rightarrow> (if attempts \<ge> MAX_ATTEMPTS then (jobs', False) else deliver hs job (attempts + 1) jobs'))"

lemma setState_row:
  "jobs i = Some row \<Longrightarrow> i \<noteq> '''' \<Longrightarrow>
   \<exists>row'. setState True now (Some i) s a e jobs i = Some row' \<and> jr_state row' = s \<and> jr_attempts row' = a"
  by (auto simp: setState_def)

lemma runMessage_state:
  assumes "jb_id job = Some i" "i \<noteq> ''''" "jobs i = Some row"
  shows "\<exists>row'. fst (runMessage True now h job attempts jobs) i = Some row' \<and> jr_attempts row' = attempts
    \<and> (snd (runMessage True now h job attempts jobs) = Ack \<longrightarrow> jr_state row' \<in> {''completed'', ''archived''})
    \<and> (attempts \<ge> MAX_ATTEMPTS \<longrightarrow> jr_state row' \<in> {''completed'', ''archived''})"
  using assms
  by (auto simp: runMessage_def setState_def Let_def split: option.splits Outcome.splits)



text \<open>
  Retries slow down and never stall: each wait is at least as long as the one before, at
  least half a minute and at most an hour.
\<close>
theorem backoff_bounds:
  assumes "1 \<le> a" "a \<le> b"
  shows "30 \<le> backoff a \<and> backoff a \<le> backoff b \<and> backoff b \<le> 3600"
proof -
  define x where "x = (2::int) ^ nat (a - 1)"
  define y where "y = (2::int) ^ nat (b - 1)"
  have "x \<le> y" unfolding x_def y_def using assms by (intro power_increasing) auto
  moreover have "1 \<le> x" by (simp add: x_def)
  ultimately show ?thesis unfolding backoff_def x_def [symmetric] y_def [symmetric] by linarith
qed

theorem backoff_bounds_witness: "30 \<le> backoff 1 \<and> backoff 1 \<le> backoff 6 \<and> backoff 6 \<le> 3600 \<and> backoff 6 = 960"
  using backoff_bounds [of 1 6] by (simp add: backoff_def)

text \<open>
  Every job type has a queue the stats screen lists.
\<close>
theorem queueOf_known: "queueOf t \<in> set QUEUES"
proof (cases "QUEUE_OF t")
  case None
  then show ?thesis by (simp add: queueOf_def QUEUES_def)
next
  case (Some q)
  then have "(t, q) \<in> set [(''reportcard:generate'', ''bulk''), (''invoice:generate'', ''bulk''), (''fee:reminder_fanout'', ''bulk''),
     (''bulk:import'', ''bulk''), (''export:build'', ''bulk''),
     (''message:send'', ''critical''), (''message.send'', ''critical''),
     (''attendance:rollup'', ''low''), (''session:prune'', ''low''), (''report:digest_daily'', ''low''),
     (''report:digest_weekly'', ''low''), (''transport:trip_timeout'', ''low''),
     (''transport:position_retention'', ''low''), (''security:retention'', ''low''), (''status:expire'', ''low'')]"
    unfolding QUEUE_OF_def by (rule map_of_SomeD)
  then have "q \<in> {''bulk'', ''critical'', ''low''}" unfolding set_simps insert_iff prod.inject empty_iff by blast
  with Some show ?thesis by (auto simp: queueOf_def QUEUES_def)
qed

text \<open>
  A second registration of a type is refused and changes nothing; a first one is kept.
\<close>
theorem registerJob_once:
  "registerJob hs t fn = None \<longleftrightarrow> t \<in> dom hs"
  by (auto simp: registerJob_def)

end
