(* ===== verification/Cron.thy ===== *)
theory Cron
  imports Jobs
begin

text \<open>
  The schedule, \<open>worker/src/services/cron.ts\<close>: five-field cron expressions, whether an occurrence has
  passed since an entry last ran, and the minute tick that enqueues what has come due and
  remembers the run in \<open>cron_runs\<close>.  Times are milliseconds since 1970.  A table \<open>cron_runs\<close> maps a
  name to its \<open>last_run_at\<close>, \<open>None\<close> standing for a text \<open>Date.parse\<close> does not read.  The offset of a
  timezone comes from \<open>Intl\<close> and is a parameter; so is what a school's database answers to the
  filter of an entry (\<open>None\<close>: the query throws).
\<close>

record Schedule =
  sc_name :: string
  sc_spec :: string
  sc_kind :: string
  sc_perInstitution :: bool
  sc_only :: bool

definition sched :: "string \<Rightarrow> string \<Rightarrow> string \<Rightarrow> bool \<Rightarrow> bool \<Rightarrow> Schedule" where
  "sched n s k p f = \<lparr>sc_name = n, sc_spec = s, sc_kind = k, sc_perInstitution = p, sc_only = f\<rparr>"

definition SCHEDULES :: "Schedule list" where
  "SCHEDULES =
    [sched ''attendance_rollup'' ''30 0 * * *'' ''attendance:rollup'' True False,
     sched ''staff_auto_absent'' ''*/5 * * * *'' ''staff:auto_absent'' True True,
     sched ''fee_reminders'' ''0 9 * * *'' ''fee:reminder_fanout'' True False,
     sched ''session_prune'' ''0 3 * * *'' ''session:prune'' False False,
     sched ''diary_reminders'' ''*/5 * * * *'' ''diary:reminders'' False False,
     sched ''question_paper_deadline_sweep'' ''*/5 * * * *'' ''exams:paper_deadline_sweep'' False False,
     sched ''status_expire'' ''7 * * * *'' ''status:expire'' False False,
     sched ''message_dispatch'' ''* * * * *'' ''message.send'' True True,
     sched ''push_pump'' ''* * * * *'' ''push.pump'' True True,
     sched ''message_digest'' ''*/15 * * * *'' ''message:digest'' True True,
     sched ''message_plans'' ''*/15 * * * *'' ''message:plans'' True False,
     sched ''report_digest_daily'' ''0 7 * * *'' ''report:digest_daily'' True False,
     sched ''report_digest_weekly'' ''0 7 * * 1'' ''report:digest_weekly'' True False,
     sched ''ai_parent_weekly'' ''0 9 * * 6'' ''ai:parent_weekly'' True False,
     sched ''transport_trip_timeout'' ''*/5 * * * *'' ''transport:trip_timeout'' False False,
     sched ''transport_position_retention'' ''20 3 * * *'' ''transport:position_retention'' False False,
     sched ''seller_health_snapshot'' ''*/15 * * * *'' ''seller:health_snapshot'' False False,
     sched ''seller_usage_alerts'' ''10 2 * * *'' ''seller:usage_alerts'' False False,
     sched ''security_retention'' ''40 3 * * *'' ''security:retention'' False False,
     sched ''admission_campaigns'' ''*/15 * * * *'' ''admissions:campaigns_run'' True True,
     sched ''support_sla_breach'' ''*/15 * * * *'' ''support:sla_breach'' False False,
     sched ''support_index_resync'' ''50 2 * * *'' ''support:index_resync'' False False,
     sched ''backup_nightly'' ''30 1 * * *'' ''backup:fanout'' False False,
     sched ''backup_weekly'' ''0 21 * * 6'' ''backup:weekly_fanout'' False False]"

subsection \<open>Cron fields\<close>

record Fields =
  cf_min :: "int list"
  cf_hour :: "int list"
  cf_dom :: "int list"
  cf_mon :: "int list"
  cf_dow :: "int list"
  cf_domStar :: bool
  cf_dowStar :: bool

text \<open>\<open>for (let v = a; v <= b; v += step)\<close>; the caller has refused a step below one.\<close>

function steps :: "int \<Rightarrow> int \<Rightarrow> int \<Rightarrow> int list" where
  "steps a b st = (if a > b \<or> st < 1 then [] else a # steps (a + st) b st)"
  by auto
termination by (relation "measure (\<lambda>(a, b, st). nat (b - a + 1))") auto

declare steps.simps [simp del]

text \<open>One part of a field: \<open>*\<close>, \<open>a\<close>, \<open>a-b\<close>, each with an optional \<open>/step\<close>; \<open>None\<close> where the code throws.\<close>

definition field_part :: "string \<Rightarrow> int \<Rightarrow> int \<Rightarrow> int list option" where
  "field_part part lo hi =
    (let pieces = js_split (CHR ''/'') part;
         range = hd pieces;
         stepS = (if length pieces > 1 then pieces ! 1 else '''');
         step = (if stepS = '''' then Some 1 else js_parseInt stepS);
         xy = js_split (CHR ''-'') range;
         a = (if range = ''*'' then Some lo else js_parseInt (hd xy));
         b = (if range = ''*'' then Some hi
              else if length xy > 1 then js_parseInt (xy ! 1)
              else if stepS \<noteq> '''' then Some hi else a)
     in case (a, b, step) of
          (Some a, Some b, Some step) \<Rightarrow>
            if step < 1 then None
            else Some (map (\<lambda>v. if v = 7 \<and> hi = 7 then 0 else v) (steps a b step))
        | _ \<Rightarrow> None)"

fun field_parts :: "string list \<Rightarrow> int \<Rightarrow> int \<Rightarrow> int list option" where
  "field_parts [] lo hi = Some []"
| "field_parts (p # ps) lo hi =
    (case field_part p lo hi of None \<Rightarrow> None
     | Some vs \<Rightarrow> map_option (\<lambda>r. vs @ r) (field_parts ps lo hi))"

definition field :: "string \<Rightarrow> int \<Rightarrow> int \<Rightarrow> int list option" where
  "field expr lo hi = field_parts (js_split (CHR '','') expr) lo hi"

text \<open>\<open>parse\<close>, with \<open>None\<close> for a throw; the memo table \<open>parsed\<close> only saves work.\<close>

definition parse :: "string \<Rightarrow> Fields option" where
  "parse spec =
    (case filter (\<lambda>w. w \<noteq> '''') (js_split (CHR '' '') (map (\<lambda>c. if is_space c then CHR '' '' else c) (js_trim spec))) of
       m # h # d # mo # w # _ \<Rightarrow>
         (case (field m 0 59, field h 0 23, field d 1 31, field mo 1 12, field w 0 7) of
            (Some mins, Some hours, Some days, Some months, Some wdays) \<Rightarrow>
              Some \<lparr>cf_min = mins, cf_hour = hours, cf_dom = days, cf_mon = months, cf_dow = wdays,
                cf_domStar = startsWith d ''*'', cf_dowStar = startsWith w ''*''\<rparr>
          | _ \<Rightarrow> None)
     | _ \<Rightarrow> None)"

definition matches :: "Fields \<Rightarrow> int \<Rightarrow> int \<Rightarrow> bool" where
  "matches f t off =
    (let d = t + off in
     if getUTCMinutes d \<notin> set (cf_min f) \<or> getUTCHours d \<notin> set (cf_hour f) \<or> getUTCMonth d + 1 \<notin> set (cf_mon f) then False
     else let domOk = getUTCDate d \<in> set (cf_dom f); dowOk = getUTCDay d \<in> set (cf_dow f)
          in if cf_domStar f \<or> cf_dowStar f then domOk \<and> dowOk else domOk \<or> dowOk)"

definition MAX_LOOKBACK_MIN :: int where "MAX_LOOKBACK_MIN = 8 * 24 * 60"

function due_loop :: "Fields \<Rightarrow> int \<Rightarrow> int \<Rightarrow> int \<Rightarrow> bool" where
  "due_loop f off t now = (if t > now then False else if matches f t off then True else due_loop f off (t + 60000) now)"
  by auto
termination by (relation "measure (\<lambda>(f, off, t, now). nat (now - t + 1))") auto

declare due_loop.simps [simp del]

text \<open>The first minute looked at: the one after \<open>last\<close>, at most eight days back.\<close>

definition due_start :: "int \<Rightarrow> int \<Rightarrow> int" where
  "due_start prior now =
    (let t = prior div 60000 * 60000 + 60000; stop = max t (now - MAX_LOOKBACK_MIN * 60000)
     in if t < stop then - (- stop div 60000) * 60000 else t)"

definition due :: "string \<Rightarrow> int option \<Rightarrow> int \<Rightarrow> int \<Rightarrow> bool option" where
  "due spec prior now off =
    (case parse spec of None \<Rightarrow> None
     | Some f \<Rightarrow> (case prior of None \<Rightarrow> Some True | Some l \<Rightarrow> Some (due_loop f off (due_start l now) now)))"

subsection \<open>The tick\<close>

record School =
  sh_id :: string
  sh_tz :: string

record TickResult =
  tr_checked :: nat
  tr_enqueued :: nat
  tr_started :: nat

type_synonym runs = "string \<rightharpoonup> int option"

text \<open>
  The loop of \<open>evaluate\<close> over the entries of one database: the jobs pushed, the names to record, the
  counters, and whether the loop ran to its end (a filter that throws leaves it, with the jobs
  pushed so far still in the list the tick shares).
\<close>

fun evaluate :: "(string \<Rightarrow> bool option) \<Rightarrow> runs \<Rightarrow> int \<Rightarrow> int \<Rightarrow> string option \<Rightarrow> Schedule list
    \<Rightarrow> (string \<times> string option) list \<times> string list \<times> TickResult \<times> bool" where
  "evaluate only prior now off inst [] = ([], [], \<lparr>tr_checked = 0, tr_enqueued = 0, tr_started = 0\<rparr>, True)"
| "evaluate only prior now off inst (s # ss) =
    (case (if sc_only s then only (sc_name s) else Some True) of
       None \<Rightarrow> ([], [], \<lparr>tr_checked = 0, tr_enqueued = 0, tr_started = 0\<rparr>, False)
     | Some False \<Rightarrow> evaluate only prior now off inst ss
     | Some True \<Rightarrow>
         let prev = prior (sc_name s);
             started = (prev = None);
             fire = (case prev of None \<Rightarrow> Some False | Some l \<Rightarrow> due (sc_spec s) l now off)
         in case fire of
              None \<Rightarrow> ([], [], \<lparr>tr_checked = 1, tr_enqueued = 0, tr_started = 0\<rparr>, False)
            | Some fire \<Rightarrow>
                let (jobs, rec, r, fin) = evaluate only prior now off inst ss
                in ((if fire then [(sc_kind s, inst)] else []) @ jobs,
                    (if fire \<or> started then [sc_name s] else []) @ rec,
                    \<lparr>tr_checked = tr_checked r + 1, tr_enqueued = tr_enqueued r + (if fire then 1 else 0),
                     tr_started = tr_started r + (if started then 1 else 0)\<rparr>,
                    fin))"

text \<open>\<open>INSERT ... ON CONFLICT (name) DO UPDATE\<close>, for the names recorded.\<close>

definition record_runs :: "string list \<Rightarrow> int \<Rightarrow> runs \<Rightarrow> runs" where
  "record_runs names now runs = fold (\<lambda>n m. m(n \<mapsto> Some now)) names runs"

text \<open>
  The whole tick: the global entries on the clock of the first school, then each school's; a
  school whose evaluation throws is skipped, and nothing is recorded for it.  The result is the
  jobs handed to \<open>enqueueMany\<close>, the two kinds of tables after the recording, and the counters.
  \<open>None\<close> is a tick that throws (an unreadable global entry).
\<close>

definition global_entries :: "Schedule list" where
  "global_entries = filter (\<lambda>s. \<not> sc_perInstitution s) SCHEDULES"

definition school_entries :: "Schedule list" where
  "school_entries = filter sc_perInstitution SCHEDULES"

fun tick_schools :: "(string \<Rightarrow> string \<Rightarrow> bool option) \<Rightarrow> (string \<Rightarrow> int \<Rightarrow> int) \<Rightarrow> (string \<Rightarrow> runs) \<Rightarrow> int \<Rightarrow> School list
    \<Rightarrow> (string \<times> string option) list \<times> (string \<times> string list) list" where
  "tick_schools only offset runs now [] = ([], [])"
| "tick_schools only offset runs now (i # rest) =
    (let (jobs, rec, _, fin) = evaluate (only (sh_id i)) (runs (sh_id i)) now (offset (sh_tz i) now) (Some (sh_id i)) school_entries;
         (jobs', recs) = tick_schools only offset runs now rest
     in (jobs @ jobs', (if fin then (sh_id i, rec) # recs else recs)))"

definition tick :: "(string \<Rightarrow> string \<Rightarrow> bool option) \<Rightarrow> (string \<Rightarrow> int \<Rightarrow> int) \<Rightarrow> School list \<Rightarrow> int
    \<Rightarrow> runs \<times> (string \<Rightarrow> runs) \<Rightarrow> ((string \<times> string option) list \<times> runs \<times> (string \<Rightarrow> runs)) option" where
  "tick only offset schools now tables =
    (case tables of (control, runs) \<Rightarrow>
     let globalTz = (case schools of [] \<Rightarrow> ''UTC'' | s # _ \<Rightarrow> sh_tz s);
         (gjobs, grec, _, gfin) = evaluate (\<lambda>_. Some True) control now (offset globalTz now) None global_entries;
         (sjobs, srecs) = tick_schools only offset runs now schools
     in if \<not> gfin then None
        else Some (gjobs @ sjobs, record_runs grec now control,
          fold (\<lambda>(i, rec) m. m(i := record_runs rec now (m i))) srecs runs))"

subsection \<open>When an entry is due\<close>

lemma due_loop_iff:
  "due_loop f off t now \<longleftrightarrow> (\<exists>k::nat. t + 60000 * int k \<le> now \<and> matches f (t + 60000 * int k) off)"
proof (induction f off t now rule: due_loop.induct)
  case (1 f off t now)
  show ?case
  proof (cases "t > now \<or> matches f t off")
    case True
    then show ?thesis by (subst due_loop.simps) (auto intro: exI [of _ 0])
  next
    case False
    then have "due_loop f off t now = due_loop f off (t + 60000) now" by (subst due_loop.simps) simp
    also have "\<dots> \<longleftrightarrow> (\<exists>k::nat. t + 60000 + 60000 * int k \<le> now \<and> matches f (t + 60000 + 60000 * int k) off)"
      using 1 False by simp
    also have "\<dots> \<longleftrightarrow> (\<exists>k::nat. t + 60000 * int (Suc k) \<le> now \<and> matches f (t + 60000 * int (Suc k)) off)"
      by (simp add: algebra_simps)
    also have "\<dots> \<longleftrightarrow> (\<exists>k::nat. t + 60000 * int k \<le> now \<and> matches f (t + 60000 * int k) off)"
    proof
      assume "\<exists>k::nat. t + 60000 * int k \<le> now \<and> matches f (t + 60000 * int k) off"
      then obtain k where k: "t + 60000 * int k \<le> now" "matches f (t + 60000 * int k) off" by blast
      with False have "k \<noteq> 0" by (cases k) auto
      with k show "\<exists>k::nat. t + 60000 * int (Suc k) \<le> now \<and> matches f (t + 60000 * int (Suc k)) off"
        by (metis not0_implies_Suc)
    qed blast
    finally show ?thesis .
  qed
qed

lemma due_start_minute: "60000 dvd due_start l now"
  by (simp add: due_start_def Let_def)

lemma round_up: "s \<le> - (- s div 60000) * 60000" for s :: int
proof -
  have "- s div 60000 * 60000 \<le> - s" using div_mult_mod_eq [of "- s" 60000] pos_mod_sign [of 60000 "- s"] by linarith
  then show ?thesis by simp
qed

lemma due_start_ge: "due_start l now \<ge> max (l div 60000 * 60000 + 60000) (now - MAX_LOOKBACK_MIN * 60000)"
  unfolding due_start_def Let_def using round_up by (simp only: split: if_split) simp

lemma due_start_after: "l < due_start l now"
proof -
  have "l < l div 60000 * 60000 + 60000"
    using div_mult_mod_eq [of l 60000] pos_mod_bound [of 60000 l] by linarith
  with due_start_ge [of l now] show ?thesis by simp
qed

text \<open>
  The first minute after \<open>l\<close> that is no more than the look-back away.
\<close>
lemma due_start_least:
  assumes "60000 dvd t" "l < t" "now - MAX_LOOKBACK_MIN * 60000 \<le> t"
  shows "due_start l now \<le> t"
proof -
  from assms(1) obtain m where m: "t = 60000 * m" by blast
  with assms(2) have "l div 60000 < m" by (simp add: div_less_iff_less_mult)
  then have "l div 60000 * 60000 + 60000 \<le> t" using m by simp
  moreover have "- (- s div 60000) * 60000 \<le> t" if "s \<le> t" for s
  proof -
    have "- m \<le> - s div 60000" using that m by (simp add: zdiv_mono1 [of "- (60000 * m)" "- s" 60000, simplified])
    then show ?thesis using m by simp
  qed
  ultimately have both: "l div 60000 * 60000 + 60000 \<le> t" "\<And>s. s \<le> t \<Longrightarrow> - (- s div 60000) * 60000 \<le> t" by blast+
  have "max (l div 60000 * 60000 + 60000) (now - MAX_LOOKBACK_MIN * 60000) \<le> t" using both(1) assms(3) by simp
  from both(2) [OF this] both(1) show ?thesis unfolding due_start_def Let_def by (simp only: split: if_split) blast
qed

lemma due_start_window: "due_start l now \<ge> now - MAX_LOOKBACK_MIN * 60000"
  using due_start_ge [of now l] due_start_ge [of l now] by simp

text \<open>
  C19. An entry is due exactly when a whole minute after its last run, up to now and within the
  eight days looked back, matches its expression: no occurrence is missed while the worker is
  down for less than that, and nothing fires early.
\<close>
theorem due_iff_occurrence:
  assumes "parse spec = Some f"
  shows "due spec (Some l) now off = Some True \<longleftrightarrow>
    (\<exists>t. 60000 dvd t \<and> l < t \<and> now - MAX_LOOKBACK_MIN * 60000 \<le> t \<and> t \<le> now \<and> matches f t off)"
proof
  assume "due spec (Some l) now off = Some True"
  then obtain k :: nat where k: "due_start l now + 60000 * int k \<le> now" "matches f (due_start l now + 60000 * int k) off"
    by (auto simp: due_def assms due_loop_iff)
  have "60000 dvd due_start l now + 60000 * int k" using due_start_minute [of l now] by (simp add: dvd_add)
  moreover have "l < due_start l now + 60000 * int k" using due_start_after [of l now] by simp
  moreover have "now - MAX_LOOKBACK_MIN * 60000 \<le> due_start l now + 60000 * int k" using due_start_window [of now l] by simp
  ultimately show "\<exists>t. 60000 dvd t \<and> l < t \<and> now - MAX_LOOKBACK_MIN * 60000 \<le> t \<and> t \<le> now \<and> matches f t off"
    using k by blast
next
  assume "\<exists>t. 60000 dvd t \<and> l < t \<and> now - MAX_LOOKBACK_MIN * 60000 \<le> t \<and> t \<le> now \<and> matches f t off"
  then obtain t where t: "60000 dvd t" "l < t" "now - MAX_LOOKBACK_MIN * 60000 \<le> t" "t \<le> now" "matches f t off" by blast
  have "60000 dvd t - due_start l now" using t(1) due_start_minute by (simp add: dvd_diff)
  then obtain m where "t - due_start l now = 60000 * m" by blast
  moreover have "0 \<le> t - due_start l now" using due_start_least [OF t(1-3)] by simp
  ultimately have "t = due_start l now + 60000 * int (nat m)" by simp
  with t(4,5) have "due_loop f off (due_start l now) now" unfolding due_loop_iff by metis
  then show "due spec (Some l) now off = Some True" by (simp add: due_def assms)
qed

text \<open>
  Monday 20 November 2023, 07:00 in India: the weekly digest, last run the Monday before.
\<close>
theorem due_iff_occurrence_witness:
  "due ''0 7 * * 1'' (Some 1699839000000) 1700443830000 19800000 = Some True"
proof -
  let ?f = "the (parse ''0 7 * * 1'')"
  have p: "parse ''0 7 * * 1'' = Some ?f" by code_simp
  have "matches ?f 1700443800000 19800000" by code_simp
  then show ?thesis
    unfolding due_iff_occurrence [OF p] by (intro exI [of _ 1700443800000]) (simp add: MAX_LOOKBACK_MIN_def)
qed

subsection \<open>The tick\<close>

lemma schedules_parse: "list_all (\<lambda>s. parse (sc_spec s) \<noteq> None) SCHEDULES"
  by code_simp

lemma schedules_distinct: "distinct (map sc_name SCHEDULES)"
  by code_simp

text \<open>The databases answer every filter.\<close>

definition answers :: "(string \<Rightarrow> bool option) \<Rightarrow> bool" where
  "answers only \<longleftrightarrow> (\<forall>n. only n \<noteq> None)"

definition passes :: "(string \<Rightarrow> bool option) \<Rightarrow> Schedule \<Rightarrow> bool" where
  "passes only s \<longleftrightarrow> \<not> sc_only s \<or> only (sc_name s) = Some True"

definition fires :: "runs \<Rightarrow> int \<Rightarrow> int \<Rightarrow> Schedule \<Rightarrow> bool" where
  "fires runs now off s \<longleftrightarrow> (\<exists>l. runs (sc_name s) = Some l \<and> due (sc_spec s) l now off = Some True)"

lemma due_total: "parse spec \<noteq> None \<Longrightarrow> due spec l now off \<noteq> None"
  by (auto simp: due_def split: option.splits)

lemma evaluate_closed:
  assumes "answers only" "list_all (\<lambda>s. parse (sc_spec s) \<noteq> None) ss"
  shows "\<exists>r. evaluate only runs now off inst ss =
    (map (\<lambda>s. (sc_kind s, inst)) (filter (\<lambda>s. passes only s \<and> fires runs now off s) ss),
     map sc_name (filter (\<lambda>s. passes only s \<and> (fires runs now off s \<or> runs (sc_name s) = None)) ss), r, True)"
  using assms(2)
proof (induction ss)
  case (Cons s ss)
  then obtain r where r: "evaluate only runs now off inst ss =
    (map (\<lambda>s. (sc_kind s, inst)) (filter (\<lambda>s. passes only s \<and> fires runs now off s) ss),
     map sc_name (filter (\<lambda>s. passes only s \<and> (fires runs now off s \<or> runs (sc_name s) = None)) ss), r, True)" by auto
  show ?case
  proof (cases "passes only s")
    case False
    with assms(1) have "sc_only s" "only (sc_name s) = Some False"
      unfolding passes_def answers_def by (metis (full_types) not_None_eq)+
    with r False show ?thesis by simp
  next
    case True
    then have p: "(if sc_only s then only (sc_name s) else Some True) = Some True" by (simp add: passes_def)
    show ?thesis
    proof (cases "runs (sc_name s)")
      case None
      with r True p show ?thesis by (simp add: fires_def Let_def)
    next
      case (Some l)
      obtain v where v: "due (sc_spec s) l now off = Some v" using due_total Cons.prems by fastforce
      then have "fires runs now off s \<longleftrightarrow> v" by (simp add: fires_def Some)
      with r True p Some v show ?thesis by (simp add: Let_def)
    qed
  qed
qed simp

lemma record_runs_apply: "record_runs names now runs n = (if n \<in> set names then Some (Some now) else runs n)"
  unfolding record_runs_def by (induction names arbitrary: runs) auto

lemma quiet_minute:
  assumes "parse (sc_spec s) \<noteq> None" "now div 60000 = now' div 60000" "now \<le> now'"
    "\<not> fires runs now off s \<or> recorded"
  shows "\<not> fires (\<lambda>n. if n = sc_name s \<and> recorded then Some (Some now) else runs n) now' off s"
proof
  obtain f where f: "parse (sc_spec s) = Some f" using assms(1) by auto
  have least: "t \<le> now" if "60000 dvd t" "t \<le> now'" for t
  proof -
    from that(1) obtain m where m: "t = 60000 * m" by blast
    with that(2) have "m \<le> now' div 60000" by (simp add: zdiv_mono1 [of "60000 * m" now' 60000, simplified])
    then have "t \<le> 60000 * (now div 60000)" using m assms(2) by simp
    also have "\<dots> \<le> now" using div_mult_mod_eq [of now 60000] pos_mod_sign [of 60000 now] by linarith
    finally show ?thesis .
  qed
  assume fires': "fires (\<lambda>n. if n = sc_name s \<and> recorded then Some (Some now) else runs n) now' off s"
  show False
  proof (cases recorded)
    case True
    with fires' have "due (sc_spec s) (Some now) now' off = Some True" by (simp add: fires_def)
    then obtain t where "60000 dvd t" "now < t" "t \<le> now'" unfolding due_iff_occurrence [OF f] by blast
    with least [of t] show False by linarith
  next
    case False
    with fires' obtain l where l: "runs (sc_name s) = Some l" "due (sc_spec s) l now' off = Some True"
      by (auto simp: fires_def)
    have "due (sc_spec s) l now off = Some True"
    proof (cases l)
      case None
      then show ?thesis by (simp add: due_def f)
    next
      case (Some l')
      from l(2) obtain t where t: "60000 dvd t" "l' < t" "now' - MAX_LOOKBACK_MIN * 60000 \<le> t" "t \<le> now'" "matches f t off"
        unfolding Some due_iff_occurrence [OF f] by blast
      with least [of t] assms(3) show ?thesis
        unfolding Some due_iff_occurrence [OF f] by (intro exI [of _ t]) linarith
    qed
    with l(1) assms(4) False show False by (simp add: fires_def)
  qed
qed

text \<open>The names an evaluation records, and the tables after it.\<close>

definition noted :: "(string \<Rightarrow> bool option) \<Rightarrow> runs \<Rightarrow> int \<Rightarrow> int \<Rightarrow> Schedule list \<Rightarrow> string list" where
  "noted only runs now off ss = map sc_name (filter (\<lambda>s. passes only s \<and> (fires runs now off s \<or> runs (sc_name s) = None)) ss)"

lemma noted_iff:
  assumes "distinct (map sc_name ss)" "s \<in> set ss"
  shows "sc_name s \<in> set (noted only runs now off ss) \<longleftrightarrow> passes only s \<and> (fires runs now off s \<or> runs (sc_name s) = None)"
  using assms by (auto simp: noted_def distinct_map inj_on_def)

lemma quiet_after:
  assumes "distinct (map sc_name ss)" "s \<in> set ss" "parse (sc_spec s) \<noteq> None" "passes only s"
    "now div 60000 = now' div 60000" "now \<le> now'"
  shows "\<not> fires (record_runs (noted only runs now off ss) now runs) now' off s"
proof -
  let ?rec = "fires runs now off s \<or> runs (sc_name s) = None"
  have "record_runs (noted only runs now off ss) now runs (sc_name s) = (if ?rec then Some (Some now) else runs (sc_name s))"
    using noted_iff [OF assms(1,2)] assms(4) by (simp add: record_runs_apply)
  moreover have "\<not> fires (\<lambda>n. if n = sc_name s \<and> ?rec then Some (Some now) else runs n) now' off s"
    using quiet_minute [OF assms(3,5,6), of runs off ?rec] by blast
  ultimately show ?thesis by (simp add: fires_def)
qed

lemma entries_parse:
  "list_all (\<lambda>s. parse (sc_spec s) \<noteq> None) global_entries" "list_all (\<lambda>s. parse (sc_spec s) \<noteq> None) school_entries"
  "distinct (map sc_name global_entries)" "distinct (map sc_name school_entries)"
  using schedules_parse schedules_distinct
  by (auto simp: list_all_iff global_entries_def school_entries_def distinct_map_filter)

lemma tick_schools_closed:
  assumes "\<And>i. answers (only i)"
  shows "tick_schools only offset runs now is =
    (concat (map (\<lambda>i. map (\<lambda>s. (sc_kind s, Some (sh_id i)))
        (filter (\<lambda>s. passes (only (sh_id i)) s \<and> fires (runs (sh_id i)) now (offset (sh_tz i) now) s) school_entries)) is),
     map (\<lambda>i. (sh_id i, noted (only (sh_id i)) (runs (sh_id i)) now (offset (sh_tz i) now) school_entries)) is)"
proof (induction "is")
  case (Cons i rest)
  from evaluate_closed [OF assms entries_parse(2), of "sh_id i" "runs (sh_id i)" now "offset (sh_tz i) now" "Some (sh_id i)"] Cons
  show ?case by (auto simp: noted_def)
qed simp

lemma fold_update_other: "i \<notin> fst ` set recs \<Longrightarrow> fold (\<lambda>(i, rec) m. m(i := record_runs rec now (m i))) recs m i = m i"
  by (induction recs arbitrary: m) auto

lemma fold_update_own:
  "distinct (map fst recs) \<Longrightarrow> (i, rec) \<in> set recs \<Longrightarrow>
   fold (\<lambda>(i, rec) m. m(i := record_runs rec now (m i))) recs m i = record_runs rec now (m i)"
proof (induction recs arbitrary: m)
  case (Cons x recs)
  obtain j r where x: "x = (j, r)" by (cases x)
  show ?case
  proof (cases "i = j")
    case True
    with Cons.prems x have "rec = r" "i \<notin> fst ` set recs" by (force simp: image_iff)+
    with fold_update_other [of i recs now "m(j := record_runs r now (m j))"] x True show ?thesis
      by (simp del: fun_upd_apply add: fun_upd_same)
  next
    case False
    with Cons.prems x Cons.IH [of "m(j := record_runs r now (m j))"] show ?thesis by simp
  qed
qed simp



text \<open>
  First sight records a baseline without running: an entry with no row is not enqueued by
  the tick that first sees it, and from then on its row is there.
\<close>
theorem first_sight_is_baseline:
  assumes "answers only" "s \<in> set school_entries" "passes only s" "runs (sc_name s) = None"
    "evaluate only runs now off inst school_entries = (jobs, names, r, fin)"
  shows "fin \<and> record_runs names now runs (sc_name s) = Some (Some now)
    \<and> jobs = map (\<lambda>e. (sc_kind e, inst)) (filter (\<lambda>e. passes only e \<and> fires runs now off e) school_entries)
    \<and> \<not> fires runs now off s"
proof -
  from evaluate_closed [OF assms(1) entries_parse(2), of runs now off inst] assms(5)
  have c: "fin" "jobs = map (\<lambda>e. (sc_kind e, inst)) (filter (\<lambda>e. passes only e \<and> fires runs now off e) school_entries)"
    "names = noted only runs now off school_entries" by (auto simp: noted_def)
  with noted_iff [OF entries_parse(4) assms(2), of only runs now off] assms(3,4) show ?thesis
    by (simp add: record_runs_apply fires_def)
qed

theorem first_sight_is_baseline_witness:
  "\<exists>jobs names r fin. evaluate (\<lambda>_. Some True) Map.empty 1700008200000 0 (Some ''a'') school_entries = (jobs, names, r, fin)
     \<and> record_runs names 1700008200000 Map.empty ''attendance_rollup'' = Some (Some 1700008200000)"
proof -
  obtain jobs names r fin where e: "evaluate (\<lambda>_. Some True) Map.empty 1700008200000 0 (Some ''a'') school_entries = (jobs, names, r, fin)"
    by (metis prod_cases4)
  have "hd school_entries \<in> set school_entries" "sc_name (hd school_entries) = ''attendance_rollup''"
    "\<not> sc_only (hd school_entries)"
    by (simp_all add: school_entries_def SCHEDULES_def sched_def)
  with first_sight_is_baseline [OF _ _ _ _ e, of "hd school_entries"] e show ?thesis
    by (auto simp: answers_def passes_def)
qed

text \<open>
  The weekly backup of a school in India falls due at 21:00 on its own clock (Saturday 15:30
  UTC), not at 21:00 UTC: the clock is that of the oldest school.
\<close>
theorem backup_weekly_on_school_clock:
  "''0 21 * * 6'' = sc_spec (last SCHEDULES) \<and> sc_name (last SCHEDULES) = ''backup_weekly''
   \<and> due ''0 21 * * 6'' (Some 1700319540000) 1700321400000 19800000 = Some True
   \<and> (getUTCDay 1700321400000, getUTCHours 1700321400000, getUTCMinutes 1700321400000) = (6, 15, 30)
   \<and> due ''0 21 * * 6'' (Some 1700341140000) 1700341200000 19800000 = Some False"
proof (intro conjI)
  show "''0 21 * * 6'' = sc_spec (last SCHEDULES)" "sc_name (last SCHEDULES) = ''backup_weekly''"
    by (simp_all add: SCHEDULES_def sched_def)
qed code_simp+

end
