(* ===== verification/Money.thy ===== *)
theory Money
  imports Prelude
begin

text \<open>
  Money and dates of the finance routes, \<open>worker/src/routes/fees/common.ts\<close>: reading integer paise
  from a request, rendering amounts (grouped in the Indian way, with two decimals, in words), the
  financial year of a date, and the freshness of a sign-in that moves money.  Amounts are
  mathematical integers: \<open>paise\<close> refuses anything beyond \<open>2^53 - 1\<close>.
\<close>

subsection \<open>Reading an amount\<close>

text \<open>A value of a JSON request body.\<close>

datatype JsVal = JUndefined | JNull | JNumber rat | JString string | JOther

definition MAX_SAFE :: int where "MAX_SAFE = 9007199254740991"

definition safe_int :: "rat \<Rightarrow> int option" where
  "safe_int q = (let n = \<lfloor>q\<rfloor> in if of_int n = q \<and> \<bar>n\<bar> \<le> MAX_SAFE then Some n else None)"

text \<open>\<open>/^-?\d+$/\<close> on the trimmed text, then \<open>Number\<close>.\<close>

definition int_text :: "string \<Rightarrow> int option" where
  "int_text s =
    (let t = js_trim s; ds = (if startsWith t ''-'' then tl t else t)
     in if ds \<noteq> [] \<and> list_all is_digit ds then Some ((if startsWith t ''-'' then - 1 else 1) * digits_value ds) else None)"

text \<open>\<open>None\<close> is the 400 answer "must be a whole number of paise".\<close>

definition paise :: "JsVal \<Rightarrow> int option" where
  "paise v =
    (case v of JUndefined \<Rightarrow> Some 0 | JNull \<Rightarrow> Some 0
     | JString s \<Rightarrow> if s = '''' then Some 0 else Option.bind (int_text s) (\<lambda>n. safe_int (of_int n))
     | JNumber q \<Rightarrow> safe_int q
     | JOther \<Rightarrow> None)"

definition optStr :: "string \<Rightarrow> string option" where
  "optStr v = (let s = js_trim v in if s = '''' then None else Some s)"

subsection \<open>Dates\<close>

definition IST_OFFSET_MS :: int where "IST_OFFSET_MS = (5 * 60 + 30) * 60 * 1000"

text \<open>\<open>toISOString ().slice (0, 10)\<close>, for the years 0 to 9999.\<close>

definition ymd :: "int \<Rightarrow> string" where
  "ymd t = padStart 4 (CHR ''0'') (js_int (getUTCFullYear t)) @ ''-'' @ padStart 2 (CHR ''0'') (js_int (getUTCMonth t + 1))
    @ ''-'' @ padStart 2 (CHR ''0'') (js_int (getUTCDate t))"

definition today :: "int \<Rightarrow> string" where
  "today now = ymd (now + IST_OFFSET_MS)"

text \<open>\<open>Number\<close> of a slice of digits; what it reads of other text does not matter here.\<close>

definition slice_number :: "nat \<Rightarrow> nat \<Rightarrow> string \<Rightarrow> int" where
  "slice_number a b s = digits_value (take (b - a) (drop a s))"

definition financialYear :: "string \<Rightarrow> string" where
  "financialYear on =
    (let y0 = slice_number 0 4 on; m = slice_number 5 7 on; y = (if m < 4 then y0 - 1 else y0)
     in js_int y @ ''-'' @ padStart 2 (CHR ''0'') (js_int ((y + 1) mod 100)))"

text \<open>\<open>requireFresh\<close>: whether an action that moves money may go on.  \<open>None\<close> is a session row not found.\<close>

record Session =
  ss_created_at :: int
  ss_via :: string

definition FRESH_FOR_MS :: int where "FRESH_FOR_MS = 15 * 60 * 1000"

definition requireFresh :: "bool \<Rightarrow> Session option \<Rightarrow> int option \<Rightarrow> int \<Rightarrow> bool" where
  "requireFresh platformAdmin s reauth_ok now =
    (if platformAdmin then True
     else case s of None \<Rightarrow> True
     | Some s \<Rightarrow>
         let dayCode = (ss_via s = ''day_code'' \<or> ss_via s = ''daycode'');
             last_ok = (if dayCode then ss_created_at s
                        else case reauth_ok of Some t \<Rightarrow> if t \<ge> ss_created_at s then max (ss_created_at s) t else ss_created_at s
                             | None \<Rightarrow> ss_created_at s)
         in \<not> (dayCode \<or> now - last_ok > FRESH_FOR_MS))"

subsection \<open>Rendering\<close>

text \<open>The \<open>while\<close> loop of \<open>indianGroup\<close>: pairs from the right, the first may be a single digit.\<close>

function pairs_of :: "string \<Rightarrow> string list" where
  "pairs_of h = (if length h > 2 then pairs_of (take (length h - 2) h) @ [drop (length h - 2) h]
                 else if h = [] then [] else [h])"
  by auto
termination by (relation "measure length") auto

declare pairs_of.simps [simp del]

definition indianGroup :: "int \<Rightarrow> string" where
  "indianGroup n =
    (let s = js_int \<bar>n\<bar>;
         t = (if length s > 3
              then js_join '','' (pairs_of (take (length s - 3) s)) @ '','' @ drop (length s - 3) s
              else s)
     in (if n < 0 then ''-'' else '''') @ t)"

definition rupeesFixed :: "int \<Rightarrow> string" where
  "rupeesFixed p = (if p < 0 then ''-'' else '''') @ js_int (\<bar>p\<bar> div 100) @ ''.'' @ padStart 2 (CHR ''0'') (js_int (\<bar>p\<bar> mod 100))"

definition ONES :: "string list" where
  "ONES = ['''', ''One'', ''Two'', ''Three'', ''Four'', ''Five'', ''Six'', ''Seven'', ''Eight'', ''Nine'', ''Ten'', ''Eleven'',
    ''Twelve'', ''Thirteen'', ''Fourteen'', ''Fifteen'', ''Sixteen'', ''Seventeen'', ''Eighteen'', ''Nineteen'']"

definition TENS :: "string list" where
  "TENS = ['''', '''', ''Twenty'', ''Thirty'', ''Forty'', ''Fifty'', ''Sixty'', ''Seventy'', ''Eighty'', ''Ninety'']"

definition two :: "nat \<Rightarrow> string" where
  "two n = (if n = 0 then '''' else if n < 20 then ONES ! n
            else TENS ! (n div 10) @ (if n mod 10 \<noteq> 0 then '' '' @ ONES ! (n mod 10) else ''''))"

definition three :: "nat \<Rightarrow> string" where
  "three n =
    (let h = n div 100; t = two (n mod 100)
     in js_join '' '' ((if h \<noteq> 0 then [ONES ! h @ '' Hundred''] else []) @ (if t \<noteq> '''' then [t] else [])))"

definition indianWords :: "nat \<Rightarrow> string" where
  "indianWords n =
    (if n \<ge> 1000000000 then js_nat n
     else let crore = n div 10000000; n1 = n mod 10000000; lakh = n1 div 100000; n2 = n1 mod 100000;
              th = n2 div 1000; rest = three (n2 mod 1000)
          in js_join '' ''
            ((if crore \<noteq> 0 then [three crore @ '' Crore''] else []) @ (if lakh \<noteq> 0 then [two lakh @ '' Lakh''] else [])
             @ (if th \<noteq> 0 then [two th @ '' Thousand''] else []) @ (if rest \<noteq> '''' then [rest] else [])))"

definition words_of_paise :: "nat \<Rightarrow> string" where
  "words_of_paise p =
    (let rupees = p div 100; rem = p mod 100
     in (if rupees = 0 then ''Zero'' else indianWords rupees) @ '' Rupees''
       @ (if rem > 0 then '' and '' @ indianWords rem @ '' Paise'' else '''') @ '' Only'')"

definition rupeesInWords :: "int \<Rightarrow> string" where
  "rupeesInWords p = (if p < 0 then ''Minus '' @ words_of_paise (nat (- p)) else words_of_paise (nat p))"

subsection \<open>Grouping keeps the digits\<close>

lemma concat_pairs_of: "concat (pairs_of h) = h"
  by (induction h rule: pairs_of.induct) (subst pairs_of.simps, auto)

lemma filter_join: "filter (\<lambda>c. c \<noteq> CHR '','') (js_join '','' xs) = filter (\<lambda>c. c \<noteq> CHR '','') (concat xs)"
  by (induction "'','' :: string" xs rule: js_join.induct) auto

lemma no_comma_js_int: "filter (\<lambda>c. c \<noteq> CHR '','') (js_int n) = js_int n"
proof (rule filter_True, rule ballI)
  fix c assume "c \<in> set (js_int n)"
  then show "c \<noteq> CHR '',''" using js_int_chars by (fastforce simp: is_digit_def less_eq_char_def)
qed

lemma ungroup: "filter (\<lambda>c. c \<noteq> CHR '','') (indianGroup n) = js_int n"
proof -
  let ?s = "js_int \<bar>n\<bar>" and ?P = "\<lambda>c. c \<noteq> CHR '',''"
  have parts: "filter ?P (js_join '','' (pairs_of (take k ?s)) @ '','' @ drop k ?s) = ?s" for k
  proof -
    have "filter ?P (js_join '','' (pairs_of (take k ?s)) @ '','' @ drop k ?s) = filter ?P (take k ?s @ drop k ?s)"
      unfolding filter_append filter_join concat_pairs_of by simp
    also have "\<dots> = ?s" by (simp add: no_comma_js_int)
    finally show ?thesis .
  qed
  have "js_int n = (if n < 0 then ''-'' else '''') @ ?s" by (simp add: js_int_def)
  then show ?thesis
    using parts no_comma_js_int [of "\<bar>n\<bar>"] by (simp add: indianGroup_def Let_def del: append.simps)
qed

text \<open>
  Grouped amounts are unambiguous: taking the commas out of \<open>indianGroup n\<close> gives back the
  decimal digits of \<open>n\<close>, so two different amounts never print alike.
\<close>
theorem indianGroup_roundtrip:
  "filter (\<lambda>c. c \<noteq> CHR '','') (indianGroup n) = js_int n \<and> (indianGroup n = indianGroup m \<longleftrightarrow> n = m)"
  using ungroup [of n] ungroup [of m] js_int_inj by metis

subsection \<open>Two decimals\<close>

lemma of_char_digit: "d < 10 \<Longrightarrow> (of_char (digit_char d) :: int) = int d + 48"
proof -
  assume "d < 10"
  then have "(of_char (digit_char d) :: nat) = 48 + d" by (simp add: digit_char_def)
  then show ?thesis using of_nat_of_char [of "digit_char d", where 'a = int] by simp
qed

lemma js_int_nonneg: "0 \<le> i \<Longrightarrow> js_int i = js_nat (nat i)"
  by (simp add: js_int_def)

lemma js_nat_upto9: "n < 10 \<Longrightarrow> js_nat n = [digit_char n]"
  by (simp add: js_nat.simps [of n])

lemma padStart_two_inj:
  assumes "m < 100" "n < 100" "padStart 2 (CHR ''0'') (js_nat m) = padStart 2 (CHR ''0'') (js_nat n)"
  shows "m = n"
proof -
  have val: "padStart 2 (CHR ''0'') (js_nat k) = [digit_char (k div 10), digit_char (k mod 10)]" if "k < 100" for k
  proof (cases "k < 10")
    case True
    then show ?thesis by (simp add: padStart_def js_nat_upto9 digit_chars)
  next
    case False
    with that have "js_nat k = [digit_char (k div 10), digit_char (k mod 10)]"
      by (subst js_nat.simps) (simp add: js_nat_upto9)
    then show ?thesis by (simp add: padStart_def)
  qed
  from assms val have "digit_char (m div 10) = digit_char (n div 10)" "digit_char (m mod 10) = digit_char (n mod 10)" by auto
  with assms(1,2) have "m div 10 = n div 10" "m mod 10 = n mod 10" by (auto intro: digit_char_inj)
  then show ?thesis by (metis div_mult_mod_eq)
qed

lemma dot_notin_js_nat: "CHR ''.'' \<notin> set (js_nat n)"
  using js_nat_digits by (fastforce simp: is_digit_def less_eq_char_def)

lemma split_at_dot:
  assumes "a @ ''.'' @ x = b @ ''.'' @ y" "CHR ''.'' \<notin> set a" "CHR ''.'' \<notin> set b"
  shows "a = b \<and> x = y"
proof -
  have "takeWhile (\<lambda>c. c \<noteq> CHR ''.'') (u @ ''.'' @ v) = u" if "CHR ''.'' \<notin> set u" for u v
    using that by (induction u) auto
  with assms have "a = b" by metis
  with assms(1) show ?thesis by simp
qed

text \<open>
  The two-decimal rendering of a receipt is exact: it determines the amount, paise included.
\<close>
theorem rupeesFixed_inj: "rupeesFixed a = rupeesFixed b \<longleftrightarrow> a = b"
proof
  assume eq: "rupeesFixed a = rupeesFixed b"
  let ?h = "\<lambda>a :: int. (if a < 0 then ''-'' else '''') @ js_nat (nat (\<bar>a\<bar> div 100))"
  have shape: "rupeesFixed a = ?h a @ ''.'' @ padStart 2 (CHR ''0'') (js_nat (nat (\<bar>a\<bar> mod 100)))" for a
    by (simp add: rupeesFixed_def js_int_nonneg pos_imp_zdiv_nonneg_iff)
  have nodot: "CHR ''.'' \<notin> set (?h a)" for a using dot_notin_js_nat by simp
  let ?t = "\<lambda>a :: int. padStart 2 (CHR ''0'') (js_nat (nat (\<bar>a\<bar> mod 100)))"
  have "?h a @ ''.'' @ ?t a = ?h b @ ''.'' @ ?t b" using eq by (simp only: shape)
  note parts = split_at_dot [OF this nodot nodot]
  have h: "?h a = ?h b" and t: "?t a = ?t b" using parts by (rule conjunct1, rule conjunct2)
  from t have "nat (\<bar>a\<bar> mod 100) = nat (\<bar>b\<bar> mod 100)" by (intro padStart_two_inj) auto
  then have m: "\<bar>a\<bar> mod 100 = \<bar>b\<bar> mod 100"
    using eq_nat_nat_iff [of "\<bar>a\<bar> mod 100" "\<bar>b\<bar> mod 100"] by (simp only: pos_mod_sign [of 100])
  have digit: "js_nat k \<noteq> CHR ''-'' # x" for k x
  proof
    assume "js_nat k = CHR ''-'' # x"
    then have "is_digit (CHR ''-'')" by (metis js_nat_digits list.set_intros(1))
    then show False by (simp add: is_digit_def less_eq_char_def)
  qed
  from h have s: "(a < 0) = (b < 0)" and "js_nat (nat (\<bar>a\<bar> div 100)) = js_nat (nat (\<bar>b\<bar> div 100))"
    using digit digit [symmetric] by (auto split: if_splits)
  then have "nat (\<bar>a\<bar> div 100) = nat (\<bar>b\<bar> div 100)" by (simp add: js_nat_inj)
  then have "\<bar>a\<bar> div 100 = \<bar>b\<bar> div 100"
    using eq_nat_nat_iff [of "\<bar>a\<bar> div 100" "\<bar>b\<bar> div 100"] by (simp add: pos_imp_zdiv_nonneg_iff)
  with m have "\<bar>a\<bar> = \<bar>b\<bar>" by (metis div_mult_mod_eq)
  with s show "a = b" by linarith
qed simp

subsection \<open>Freshness\<close>

text \<open>
  A password typed in the last quarter of an hour is what opens a money action: except for
  the platform operator and a session with no row, a day-code session never passes, and another
  passes exactly when the sign-in or a later confirmation of the password is that recent.
\<close>
theorem requireFresh_iff:
  "requireFresh False (Some s) reauth now \<longleftrightarrow>
     ss_via s \<notin> {''day_code'', ''daycode''}
   \<and> (now - ss_created_at s \<le> FRESH_FOR_MS \<or> (\<exists>t. reauth = Some t \<and> ss_created_at s \<le> t \<and> now - t \<le> FRESH_FOR_MS))"
  by (auto simp: requireFresh_def Let_def max_def split: option.splits)

end
