(* ===== verification/Numbering.thy ===== *)
theory Numbering
  imports Money
begin

text \<open>
  The gapless receipt and invoice series, \<open>worker/src/routes/fees/numbering.ts\<close>.  D1 has no row
  locks: a number is computed from a read, and the batch that writes the document carries
  statements that fail when the counter has moved.  The statements are data (\<open>NumStmt\<close>), executed
  in order by \<open>exec\<close>; a statement that violates a constraint makes the whole batch fail.  A cashier
  is a read (\<open>nextNumbers\<close>) and, at any later time, the batch; \<open>series\<close> interleaves any number of them.
\<close>

subsection \<open>Rendering\<close>

text \<open>\<open>s.split (p).join (r)\<close> for a separator that is not empty.\<close>

function replace_all :: "string \<Rightarrow> string \<Rightarrow> string \<Rightarrow> string" where
  "replace_all p r s =
    (case s of [] \<Rightarrow> []
     | c # cs \<Rightarrow> if p \<noteq> [] \<and> startsWith s p then r @ replace_all p r (drop (length p) s) else c # replace_all p r cs)"
  by auto
termination by (relation "measure (\<lambda>(p, r, s). length s)") auto

declare replace_all.simps [simp del]

definition renderNumber :: "string \<Rightarrow> string \<Rightarrow> string \<Rightarrow> int \<Rightarrow> nat \<Rightarrow> string \<Rightarrow> string" where
  "renderNumber format prefix fy seq padding suffix =
    (let f0 = (if format = '''' then ''{prefix}{fy}/{seq}{suffix}'' else format);
         f1 = (if fy = '''' then fold (\<lambda>d f. replace_all d '''' f) [''{fy}/'', ''{fy}-'', ''/{fy}'', ''-{fy}''] f0 else f0)
     in replace_all ''{suffix}'' suffix
          (replace_all ''{seq}'' (padStart padding (CHR ''0'') (js_int seq))
            (replace_all ''{fy}'' fy (replace_all ''{prefix}'' prefix f1))))"

subsection \<open>State and statements\<close>

record Scheme =
  nm_prefix :: string
  nm_suffix :: string
  nm_padding :: nat
  nm_next_value :: int
  nm_reset_yearly :: bool
  nm_current_fy :: string
  nm_format :: string
  nm_last_number :: string

text \<open>The scheme row and the per-year counters of one kind in one school.\<close>

record Series =
  sr_scheme :: "Scheme option"
  sr_counters :: "string \<rightharpoonup> int"

definition DEFAULT_PREFIX :: "string \<Rightarrow> string" where
  "DEFAULT_PREFIX kind = (if kind = ''receipt'' then ''RCPT/'' else if kind = ''invoice'' then ''INV/'' else '''')"

datatype NumStmt =
    AssertCounter string int
  | SetCounter string int
  | InsertCounter string int
  | AssertScheme int
  | AdvanceScheme int string string
  | TouchScheme string

text \<open>
  A guard re-inserts the school's own row when its condition is \<^emph>\<open>false\<close>; a condition over a
  missing row is NULL and inserts nothing, so the guard passes.
\<close>

fun exec_stmt :: "NumStmt \<Rightarrow> Series \<Rightarrow> Series option" where
  "exec_stmt (AssertCounter fy n) s = (if sr_counters s fy \<noteq> None \<and> sr_counters s fy \<noteq> Some n then None else Some s)"
| "exec_stmt (SetCounter fy n) s =
    Some (if sr_counters s fy = None then s else s\<lparr>sr_counters := (sr_counters s)(fy \<mapsto> n)\<rparr>)"
| "exec_stmt (InsertCounter fy n) s =
    (if sr_counters s fy \<noteq> None then None else Some (s\<lparr>sr_counters := (sr_counters s)(fy \<mapsto> n)\<rparr>))"
| "exec_stmt (AssertScheme n) s =
    (case sr_scheme s of None \<Rightarrow> Some s | Some sch \<Rightarrow> if nm_next_value sch = n then Some s else None)"
| "exec_stmt (AdvanceScheme n fy text) s =
    Some (s\<lparr>sr_scheme := map_option (\<lambda>sch. sch\<lparr>nm_next_value := n, nm_current_fy := fy, nm_last_number := text\<rparr>) (sr_scheme s)\<rparr>)"
| "exec_stmt (TouchScheme text) s = Some (s\<lparr>sr_scheme := map_option (\<lambda>sch. sch\<lparr>nm_last_number := text\<rparr>) (sr_scheme s)\<rparr>)"

fun exec :: "NumStmt list \<Rightarrow> Series \<Rightarrow> Series option" where
  "exec [] s = Some s"
| "exec (st # sts) s = Option.bind (exec_stmt st s) (exec sts)"

text \<open>The row is ensured before anything is read; \<open>INSERT\<close> leaves an existing row alone.\<close>

definition ensure_scheme :: "string \<Rightarrow> Series \<Rightarrow> Series" where
  "ensure_scheme kind s =
    (case sr_scheme s of Some _ \<Rightarrow> s
     | None \<Rightarrow> s\<lparr>sr_scheme := Some \<lparr>nm_prefix = DEFAULT_PREFIX kind, nm_suffix = '''', nm_padding = 5, nm_next_value = 1,
         nm_reset_yearly = True, nm_current_fy = '''', nm_format = '''', nm_last_number = ''''\<rparr>\<rparr>)"

record Numbered =
  nd_texts :: "string list"
  nd_seq :: int
  nd_fy :: string
  nd_stmts :: "NumStmt list"

text \<open>
  \<open>nextNumbers\<close> after the scheme row is there: a block of \<open>count\<close> numbers for a document dated
  \<open>on\<close>; \<open>lastSeq fy\<close> is the highest receipt of a year among the payments.
\<close>

definition plan :: "Scheme \<Rightarrow> (string \<rightharpoonup> int) \<Rightarrow> string \<Rightarrow> nat \<Rightarrow> string \<Rightarrow> (string \<rightharpoonup> int) \<Rightarrow> Numbered" where
  "plan sch counters kind count on lastSeq =
    (let resetYearly = nm_reset_yearly sch;
         currentFY = nm_current_fy sch;
         fy = (if resetYearly then financialYear on else '''');
         seed = (if currentFY = '''' \<or> currentFY = fy then nm_next_value sch
                 else if kind = ''receipt'' then (case lastSeq fy of Some n \<Rightarrow> n + 1 | None \<Rightarrow> 1) else 1);
         seq = (if resetYearly then (case counters fy of Some n \<Rightarrow> n | None \<Rightarrow> seed) else nm_next_value sch);
         guards = (if resetYearly
                   then (case counters fy of
                           Some n \<Rightarrow> [AssertCounter fy seq, SetCounter fy (seq + int count)]
                         | None \<Rightarrow> [InsertCounter fy (seq + int count)])
                   else [AssertScheme seq]);
         texts = map (\<lambda>i. renderNumber (nm_format sch) (nm_prefix sch) fy (seq + int i) (nm_padding sch) (nm_suffix sch)) [0..<count];
         text = (if count = 0 then '''' else texts ! (count - 1))
     in \<lparr>nd_texts = texts, nd_seq = seq, nd_fy = fy,
         nd_stmts = guards @ [if \<not> resetYearly \<or> currentFY = '''' \<or> currentFY \<le> fy
           then AdvanceScheme (seq + int count) fy text else TouchScheme text]\<rparr>)"

definition nextNumbers :: "string \<Rightarrow> nat \<Rightarrow> string \<Rightarrow> (string \<rightharpoonup> int) \<Rightarrow> Series \<Rightarrow> Series \<times> Numbered" where
  "nextNumbers kind count on lastSeq s =
    (let s1 = ensure_scheme kind s in (s1, plan (the (sr_scheme s1)) (sr_counters s1) kind count on lastSeq))"

definition nextNumber :: "string \<Rightarrow> string \<Rightarrow> (string \<rightharpoonup> int) \<Rightarrow> Series \<Rightarrow> Series \<times> Numbered" where
  "nextNumber kind on lastSeq s = nextNumbers kind 1 on lastSeq s"

subsection \<open>Cashiers\<close>

text \<open>
  A cashier holds the answer of a read (\<open>Numbered\<close> and how many numbers) until the batch commits;
  a batch whose guard fails issues nothing and the cashier starts again.
\<close>

record Office =
  of_series :: Series
  of_held :: "nat \<rightharpoonup> Numbered \<times> nat"
  of_issued :: "(string \<times> int) list"

definition numbers_of :: "Numbered \<times> nat \<Rightarrow> (string \<times> int) list" where
  "numbers_of h = map (\<lambda>i. (nd_fy (fst h), nd_seq (fst h) + int i)) [0..<snd h]"

inductive series :: "string \<Rightarrow> Office \<Rightarrow> Office \<Rightarrow> bool" for kind where
  read_number: "nextNumbers kind count on lastSeq (of_series w) = (s', n) \<Longrightarrow>
    series kind w (w\<lparr>of_series := s', of_held := (of_held w)(c \<mapsto> (n, count))\<rparr>)"
| commit: "of_held w c = Some h \<Longrightarrow> exec (nd_stmts (fst h)) (of_series w) = Some s' \<Longrightarrow>
    series kind w (w\<lparr>of_series := s', of_held := (of_held w)(c := None), of_issued := of_issued w @ numbers_of h\<rparr>)"
| refused: "of_held w c = Some h \<Longrightarrow> exec (nd_stmts (fst h)) (of_series w) = None \<Longrightarrow>
    series kind w (w\<lparr>of_held := (of_held w)(c := None)\<rparr>)"

inductive_cases series_cases: "series kind w w'"

definition issued_in :: "string \<Rightarrow> (string \<times> int) list \<Rightarrow> int list" where
  "issued_in fy xs = map snd (filter (\<lambda>x. fst x = fy) xs)"

text \<open>Consecutive numbers: each one more than the one before.\<close>

definition consecutive :: "int list \<Rightarrow> bool" where
  "consecutive xs \<longleftrightarrow> (\<forall>i. Suc i < length xs \<longrightarrow> xs ! Suc i = xs ! i + 1)"

definition yearly :: "Series \<Rightarrow> bool" where
  "yearly s \<longleftrightarrow> (\<forall>sch. sr_scheme s = Some sch \<longrightarrow> nm_reset_yearly sch)"

text \<open>
  The invariant: held reads are plans for a counter that was there and still is, or was not; and
  in every year the numbers issued are consecutive up to the counter.
\<close>

definition plan_ok :: "Series \<Rightarrow> Numbered \<times> nat \<Rightarrow> bool" where
  "plan_ok s h \<longleftrightarrow> (let n = fst h; k = int (snd h); fy = nd_fy n; q = nd_seq n in
     \<exists>tl. (\<forall>r s'. exec [tl] r = Some s' \<longrightarrow> sr_counters s' = sr_counters r \<and> (yearly r \<longrightarrow> yearly s'))
       \<and> ((nd_stmts n = [AssertCounter fy q, SetCounter fy (q + k), tl] \<and> sr_counters s fy \<noteq> None)
        \<or> nd_stmts n = [InsertCounter fy (q + k), tl]))"

definition gapless :: "Office \<Rightarrow> bool" where
  "gapless w \<longleftrightarrow> yearly (of_series w)
     \<and> (\<forall>c h. of_held w c = Some h \<longrightarrow> plan_ok (of_series w) h)
     \<and> (\<forall>fy. consecutive (issued_in fy (of_issued w))
          \<and> (issued_in fy (of_issued w) \<noteq> [] \<longrightarrow> sr_counters (of_series w) fy = Some (last (issued_in fy (of_issued w)) + 1)))"

lemma consecutive_append:
  assumes "consecutive xs" "xs \<noteq> [] \<longrightarrow> q = last xs + 1"
  shows "consecutive (xs @ map (\<lambda>i. q + int i) [0..<k])"
  unfolding consecutive_def
proof (intro allI impI)
  fix i assume i: "Suc i < length (xs @ map (\<lambda>i. q + int i) [0..<k])"
  consider "Suc i < length xs" | "Suc i = length xs" | "length xs \<le> i" by linarith
  then show "(xs @ map (\<lambda>i. q + int i) [0..<k]) ! Suc i = (xs @ map (\<lambda>i. q + int i) [0..<k]) ! i + 1"
  proof cases
    case 1
    with assms(1) show ?thesis by (simp add: nth_append consecutive_def)
  next
    case 2
    then have "xs \<noteq> []" by auto
    with 2 have "last xs = xs ! i" by (simp add: last_conv_nth flip: \<open>Suc i = length xs\<close>)
    with \<open>xs \<noteq> []\<close> 2 assms(2) i show ?thesis by (simp add: nth_append)
  next
    case 3
    with i show ?thesis by (auto simp: nth_append Suc_diff_le)
  qed
qed

lemma issued_in_append: "issued_in fy (xs @ numbers_of h) =
    issued_in fy xs @ (if nd_fy (fst h) = fy then map (\<lambda>i. nd_seq (fst h) + int i) [0..<snd h] else [])"
  by (simp add: issued_in_def numbers_of_def comp_def filter_map)

lemma yearly_ensure: "yearly s \<Longrightarrow> yearly (ensure_scheme kind s)"
  by (auto simp: yearly_def ensure_scheme_def split: option.splits)

lemma plan_is_ok:
  assumes "yearly s" "sr_scheme s = Some sch"
  shows "plan_ok s (plan sch (sr_counters s) kind count on lastSeq, count)"
proof -
  from assms have y: "nm_reset_yearly sch" by (simp add: yearly_def)
  show ?thesis
    using y unfolding plan_ok_def plan_def
    by (cases "sr_counters s (financialYear on)") (auto simp: Let_def yearly_def)
qed

lemma plan_ok_mono:
  assumes "plan_ok s h" "dom (sr_counters s) \<subseteq> dom (sr_counters s')"
  shows "plan_ok s' h"
  using assms unfolding plan_ok_def Let_def by (metis domIff subsetD)

text \<open>
  What a committed batch did to the counter of its year.
\<close>
lemma commit_counter:
  assumes "plan_ok s h" "exec (nd_stmts (fst h)) s = Some s'" "yearly s"
  shows "sr_counters s' = (sr_counters s)(nd_fy (fst h) \<mapsto> nd_seq (fst h) + int (snd h))"
    and "sr_counters s (nd_fy (fst h)) \<noteq> None \<Longrightarrow> sr_counters s (nd_fy (fst h)) = Some (nd_seq (fst h))"
    and "yearly s'"
proof -
  let ?fy = "nd_fy (fst h)" and ?q = "nd_seq (fst h)" and ?k = "int (snd h)"
  from assms(1) obtain tl where
    tl: "\<forall>r s'. exec [tl] r = Some s' \<longrightarrow> sr_counters s' = sr_counters r \<and> (yearly r \<longrightarrow> yearly s')"
    and sh: "(nd_stmts (fst h) = [AssertCounter ?fy ?q, SetCounter ?fy (?q + ?k), tl] \<and> sr_counters s ?fy \<noteq> None)
        \<or> nd_stmts (fst h) = [InsertCounter ?fy (?q + ?k), tl]"
    by (auto simp: plan_ok_def Let_def)
  let ?s1 = "s\<lparr>sr_counters := (sr_counters s)(?fy \<mapsto> ?q + ?k)\<rparr>"
  have "exec [tl] ?s1 = Some s' \<and> (sr_counters s ?fy \<noteq> None \<longrightarrow> sr_counters s ?fy = Some ?q)"
    using sh assms(2) by (auto split: if_splits option.splits)
  moreover have "yearly ?s1" using assms(3) by (simp add: yearly_def)
  ultimately show "sr_counters s' = (sr_counters s)(?fy \<mapsto> ?q + ?k)"
    "sr_counters s ?fy \<noteq> None \<Longrightarrow> sr_counters s ?fy = Some ?q" "yearly s'"
    using tl by (metis Series.simps(2,6) Series.select_convs(2) Series.update_convs(2) Series.surjective)+
qed

lemma gaplessD:
  assumes "gapless w"
  shows "yearly (of_series w)" "of_held w c = Some h \<Longrightarrow> plan_ok (of_series w) h"
  using assms unfolding gapless_def by blast+

lemma gapless_step:
  assumes "series kind w w'" "gapless w"
  shows "gapless w'"
  using assms(1)
proof cases
  case (read_number count on lastSeq s' n c)
  then have s': "s' = ensure_scheme kind (of_series w)"
    and n: "n = plan (the (sr_scheme s')) (sr_counters s') kind count on lastSeq"
    by (auto simp: nextNumbers_def Let_def)
  have y: "yearly s'" using assms(2) yearly_ensure by (simp add: gapless_def s')
  obtain sch where "sr_scheme s' = Some sch"
    by (cases "sr_scheme (of_series w)") (auto simp: s' ensure_scheme_def)
  with plan_is_ok [OF y this] n have new: "plan_ok s' (n, count)" by simp
  have cnt: "sr_counters s' = sr_counters (of_series w)" by (simp add: s' ensure_scheme_def split: option.splits)
  have "plan_ok s' h" if "of_held w d = Some h" for d h
  proof -
    from gaplessD(2) [OF assms(2) that] have "plan_ok (of_series w) h" .
    then show ?thesis by (rule plan_ok_mono) (simp add: cnt)
  qed
  with new y cnt assms(2) read_number(1) show ?thesis by (simp add: gapless_def del: split_paired_All)
next
  case (commit c h s')
  note ok = gaplessD(2) [OF assms(2) commit(2)] and y = gaplessD(1) [OF assms(2)]
  note eff = commit_counter [OF ok commit(3) y]
  have held: "plan_ok s' h'" if "of_held w d = Some h'" for d h'
    by (rule plan_ok_mono [OF gaplessD(2) [OF assms(2) that]]) (auto simp: eff(1))
  have "consecutive (issued_in fy (of_issued w @ numbers_of h))
      \<and> (issued_in fy (of_issued w @ numbers_of h) \<noteq> [] \<longrightarrow>
           sr_counters s' fy = Some (last (issued_in fy (of_issued w @ numbers_of h)) + 1))" for fy
  proof -
    let ?old = "issued_in fy (of_issued w)"
    from assms(2) have old: "consecutive ?old" "?old \<noteq> [] \<longrightarrow> sr_counters (of_series w) fy = Some (last ?old + 1)"
      by (auto simp: gapless_def)
    show ?thesis
    proof (cases "nd_fy (fst h) = fy")
      case False
      with old show ?thesis by (simp add: issued_in_append eff(1))
    next
      case True
      have q: "?old \<noteq> [] \<longrightarrow> nd_seq (fst h) = last ?old + 1" using old(2) eff(2) True by auto
      note app = consecutive_append [OF old(1) q, of "snd h"]
      show ?thesis
      proof (cases "snd h")
        case 0
        with True old q show ?thesis by (auto simp: issued_in_append eff(1))
      next
        case (Suc k)
        with True app show ?thesis by (auto simp: issued_in_append eff(1))
      qed
    qed
  qed
  with held eff(3) commit(1) show ?thesis by (simp add: gapless_def del: split_paired_All)
next
  case (refused c h)
  with assms(2) show ?thesis by (simp add: gapless_def del: split_paired_All)
qed

inductive reaches :: "string \<Rightarrow> Office \<Rightarrow> Office \<Rightarrow> bool" for kind where
  stay: "reaches kind w w"
| go: "reaches kind w w' \<Longrightarrow> series kind w' w'' \<Longrightarrow> reaches kind w w''"

lemma gapless_reaches: "reaches kind w w' \<Longrightarrow> gapless w \<Longrightarrow> gapless w'"
  by (induction rule: reaches.induct) (auto intro: gapless_step)

definition fresh_office :: "Series \<Rightarrow> Office" where
  "fresh_office s = \<lparr>of_series = s, of_held = Map.empty, of_issued = []\<rparr>"

lemma consecutive_distinct:
  assumes "consecutive xs"
  shows "i < length xs \<Longrightarrow> xs ! i = xs ! 0 + int i"
proof (induction i)
  case (Suc i)
  with assms show ?case by (simp add: consecutive_def)
qed simp

text \<open>
  C3. The series has no gap and no repeat, whatever the cashiers do: for any interleaving of
  reads, committed batches and refused ones, the numbers issued in a financial year, in the order
  their documents were written, are consecutive.
\<close>
theorem series_gapless:
  assumes "reaches kind (fresh_office s) w" "yearly s"
  shows "consecutive (issued_in fy (of_issued w)) \<and> distinct (issued_in fy (of_issued w))"
proof -
  have "gapless (fresh_office s)" using assms(2) by (simp add: gapless_def fresh_office_def issued_in_def consecutive_def)
  with gapless_reaches [OF assms(1)] have c: "consecutive (issued_in fy (of_issued w))" by (simp add: gapless_def)
  then show ?thesis using consecutive_distinct [OF c] by (auto simp: distinct_conv_nth)
qed

text \<open>Two cashiers read at once; the first commits, the second is refused and starts again.\<close>

definition no_series :: Series where "no_series = \<lparr>sr_scheme = None, sr_counters = Map.empty\<rparr>"

lemma two_cashiers_reached:
  "\<exists>w. reaches ''receipt'' (fresh_office no_series) w \<and> of_issued w = [(''2026-27'', 1), (''2026-27'', 2)]"
proof -
  let ?k = "''receipt''" and ?d = "''2026-04-10''"
  obtain s1 n where r1: "nextNumbers ?k 1 ?d Map.empty no_series = (s1, n)" by fastforce
  define w1 where "w1 = (fresh_office no_series)\<lparr>of_series := s1, of_held := (of_held (fresh_office no_series))(0 \<mapsto> (n, 1))\<rparr>"
  have a1: "series ?k (fresh_office no_series) w1"
    unfolding w1_def by (rule series.read_number) (use r1 in \<open>simp add: fresh_office_def\<close>)
  obtain s1' n' where r2: "nextNumbers ?k 1 ?d Map.empty s1 = (s1', n')" by fastforce
  define w2 where "w2 = w1\<lparr>of_series := s1', of_held := (of_held w1)(1 \<mapsto> (n', 1))\<rparr>"
  have a2: "series ?k w1 w2" unfolding w2_def by (rule series.read_number) (use r2 in \<open>simp add: w1_def\<close>)
  have fy: "financialYear ?d = ''2026-27''" by code_simp
  have s1: "s1 = s1'" "n = n'" using r1 r2
    by (auto simp: nextNumbers_def Let_def ensure_scheme_def no_series_def split: option.splits)
  have n: "nd_stmts n = [InsertCounter ''2026-27'' 2, AdvanceScheme 2 ''2026-27'' (nd_texts n ! 0)]" "nd_seq n = 1" "nd_fy n = ''2026-27''"
    "sr_counters s1 = Map.empty" "\<exists>sch. sr_scheme s1 = Some sch \<and> nm_reset_yearly sch \<and> nm_next_value sch = 1 \<and> nm_current_fy sch = ''''"
    using r1 by (auto simp: nextNumbers_def plan_def Let_def ensure_scheme_def no_series_def fy)
  obtain s2 where e1: "exec (nd_stmts n) s1 = Some s2" "sr_counters s2 = [''2026-27'' \<mapsto> 2]"
    "\<exists>sch. sr_scheme s2 = Some sch \<and> nm_reset_yearly sch \<and> nm_current_fy sch = ''2026-27''"
    using n by auto
  define w3 where "w3 = w2\<lparr>of_series := s2, of_held := (of_held w2)(0 := None), of_issued := of_issued w2 @ numbers_of (n, 1)\<rparr>"
  have a3: "series ?k w2 w3" unfolding w3_def
    by (rule series.commit) (use e1 s1 in \<open>auto simp: w2_def w1_def\<close>)
  have "exec (nd_stmts n') s2 = None" using e1(2) n(1) s1(2) by simp
  define w4 where "w4 = w3\<lparr>of_held := (of_held w3)(1 := None)\<rparr>"
  have a4: "series ?k w3 w4" unfolding w4_def
    by (rule series.refused [where h = "(n', 1)"]) (use \<open>exec (nd_stmts n') s2 = None\<close> in \<open>auto simp: w3_def w2_def w1_def\<close>)
  obtain s4 m where r5: "nextNumbers ?k 1 ?d Map.empty s2 = (s4, m)" by fastforce
  define w5 where "w5 = w4\<lparr>of_series := s4, of_held := (of_held w4)(1 \<mapsto> (m, 1))\<rparr>"
  have a5: "series ?k w4 w5" unfolding w5_def by (rule series.read_number) (use r5 in \<open>simp add: w4_def w3_def\<close>)
  have m: "nd_seq m = 2" "nd_fy m = ''2026-27''" "s4 = s2" "exec (nd_stmts m) s4 \<noteq> None"
    using r5 e1(2,3) by (auto simp: nextNumbers_def plan_def Let_def ensure_scheme_def fy)
  then obtain s6 where e2: "exec (nd_stmts m) s4 = Some s6" by auto
  define w6 where "w6 = w5\<lparr>of_series := s6, of_held := (of_held w5)(1 := None), of_issued := of_issued w5 @ numbers_of (m, 1)\<rparr>"
  have a6: "series ?k w5 w6" unfolding w6_def
    by (rule series.commit) (use e2 in \<open>auto simp: w5_def\<close>)
  have "reaches ?k (fresh_office no_series) w6"
    using a1 a2 a3 a4 a5 a6 by (meson reaches.intros)
  moreover have "of_issued w6 = [(''2026-27'', 1), (''2026-27'', 2)]"
    by (simp add: w6_def w5_def w4_def w3_def w2_def w1_def fresh_office_def numbers_of_def n m)
  ultimately show ?thesis by blast
qed

theorem series_gapless_witness:
  "\<exists>w :: Office. of_issued w = [(''2026-27'', 1), (''2026-27'', 2)] \<and> consecutive (issued_in ''2026-27'' (of_issued w))"
proof -
  obtain w where w: "reaches ''receipt'' (fresh_office no_series) w" "of_issued w = [(''2026-27'', 1), (''2026-27'', 2)]"
    using two_cashiers_reached by blast
  from series_gapless [OF w(1)] have "consecutive (issued_in ''2026-27'' (of_issued w))"
    by (simp add: yearly_def no_series_def)
  with w(2) show ?thesis by (intro exI [of _ w]) simp
qed

end
