(* ===== verification/Ledger.thy ===== *)
theory Ledger
  imports Numbering
begin

text \<open>
  The fee counter, \<open>worker/src/routes/fees/counter.ts\<close> with the triggers of \<open>common.ts\<close> and the
  corrections of \<open>corrections.ts\<close>: taking a payment, spreading it over the outstanding invoices,
  cheques that clear or bounce, receipts voided or moved, the wallet.  A handler reads the
  books, decides, and writes one batch; the batch is data (a list of \<open>Stmt\<close>), executed in order
  by \<open>run\<close>, and fails as a whole when a statement violates a constraint.  Dates are the strings
  \<open>YYYY-MM-DD\<close> the code compares; \<open>t\<close> is today in India.
\<close>

subsection \<open>The books\<close>

record Invoice =
  iv_id :: string
  iv_no :: string
  iv_student :: string
  iv_issued_on :: string
  iv_due_on :: "string option"
  iv_gross :: int
  iv_discount :: int
  iv_fine :: int
  iv_net :: int
  iv_paid :: int
  iv_status :: string

record Payment =
  py_id :: string
  py_student :: string
  py_amount :: int
  py_allocated :: int
  py_mode :: string
  py_paid_on :: string
  py_status :: string

record Alloc =
  al_payment :: string
  al_invoice :: string
  al_amount :: int

record Wallet =
  wl_status :: string
  wl_balance :: int

record Books =
  bk_invoices :: "Invoice list"
  bk_payments :: "Payment list"
  bk_allocs :: "Alloc list"
  bk_wallets :: "string \<rightharpoonup> Wallet"
  bk_txns :: "(string \<times> int) list"

definition paid_of :: "Alloc list \<Rightarrow> string \<Rightarrow> int" where
  "paid_of al i = (\<Sum>a\<leftarrow>al. if al_invoice a = i then al_amount a else 0)"

definition spent_of :: "Alloc list \<Rightarrow> string \<Rightarrow> int" where
  "spent_of al p = (\<Sum>a\<leftarrow>al. if al_payment a = p then al_amount a else 0)"

definition wallet_of :: "(string \<times> int) list \<Rightarrow> string \<Rightarrow> int" where
  "wallet_of ts s = (\<Sum>x\<leftarrow>ts. if fst x = s then snd x else 0)"

subsection \<open>Statements\<close>

datatype Stmt =
    InsertAlloc string string int
  | SyncInvoice string
  | SyncPayment string
  | InsertPayment Payment
  | SetPaymentStatus string string
  | MovePayment string string
  | DeleteAllocs string
  | AddFine string int
  | OpenWallet string
  | WalletTxn string int
  | SyncWallet string
  | AssertWallet string

definition invoice_status :: "string \<Rightarrow> 'a Invoice_scheme \<Rightarrow> string" where
  "invoice_status t i =
    (if iv_status i = ''cancelled'' then ''cancelled''
     else if iv_paid i \<ge> iv_net i \<and> iv_net i > 0 then ''paid''
     else if iv_paid i > 0 then ''partial''
     else case iv_due_on i of Some d \<Rightarrow> if d < t then ''overdue'' else ''unpaid'' | None \<Rightarrow> ''unpaid'')"

definition syncInvoice :: "string \<Rightarrow> string \<Rightarrow> Books \<Rightarrow> Books" where
  "syncInvoice t i b =
    b\<lparr>bk_invoices := map (\<lambda>v. if iv_id v = i
      then let w = v\<lparr>iv_paid := paid_of (bk_allocs b) i\<rparr> in w\<lparr>iv_status := invoice_status t w\<rparr> else v) (bk_invoices b)\<rparr>"

definition syncPayment :: "string \<Rightarrow> Books \<Rightarrow> Books" where
  "syncPayment p b =
    b\<lparr>bk_payments := map (\<lambda>v. if py_id v = p then v\<lparr>py_allocated := spent_of (bk_allocs b) p\<rparr> else v) (bk_payments b)\<rparr>"

definition owed :: "'a Invoice_scheme \<Rightarrow> bool" where
  "owed i \<longleftrightarrow> iv_status i \<in> {''unpaid'', ''partial'', ''overdue''}"

definition due_key :: "Invoice \<Rightarrow> string" where
  "due_key i = (case iv_due_on i of Some d \<Rightarrow> d | None \<Rightarrow> iv_issued_on i)"

text \<open>The fine of a bounced cheque goes on the oldest unsettled invoice.\<close>

definition add_fine :: "string \<Rightarrow> int \<Rightarrow> Invoice list \<Rightarrow> Invoice list" where
  "add_fine student fine invs =
    (case sort_key due_key (filter (\<lambda>i. iv_student i = student \<and> owed i) invs) of
       [] \<Rightarrow> invs
     | oldest # _ \<Rightarrow> map (\<lambda>i. if iv_id i = iv_id oldest
         then i\<lparr>iv_fine := iv_fine i + fine, iv_net := iv_gross i - iv_discount i + iv_fine i + fine\<rparr> else i) invs)"

fun run1 :: "string \<Rightarrow> Stmt \<Rightarrow> Books \<Rightarrow> Books option" where
  "run1 t (InsertAlloc p i n) b =
    (if list_ex (\<lambda>a. al_payment a = p \<and> al_invoice a = i) (bk_allocs b) then None
     else Some (b\<lparr>bk_allocs := bk_allocs b @ [\<lparr>al_payment = p, al_invoice = i, al_amount = n\<rparr>]\<rparr>))"
| "run1 t (SyncInvoice i) b = Some (syncInvoice t i b)"
| "run1 t (SyncPayment p) b = Some (syncPayment p b)"
| "run1 t (InsertPayment p) b =
    (if list_ex (\<lambda>q. py_id q = py_id p) (bk_payments b) then None else Some (b\<lparr>bk_payments := bk_payments b @ [p]\<rparr>))"
| "run1 t (SetPaymentStatus p s) b =
    Some (b\<lparr>bk_payments := map (\<lambda>v. if py_id v = p then v\<lparr>py_status := s\<rparr> else v) (bk_payments b)\<rparr>)"
| "run1 t (MovePayment p s) b =
    Some (b\<lparr>bk_payments := map (\<lambda>v. if py_id v = p then v\<lparr>py_student := s\<rparr> else v) (bk_payments b)\<rparr>)"
| "run1 t (DeleteAllocs p) b = Some (b\<lparr>bk_allocs := filter (\<lambda>a. al_payment a \<noteq> p) (bk_allocs b)\<rparr>)"
| "run1 t (AddFine s n) b = Some (b\<lparr>bk_invoices := add_fine s n (bk_invoices b)\<rparr>)"
| "run1 t (OpenWallet s) b =
    (if bk_wallets b s = None then Some (b\<lparr>bk_wallets := (bk_wallets b)(s \<mapsto> \<lparr>wl_status = ''active'', wl_balance = 0\<rparr>)\<rparr>) else Some b)"
| "run1 t (WalletTxn s n) b = Some (b\<lparr>bk_txns := bk_txns b @ [(s, n)]\<rparr>)"
| "run1 t (SyncWallet s) b =
    Some (b\<lparr>bk_wallets := (bk_wallets b)(s := map_option (\<lambda>w. w\<lparr>wl_balance := wallet_of (bk_txns b) s\<rparr>) (bk_wallets b s))\<rparr>)"
| "run1 t (AssertWallet s) b =
    (case bk_wallets b s of None \<Rightarrow> Some b | Some w \<Rightarrow> if wl_balance w \<ge> 0 then Some b else None)"

fun run :: "string \<Rightarrow> Stmt list \<Rightarrow> Books \<Rightarrow> Books option" where
  "run t [] b = Some b"
| "run t (s # ss) b = Option.bind (run1 t s b) (run t ss)"

lemma run_append: "run t (xs @ ys) b = Option.bind (run t xs b) (run t ys)"
  by (induction xs arbitrary: b) (auto split: Option.bind_splits)

subsection \<open>Spreading a payment\<close>

definition outstanding :: "Books \<Rightarrow> string \<Rightarrow> Invoice list" where
  "outstanding b student =
    sort_key (\<lambda>i. (due_key i, iv_no i))
      (filter (\<lambda>i. iv_student i = student \<and> owed i \<and> iv_net i > iv_paid i) (bk_invoices b))"

fun spread :: "Invoice list \<Rightarrow> int \<Rightarrow> (string \<times> int) list \<times> int" where
  "spread [] remaining = ([], remaining)"
| "spread (d # ds) remaining =
    (if remaining \<le> 0 then ([], remaining)
     else let amt = min (iv_net d - iv_paid d) remaining
          in if amt \<le> 0 then spread ds remaining
             else let (al, r) = spread ds (remaining - amt) in ((iv_id d, amt) # al, r))"

definition alloc_stmts :: "string \<Rightarrow> (string \<times> int) list \<Rightarrow> Stmt list" where
  "alloc_stmts p al = concat (map (\<lambda>(i, n). [InsertAlloc p i n, SyncInvoice i]) al) @ [SyncPayment p]"

text \<open>\<open>None\<close>: none of the selected invoices are outstanding.\<close>

definition allocate :: "Books \<Rightarrow> string \<Rightarrow> string \<Rightarrow> int \<Rightarrow> string list \<Rightarrow> ((string \<times> int) list \<times> int \<times> Stmt list) option" where
  "allocate b student p amount ids =
    (let dues = (if ids = [] then outstanding b student else filter (\<lambda>d. iv_id d \<in> set ids) (outstanding b student))
     in if ids \<noteq> [] \<and> dues = [] then None
        else let (al, r) = spread dues amount in Some (al, r, alloc_stmts p al))"

subsection \<open>The handlers\<close>

definition VALID_MODES :: "string list" where
  "VALID_MODES = [''cash'', ''cheque'', ''dd'', ''neft'', ''upi'', ''card'', ''netbanking'', ''adjustment'', ''wallet'']"

definition WALLET_SOURCE_MODES :: "string list" where
  "WALLET_SOURCE_MODES = [''cash'', ''upi'', ''neft'', ''card'', ''gateway'', ''cheque'', ''dd'']"

text \<open>What a handler answers when it refuses: the status, and the code or the reason in short.\<close>

datatype Refusal = BadRequest string | NotFound | Conflict string | Forbidden string

definition wallet_debit :: "Books \<Rightarrow> string \<Rightarrow> int \<Rightarrow> Refusal + Stmt list" where
  "wallet_debit b student amount =
    (case bk_wallets b student of
       None \<Rightarrow> Inl (BadRequest ''no wallet'')
     | Some w \<Rightarrow>
         if wl_status w \<noteq> ''active'' then Inl (BadRequest ''wallet not active'')
         else if wl_balance w < amount then Inl (BadRequest ''not enough in the wallet'')
         else Inr [WalletTxn student (- amount), SyncWallet student, AssertWallet student])"

record CollectReq =
  cr_student :: string
  cr_amount :: "int option"
  cr_mode :: string
  cr_paid_on :: string
  cr_reference :: string
  cr_invoices :: "string list"

text \<open>
  \<open>POST /fees/payments\<close>, up to the batch: \<open>students\<close> gives the status of a child, \<open>period_open\<close> the
  answer of \<open>requireOpenPeriod\<close>, \<open>pid\<close> the id drawn for the payment.
\<close>

definition collect :: "(string \<rightharpoonup> string) \<Rightarrow> (string \<Rightarrow> bool) \<Rightarrow> string \<Rightarrow> string \<Rightarrow> CollectReq \<Rightarrow> Books
    \<Rightarrow> Refusal + (string \<times> int) list \<times> int \<times> Stmt list" where
  "collect students period_open t pid req b =
    (let student = cr_student req; mode = cr_mode req; ids = cr_invoices req; ref = js_trim (cr_reference req);
         pdc = (mode = ''cheque'' \<or> mode = ''dd'') in
     case cr_amount req of
       None \<Rightarrow> Inl (BadRequest ''amount_paise must be a whole number of paise'')
     | Some amount \<Rightarrow>
     if amount \<le> 0 then Inl (BadRequest ''amount_paise must be greater than zero'')
     else if mode \<notin> set VALID_MODES then Inl (BadRequest ''unsupported payment mode'')
     else if cr_paid_on req > t then Inl (BadRequest ''a receipt cannot be dated in the future'')
     else if pdc \<and> ref = '''' then Inl (BadRequest ''reference_no is required'')
     else if mode = ''upi'' \<and> ref = '''' then Inl (BadRequest ''a UPI payment needs its UTR'')
     else case students student of
       None \<Rightarrow> Inl NotFound
     | Some status \<Rightarrow>
     if status \<noteq> ''active'' \<and> status \<noteq> ''suspended'' then Inl (Conflict ''student_left'')
     else if \<not> period_open (cr_paid_on req) then Inl (Conflict ''period_closed'')
     else let due = (\<Sum>d\<leftarrow>filter (\<lambda>d. ids = [] \<or> iv_id d \<in> set ids) (outstanding b student). iv_net d - iv_paid d) in
     if amount > due then Inl (Conflict ''over_payment'')
     else let pay = InsertPayment \<lparr>py_id = pid, py_student = student, py_amount = amount, py_allocated = 0, py_mode = mode,
                      py_paid_on = cr_paid_on req, py_status = (if pdc then ''pending'' else ''success'')\<rparr> in
     if pdc then Inr ([], amount, [pay])
     else case allocate b student pid amount ids of
       None \<Rightarrow> Inl (BadRequest ''none of the selected invoices are outstanding'')
     | Some (al, r, stmts) \<Rightarrow>
         if mode = ''wallet''
         then (case wallet_debit b student amount of Inl e \<Rightarrow> Inl e | Inr ws \<Rightarrow> Inr (al, r, pay # stmts @ ws))
         else Inr (al, r, pay # stmts))"

definition find_payment :: "Books \<Rightarrow> string \<Rightarrow> Payment option" where
  "find_payment b p = find (\<lambda>v. py_id v = p) (bk_payments b)"

definition clear :: "string \<Rightarrow> Books \<Rightarrow> Refusal + Stmt list" where
  "clear p b =
    (case find_payment b p of
       None \<Rightarrow> Inl (BadRequest ''no pending payment with that id'')
     | Some pay \<Rightarrow>
         if py_status pay \<noteq> ''pending'' then Inl (BadRequest ''no pending payment with that id'')
         else case allocate b (py_student pay) p (py_amount pay) [] of
           None \<Rightarrow> Inl (BadRequest '''')
         | Some (_, _, stmts) \<Rightarrow> Inr (SetPaymentStatus p ''success'' # stmts))"

definition invoices_paid_by :: "Books \<Rightarrow> string \<Rightarrow> string list" where
  "invoices_paid_by b p = map al_invoice (filter (\<lambda>a. al_payment a = p) (bk_allocs b))"

text \<open>The fine asked for, else the school's own when it has one.\<close>

definition bounce :: "(string \<Rightarrow> bool) \<Rightarrow> int option \<Rightarrow> int \<Rightarrow> string \<Rightarrow> Books \<Rightarrow> Refusal + Stmt list" where
  "bounce period_open configured reqFine p b =
    (case find_payment b p of
       None \<Rightarrow> Inl NotFound
     | Some pay \<Rightarrow>
         if \<not> period_open (py_paid_on pay) then Inl (Conflict ''period_closed'')
         else let fine = (if reqFine \<le> 0 then (case configured of Some n \<Rightarrow> n | None \<Rightarrow> reqFine) else reqFine)
         in Inr ([DeleteAllocs p, SetPaymentStatus p ''bounced''] @ map SyncInvoice (invoices_paid_by b p) @ [SyncPayment p]
              @ (if fine > 0 then [AddFine (py_student pay) fine] else [])))"

definition void_payment :: "(string \<Rightarrow> bool) \<Rightarrow> bool \<Rightarrow> string \<Rightarrow> string \<Rightarrow> Books \<Rightarrow> Refusal + Stmt list" where
  "void_payment period_open fresh reason p b =
    (if \<not> fresh then Inl (Forbidden ''reauth_required'')
     else if length (js_trim reason) < 10 then Inl (BadRequest ''reason'')
     else case find_payment b p of
       None \<Rightarrow> Inl NotFound
     | Some pay \<Rightarrow>
         if py_status pay = ''cancelled'' then Inl (Conflict ''already_void'')
         else if py_status pay = ''bounced'' then Inl (Conflict ''bounced'')
         else if \<not> period_open (py_paid_on pay) then Inl (Conflict ''period_closed'')
         else Inr ([DeleteAllocs p, SetPaymentStatus p ''cancelled''] @ map SyncInvoice (invoices_paid_by b p) @ [SyncPayment p]))"

text \<open>\<open>move\<close> and \<open>force-success\<close> write two batches: the second allocates over what is then on disk.\<close>

definition move_payment :: "(string \<rightharpoonup> string) \<Rightarrow> (string \<Rightarrow> bool) \<Rightarrow> bool \<Rightarrow> string \<Rightarrow> string \<Rightarrow> string \<Rightarrow> Books \<Rightarrow> Refusal + Stmt list" where
  "move_payment students period_open fresh reason p target b =
    (if \<not> fresh then Inl (Forbidden ''reauth_required'')
     else if length (js_trim reason) < 10 then Inl (BadRequest ''reason'')
     else case find_payment b p of
       None \<Rightarrow> Inl NotFound
     | Some pay \<Rightarrow>
         if py_student pay = target then Inl (BadRequest ''already against this child'')
         else if py_status pay \<noteq> ''success'' then Inl (Conflict ''not_received'')
         else if \<not> period_open (py_paid_on pay) then Inl (Conflict ''period_closed'')
         else if students target = None then Inl (BadRequest ''no child with that id'')
         else Inr (DeleteAllocs p # map SyncInvoice (invoices_paid_by b p) @ [MovePayment p target]))"

definition force_success :: "(string \<Rightarrow> bool) \<Rightarrow> bool \<Rightarrow> string \<Rightarrow> string \<Rightarrow> Books \<Rightarrow> Refusal + Stmt list" where
  "force_success period_open fresh reason p b =
    (if \<not> fresh then Inl (Forbidden ''reauth_required'')
     else if length (js_trim reason) < 10 then Inl (BadRequest ''reason'')
     else case find_payment b p of
       None \<Rightarrow> Inl NotFound
     | Some pay \<Rightarrow>
         if py_status pay \<noteq> ''pending'' then Inl (Conflict ''not_pending'')
         else if py_mode pay = ''cheque'' \<or> py_mode pay = ''dd'' then Inl (BadRequest ''a cheque clears through the bank'')
         else if \<not> period_open (py_paid_on pay) then Inl (Conflict ''period_closed'')
         else Inr [SetPaymentStatus p ''success''])"

definition allocate_after :: "string \<Rightarrow> Books \<Rightarrow> Stmt list" where
  "allocate_after p b =
    (case find_payment b p of None \<Rightarrow> [SyncPayment p]
     | Some pay \<Rightarrow> (case allocate b (py_student pay) p (py_amount pay) [] of
         None \<Rightarrow> [SyncPayment p] | Some (_, _, stmts) \<Rightarrow> stmts))"

definition wallet_topup :: "(string \<rightharpoonup> string) \<Rightarrow> (string \<Rightarrow> bool) \<Rightarrow> bool \<Rightarrow> string \<Rightarrow> int option \<Rightarrow> string \<Rightarrow> string \<Rightarrow> string \<Rightarrow> Books \<Rightarrow> Refusal + Stmt list" where
  "wallet_topup students period_open fresh t amount mode0 reference student b =
    (if \<not> fresh then Inl (Forbidden ''reauth_required'')
     else case amount of None \<Rightarrow> Inl (BadRequest ''amount_paise'')
     | Some n \<Rightarrow>
     if n \<le> 0 then Inl (BadRequest ''amount_paise must be greater than zero'')
     else let mode = to_lower (js_trim mode0) in
     if mode \<notin> set WALLET_SOURCE_MODES then Inl (BadRequest ''unsupported source_mode'')
     else if mode \<in> {''upi'', ''neft'', ''cheque'', ''dd''} \<and> js_trim reference = '''' then Inl (BadRequest ''reference_no is required'')
     else if students student = None then Inl NotFound
     else if \<not> period_open t then Inl (Conflict ''period_closed'')
     else case bk_wallets b student of
       Some w \<Rightarrow> if wl_status w \<noteq> ''active'' then Inl (BadRequest ''wallet not active'')
                 else Inr [OpenWallet student, WalletTxn student n, SyncWallet student]
     | None \<Rightarrow> Inr [OpenWallet student, WalletTxn student n, SyncWallet student])"

definition wallet_adjust :: "(string \<rightharpoonup> string) \<Rightarrow> (string \<Rightarrow> bool) \<Rightarrow> bool \<Rightarrow> string \<Rightarrow> int option \<Rightarrow> string \<Rightarrow> string \<Rightarrow> Books \<Rightarrow> Refusal + Stmt list" where
  "wallet_adjust students period_open fresh t delta note student b =
    (if \<not> fresh then Inl (Forbidden ''reauth_required'')
     else case delta of None \<Rightarrow> Inl (BadRequest ''delta_paise'')
     | Some n \<Rightarrow>
     if n = 0 then Inl (BadRequest ''delta_paise must not be zero'')
     else if js_trim note = '''' then Inl (BadRequest ''note is required'')
     else if students student = None then Inl NotFound
     else if \<not> period_open t then Inl (Conflict ''period_closed'')
     else Inr [OpenWallet student, WalletTxn student n, SyncWallet student, AssertWallet student])"

end
