(* ===== verification/LedgerProofs.thy ===== *)
theory LedgerProofs
  imports Ledger
begin

text \<open>
  The books stay balanced.  \<open>books_ok\<close> says what an auditor reads them for: every invoice's paid
  amount is the sum of the allocations made to it and at most its net, every payment's allocated
  amount is the sum of the allocations made from it and at most what was received, and money that
  has not arrived (a cheque held, bounced, voided) is allocated nowhere.  Each handler, run
  alone, keeps it; the last section shows two cheques cleared at once that do not.
\<close>

subsection \<open>Sums\<close>

lemma paid_of_append [simp]: "paid_of (xs @ ys) i = paid_of xs i + paid_of ys i"
  and spent_of_append [simp]: "spent_of (xs @ ys) p = spent_of xs p + spent_of ys p"
  by (simp_all add: paid_of_def spent_of_def)

lemma paid_of_simps [simp]:
  "paid_of [] i = 0" "paid_of (a # al) i = (if al_invoice a = i then al_amount a else 0) + paid_of al i"
  and spent_of_simps [simp]:
  "spent_of [] p = 0" "spent_of (a # al) p = (if al_payment a = p then al_amount a else 0) + spent_of al p"
  by (simp_all add: paid_of_def spent_of_def)

lemma paid_of_none: "\<forall>a\<in>set al. al_invoice a \<noteq> i \<Longrightarrow> paid_of al i = 0"
  by (induction al) auto

lemma spent_of_none: "\<forall>a\<in>set al. al_payment a \<noteq> p \<Longrightarrow> spent_of al p = 0"
  by (induction al) auto

lemma spent_zero_none: "\<forall>a\<in>set al. 0 < al_amount a \<Longrightarrow> spent_of al p = 0 \<Longrightarrow> \<forall>a\<in>set al. al_payment a \<noteq> p"
proof (induction al)
  case (Cons a al)
  have "0 \<le> spent_of al p" using Cons.prems(1) by (induction al) auto
  with Cons show ?case by (cases "al_payment a = p") auto
qed simp

lemma paid_of_filter_le: "\<forall>a\<in>set al. 0 < al_amount a \<Longrightarrow> paid_of (filter Q al) i \<le> paid_of al i"
  by (induction al) auto

lemma paid_of_filter_same: "\<forall>a\<in>set al. al_invoice a = i \<longrightarrow> Q a \<Longrightarrow> paid_of (filter Q al) i = paid_of al i"
  by (induction al) auto

lemma spent_of_filter: "spent_of (filter (\<lambda>a. al_payment a \<noteq> p) al) q = (if q = p then 0 else spent_of al q)"
  by (induction al) auto

subsection \<open>The balanced books\<close>

definition books_ok :: "Books \<Rightarrow> bool" where
  "books_ok b \<longleftrightarrow>
     distinct (map iv_id (bk_invoices b)) \<and> distinct (map py_id (bk_payments b))
   \<and> (\<forall>v\<in>set (bk_invoices b). iv_paid v = paid_of (bk_allocs b) (iv_id v) \<and> iv_paid v \<le> iv_net v
        \<and> iv_net v = iv_gross v - iv_discount v + iv_fine v)
   \<and> (\<forall>v\<in>set (bk_payments b). py_allocated v = spent_of (bk_allocs b) (py_id v) \<and> py_allocated v \<le> py_amount v
        \<and> 0 \<le> py_amount v \<and> (py_status v \<noteq> ''success'' \<longrightarrow> py_allocated v = 0))
   \<and> (\<forall>a\<in>set (bk_allocs b). 0 < al_amount a \<and> al_payment a \<in> py_id ` set (bk_payments b))"

definition resync :: "string \<Rightarrow> int \<Rightarrow> Invoice \<Rightarrow> Invoice" where
  "resync t n v = (let w = v\<lparr>iv_paid := n\<rparr> in w\<lparr>iv_status := invoice_status t w\<rparr>)"

lemma resync_fields [simp]:
  "iv_id (resync t n v) = iv_id v" "iv_paid (resync t n v) = n" "iv_net (resync t n v) = iv_net v"
  "iv_gross (resync t n v) = iv_gross v" "iv_discount (resync t n v) = iv_discount v" "iv_fine (resync t n v) = iv_fine v"
  "iv_student (resync t n v) = iv_student v" "iv_status (resync t n v) = invoice_status t (v\<lparr>iv_paid := n\<rparr>)"
  by (simp_all add: resync_def Let_def)

lemma cancelled_stays: "invoice_status t v = ''cancelled'' \<longleftrightarrow> iv_status v = ''cancelled''"
  by (cases "iv_due_on v") (simp_all add: invoice_status_def)

lemma invoice_status_cong:
  assumes "(iv_status v = ''cancelled'') = (iv_status w = ''cancelled'')" "iv_paid v = iv_paid w" "iv_net v = iv_net w" "iv_due_on v = iv_due_on w"
  shows "invoice_status t v = invoice_status t w"
  unfolding invoice_status_def assms ..

lemma resync_again [simp]: "resync t n (resync t m v) = resync t n v"
proof -
  have "invoice_status t (v\<lparr>iv_status := invoice_status t (v\<lparr>iv_paid := m\<rparr>), iv_paid := n\<rparr>) = invoice_status t (v\<lparr>iv_paid := n\<rparr>)"
    by (rule invoice_status_cong) (simp_all add: cancelled_stays)
  then show ?thesis by (simp add: resync_def Let_def)
qed

lemma syncInvoice_resync:
  "syncInvoice t i b = b\<lparr>bk_invoices := map (\<lambda>v. if iv_id v = i then resync t (paid_of (bk_allocs b) i) v else v) (bk_invoices b)\<rparr>"
  by (simp add: syncInvoice_def resync_def Let_def)

subsection \<open>Spreading\<close>

lemma spread_stop: "r \<le> 0 \<Longrightarrow> spread ds r = ([], r)"
  by (cases ds) auto

lemma spread_skip: "0 < r \<Longrightarrow> iv_net d \<le> iv_paid d \<Longrightarrow> spread (d # ds) r = spread ds r"
  by (simp add: Let_def min_def)

lemma spread_take:
  assumes "0 < r" "iv_paid d < iv_net d"
  shows "spread (d # ds) r =
    (let (al, r') = spread ds (r - min (iv_net d - iv_paid d) r) in ((iv_id d, min (iv_net d - iv_paid d) r) # al, r'))"
proof -
  have "\<not> min (iv_net d - iv_paid d) r \<le> 0" "\<not> r \<le> 0" using assms by auto
  then show ?thesis unfolding spread.simps Let_def by (simp only: if_False)
qed

text \<open>
  What the loop gives: nothing lost, nothing negative, each part at most what its invoice still
  owes, and each invoice once.
\<close>
lemma spread_spec:
  "spread ds r = (al, r') \<Longrightarrow>
     (\<Sum>x\<leftarrow>al. snd x) + r' = r \<and> (0 \<le> r \<longrightarrow> 0 \<le> r')
   \<and> (\<forall>x\<in>set al. \<exists>d\<in>set ds. iv_id d = fst x \<and> 0 < snd x \<and> snd x \<le> iv_net d - iv_paid d)
   \<and> (distinct (map iv_id ds) \<longrightarrow> distinct (map fst al))"
proof (induction ds arbitrary: r al r')
  case (Cons d ds)
  consider (stop) "r \<le> 0" | (skip) "0 < r" "iv_net d \<le> iv_paid d" | (take) "0 < r" "iv_paid d < iv_net d" by linarith
  then show ?case
  proof cases
    case stop
    with Cons.prems show ?thesis by (auto simp: spread_stop)
  next
    case skip
    from Cons.IH [of r al r'] Cons.prems skip show ?thesis by (auto simp: spread_skip)
  next
    case take
    define m where "m = min (iv_net d - iv_paid d) r"
    have m: "0 < m" "m \<le> iv_net d - iv_paid d" "m \<le> r" using take by (auto simp: m_def)
    obtain al0 r0 where rec: "spread ds (r - m) = (al0, r0)" by fastforce
    with Cons.prems spread_take [OF take, of ds] have al: "al = (iv_id d, m) # al0" "r' = r0" by (auto simp: m_def)
    note IH = Cons.IH [OF rec]
    have part: "\<exists>d\<in>set ds. iv_id d = fst x \<and> 0 < snd x \<and> snd x \<le> iv_net d - iv_paid d" if "x \<in> set al0" for x
      using IH that by blast
    have "fst ` set al0 \<subseteq> iv_id ` set ds" using part by force
    then have "distinct (map iv_id (d # ds)) \<longrightarrow> distinct (map fst al)" using IH by (auto simp: al)
    moreover have "\<forall>x\<in>set al. \<exists>d'\<in>set (d # ds). iv_id d' = fst x \<and> 0 < snd x \<and> snd x \<le> iv_net d' - iv_paid d'"
      using part m(1,2) by (auto simp: al)
    moreover have "(\<Sum>x\<leftarrow>al. snd x) + r' = r \<and> (0 \<le> r \<longrightarrow> 0 \<le> r')" using IH m by (simp add: al)
    ultimately show ?thesis by blast
  qed
qed simp

subsection \<open>What a batch does\<close>

definition alloc_of :: "string \<Rightarrow> string \<times> int \<Rightarrow> Alloc" where
  "alloc_of p x = \<lparr>al_payment = p, al_invoice = fst x, al_amount = snd x\<rparr>"

lemma paid_of_alloc_of: "paid_of (map (alloc_of p) al) i = (\<Sum>x\<leftarrow>al. if fst x = i then snd x else 0)"
  by (induction al) (auto simp: alloc_of_def)

lemma spent_of_alloc_of: "spent_of (map (alloc_of p) al) q = (if q = p then (\<Sum>x\<leftarrow>al. snd x) else 0)"
  by (induction al) (auto simp: alloc_of_def)

lemma run_allocs:
  assumes "distinct (map fst al)" "\<forall>a\<in>set (bk_allocs b). al_payment a \<noteq> p \<or> al_invoice a \<notin> fst ` set al"
  shows "run t (concat (map (\<lambda>(i, n). [InsertAlloc p i n, SyncInvoice i]) al)) b = Some
    (b\<lparr>bk_allocs := bk_allocs b @ map (alloc_of p) al,
       bk_invoices := map (\<lambda>v. if iv_id v \<in> fst ` set al
         then resync t (paid_of (bk_allocs b @ map (alloc_of p) al) (iv_id v)) v else v) (bk_invoices b)\<rparr>)"
  using assms
proof (induction al arbitrary: b)
  case (Cons x al)
  obtain i n where x: "x = (i, n)" by (cases x)
  let ?a = "alloc_of p (i, n)"
  let ?b1 = "b\<lparr>bk_allocs := bk_allocs b @ [?a],
    bk_invoices := map (\<lambda>v. if iv_id v = i then resync t (paid_of (bk_allocs b @ [?a]) i) v else v) (bk_invoices b)\<rparr>"
  have new: "\<not> list_ex (\<lambda>a. al_payment a = p \<and> al_invoice a = i) (bk_allocs b)"
    using Cons.prems(2) x by (auto simp: list_ex_iff)
  have step: "run t (concat (map (\<lambda>(i, n). [InsertAlloc p i n, SyncInvoice i]) (x # al))) b =
      run t (concat (map (\<lambda>(i, n). [InsertAlloc p i n, SyncInvoice i]) al)) ?b1"
    using new by (simp add: x syncInvoice_resync alloc_of_def cong: if_cong)
  have "run t (concat (map (\<lambda>(i, n). [InsertAlloc p i n, SyncInvoice i]) al)) ?b1 = Some
    (?b1\<lparr>bk_allocs := bk_allocs ?b1 @ map (alloc_of p) al,
       bk_invoices := map (\<lambda>v. if iv_id v \<in> fst ` set al
         then resync t (paid_of (bk_allocs ?b1 @ map (alloc_of p) al) (iv_id v)) v else v) (bk_invoices ?b1)\<rparr>)"
    by (rule Cons.IH) (use Cons.prems x in \<open>auto simp: alloc_of_def\<close>)
  moreover have "paid_of (map (alloc_of p) al) i = 0"
    using Cons.prems(1) x by (intro paid_of_none) (auto simp: alloc_of_def)
  moreover have "i \<notin> fst ` set al" using Cons.prems(1) x by simp
  ultimately show ?case
    unfolding step by (auto simp: x comp_def cong: if_cong intro!: map_cong)
qed (simp add: alloc_of_def)

lemma run_alloc_stmts:
  assumes "distinct (map fst al)" "\<forall>a\<in>set (bk_allocs b). al_payment a \<noteq> p"
  shows "run t (alloc_stmts p al) b = Some
    (b\<lparr>bk_allocs := bk_allocs b @ map (alloc_of p) al,
       bk_invoices := map (\<lambda>v. if iv_id v \<in> fst ` set al
         then resync t (paid_of (bk_allocs b @ map (alloc_of p) al) (iv_id v)) v else v) (bk_invoices b),
       bk_payments := map (\<lambda>v. if py_id v = p then v\<lparr>py_allocated := spent_of (bk_allocs b @ map (alloc_of p) al) p\<rparr> else v) (bk_payments b)\<rparr>)"
  unfolding alloc_stmts_def run_append
  by (subst run_allocs) (use assms in \<open>auto simp: syncPayment_def cong: if_cong\<close>)

lemma run_syncs:
  "run t (map SyncInvoice is) b = Some
    (b\<lparr>bk_invoices := map (\<lambda>v. if iv_id v \<in> set is then resync t (paid_of (bk_allocs b) (iv_id v)) v else v) (bk_invoices b)\<rparr>)"
proof (induction "is" arbitrary: b)
  case (Cons i rest)
  show ?case
    by (simp add: syncInvoice_resync Cons.IH cong: if_cong)
qed simp

lemma books_okD:
  assumes "books_ok b"
  shows "distinct (map iv_id (bk_invoices b))" "distinct (map py_id (bk_payments b))"
    "v \<in> set (bk_invoices b) \<Longrightarrow> iv_paid v = paid_of (bk_allocs b) (iv_id v) \<and> iv_paid v \<le> iv_net v
       \<and> iv_net v = iv_gross v - iv_discount v + iv_fine v"
    "w \<in> set (bk_payments b) \<Longrightarrow> py_allocated w = spent_of (bk_allocs b) (py_id w) \<and> py_allocated w \<le> py_amount w
        \<and> 0 \<le> py_amount w \<and> (py_status w \<noteq> ''success'' \<longrightarrow> py_allocated w = 0)"
    "a \<in> set (bk_allocs b) \<Longrightarrow> 0 < al_amount a \<and> al_payment a \<in> py_id ` set (bk_payments b)"
  using assms unfolding books_ok_def by blast+

lemma books_ok_unallocated:
  assumes "books_ok b" "w \<in> set (bk_payments b)" "py_allocated w = 0"
  shows "\<forall>a\<in>set (bk_allocs b). al_payment a \<noteq> py_id w"
  using books_okD(4) [OF assms(1,2)] books_okD(5) [OF assms(1)] assms(3) by (intro spent_zero_none) auto

lemma books_okI:
  assumes "bk_invoices b = I" "bk_payments b = P" "bk_allocs b = A"
    "distinct (map iv_id I)" "distinct (map py_id P)"
    "\<And>v. v \<in> set I \<Longrightarrow> iv_paid v = paid_of A (iv_id v) \<and> iv_paid v \<le> iv_net v
       \<and> iv_net v = iv_gross v - iv_discount v + iv_fine v"
    "\<And>w. w \<in> set P \<Longrightarrow> py_allocated w = spent_of A (py_id w) \<and> py_allocated w \<le> py_amount w
        \<and> 0 \<le> py_amount w \<and> (py_status w \<noteq> ''success'' \<longrightarrow> py_allocated w = 0)"
    "\<And>a. a \<in> set A \<Longrightarrow> 0 < al_amount a \<and> al_payment a \<in> py_id ` set P"
  shows "books_ok b"
  unfolding books_ok_def assms(1-3) using assms(4-8) by blast

text \<open>
  Allocating a received payment that has no allocation yet, over the dues as they stand.
\<close>
lemma outstanding_dues:
  "d \<in> set (outstanding b s) \<longleftrightarrow> d \<in> set (bk_invoices b) \<and> iv_student d = s \<and> owed d \<and> iv_paid d < iv_net d"
  by (auto simp: outstanding_def)

lemma distinct_map_sort: "distinct (map f (sort_key k xs)) = distinct (map f xs)"
  by (simp add: distinct_map)

lemma outstanding_distinct: "distinct (map iv_id (bk_invoices b)) \<Longrightarrow> distinct (map iv_id (outstanding b s))"
  by (simp add: outstanding_def distinct_map_sort distinct_map_filter)

lemma allocate_spec:
  assumes "allocate b s p amount ids = Some (al, r, stmts)" "distinct (map iv_id (bk_invoices b))" "0 \<le> amount"
  shows "stmts = alloc_stmts p al" "distinct (map fst al)" "(\<Sum>x\<leftarrow>al. snd x) + r = amount" "0 \<le> r"
    "\<forall>x\<in>set al. \<exists>d\<in>set (bk_invoices b). iv_id d = fst x \<and> 0 < snd x \<and> snd x \<le> iv_net d - iv_paid d"
proof -
  define dues where "dues = (if ids = [] then outstanding b s else filter (\<lambda>d. iv_id d \<in> set ids) (outstanding b s))"
  from assms(1) have sp: "spread dues amount = (al, r)" and st: "stmts = alloc_stmts p al"
    by (auto simp: allocate_def dues_def Let_def split: if_splits prod.splits)
  have d: "distinct (map iv_id dues)" using outstanding_distinct [OF assms(2)] by (simp add: dues_def distinct_map_filter)
  have sub: "set dues \<subseteq> set (bk_invoices b)" by (auto simp: dues_def outstanding_dues)
  note spec = spread_spec [OF sp]
  show "stmts = alloc_stmts p al" by (rule st)
  show "distinct (map fst al)" "(\<Sum>x\<leftarrow>al. snd x) + r = amount" "0 \<le> r" using spec d assms(3) by auto
  show "\<forall>x\<in>set al. \<exists>d\<in>set (bk_invoices b). iv_id d = fst x \<and> 0 < snd x \<and> snd x \<le> iv_net d - iv_paid d"
    using spec sub by blast
qed

lemma sum_of_one:
  "distinct (map fst al) \<Longrightarrow> (i, n) \<in> set al \<Longrightarrow> (\<Sum>x\<leftarrow>al. if fst x = i then snd x else 0) = (n :: int)"
proof (induction al)
  case (Cons x al)
  have none: "(\<Sum>x\<leftarrow>al. if fst x = i then snd x else 0) = (0 :: int)" if "i \<notin> fst ` set al"
    using that by (induction al) auto
  obtain j m where x: "x = (j, m)" by (cases x)
  from Cons none show ?case by (cases "j = i") (auto simp: rev_image_eqI x)
qed simp

lemma sum_of_none: "i \<notin> fst ` set al \<Longrightarrow> (\<Sum>x\<leftarrow>al. if fst x = i then snd x else 0) = (0 :: int)"
  by (induction al) auto

lemma alloc_keeps_books:
  assumes ok: "books_ok b" and w: "w \<in> set (bk_payments b)" "py_id w = p" "py_status w = ''success''"
    and free: "\<forall>a\<in>set (bk_allocs b). al_payment a \<noteq> p"
    and al: "distinct (map fst al)" "(\<Sum>x\<leftarrow>al. snd x) \<le> py_amount w"
      "\<forall>x\<in>set al. \<exists>d\<in>set (bk_invoices b). iv_id d = fst x \<and> 0 < snd x \<and> snd x \<le> iv_net d - iv_paid d"
  shows "\<exists>b'. run t (alloc_stmts p al) b = Some b' \<and> books_ok b' \<and> bk_wallets b' = bk_wallets b \<and> bk_txns b' = bk_txns b"
proof -
  let ?al = "bk_allocs b @ map (alloc_of p) al"
  define b' where "b' = b\<lparr>bk_allocs := ?al,
       bk_invoices := map (\<lambda>v. if iv_id v \<in> fst ` set al then resync t (paid_of ?al (iv_id v)) v else v) (bk_invoices b),
       bk_payments := map (\<lambda>v. if py_id v = p then v\<lparr>py_allocated := spent_of ?al p\<rparr> else v) (bk_payments b)\<rparr>"
  have fields: "bk_allocs b' = ?al"
    "bk_invoices b' = map (\<lambda>v. if iv_id v \<in> fst ` set al then resync t (paid_of ?al (iv_id v)) v else v) (bk_invoices b)"
    "bk_payments b' = map (\<lambda>v. if py_id v = p then v\<lparr>py_allocated := spent_of ?al p\<rparr> else v) (bk_payments b)"
    by (simp_all add: b'_def)
  have run: "run t (alloc_stmts p al) b = Some b'"
    unfolding b'_def by (rule run_alloc_stmts) (use al free in auto)
  note D = books_okD [OF ok]
  have same_id: "map iv_id (bk_invoices b') = map iv_id (bk_invoices b)" "map py_id (bk_payments b') = map py_id (bk_payments b)"
    by (auto simp: fields comp_def)
  have inv: "iv_paid v' = paid_of ?al (iv_id v') \<and> iv_paid v' \<le> iv_net v' \<and> iv_net v' = iv_gross v' - iv_discount v' + iv_fine v'"
    if v': "v' \<in> set (bk_invoices b')" for v'
  proof -
    from v' obtain v where v: "v \<in> set (bk_invoices b)" "v' = (if iv_id v \<in> fst ` set al then resync t (paid_of ?al (iv_id v)) v else v)"
      unfolding fields set_map by blast
    note old = D(3) [OF v(1)]
    show ?thesis
    proof (cases "iv_id v \<in> fst ` set al")
      case True
      then obtain x where x: "x \<in> set al" "fst x = iv_id v" by auto
      with al(3) obtain d where d: "d \<in> set (bk_invoices b)" "iv_id d = iv_id v" "snd x \<le> iv_net d - iv_paid d" by force
      with D(1) v(1) have "d = v" by (auto simp: distinct_map inj_on_def)
      moreover have "paid_of (map (alloc_of p) al) (iv_id v) = snd x"
        unfolding paid_of_alloc_of using sum_of_one [OF al(1), of "iv_id v" "snd x"] x by (metis prod.collapse)
      ultimately show ?thesis using old d(3) True v(2) by simp
    next
      case False
      with old v(2) show ?thesis by (simp add: paid_of_alloc_of sum_of_none)
    qed
  qed
  have tot: "spent_of ?al p = (\<Sum>x\<leftarrow>al. snd x)" using free by (simp add: spent_of_none spent_of_alloc_of)
  have pay: "py_allocated u' = spent_of ?al (py_id u') \<and> py_allocated u' \<le> py_amount u' \<and> 0 \<le> py_amount u'
      \<and> (py_status u' \<noteq> ''success'' \<longrightarrow> py_allocated u' = 0)" if u': "u' \<in> set (bk_payments b')" for u'
  proof -
    from u' obtain u where u: "u \<in> set (bk_payments b)" "u' = (if py_id u = p then u\<lparr>py_allocated := spent_of ?al p\<rparr> else u)"
      unfolding fields set_map by blast
    note old = D(4) [OF u(1)]
    show ?thesis
    proof (cases "py_id u = p")
      case True
      with D(2) u(1) w have "u = w" by (auto simp: distinct_map inj_on_def)
      with old tot al(2) w(3) u(2) True show ?thesis by simp
    next
      case False
      with old u(2) show ?thesis by (auto simp: spent_of_alloc_of)
    qed
  qed
  have allocs: "0 < al_amount a \<and> al_payment a \<in> set (map py_id (bk_payments b'))" if "a \<in> set ?al" for a
    unfolding same_id(2) using that D(5) al(3) w(1,2) by (auto simp: alloc_of_def)
  have d: "distinct (map iv_id (bk_invoices b'))" "distinct (map py_id (bk_payments b'))"
    unfolding same_id by (rule D(1), rule D(2))
  have "books_ok b'"
    by (rule books_okI [OF refl refl fields(1) d inv pay allocs [unfolded set_map]])
  with run show ?thesis by (auto simp: b'_def)
qed

subsection \<open>The handlers keep the books\<close>

lemma books_ok_invoices:
  assumes "books_ok b" "map iv_id invs = map iv_id (bk_invoices b)"
    "\<And>u. u \<in> set invs \<Longrightarrow> iv_paid u = paid_of (bk_allocs b) (iv_id u) \<and> iv_paid u \<le> iv_net u
       \<and> iv_net u = iv_gross u - iv_discount u + iv_fine u"
  shows "books_ok (b\<lparr>bk_invoices := invs\<rparr>)"
proof -
  note D = books_okD [OF assms(1)]
  have "distinct (map iv_id invs)" unfolding assms(2) by (rule D(1))
  from books_okI [OF _ _ _ this D(2) assms(3) D(4) D(5), of "b\<lparr>bk_invoices := invs\<rparr>"] show ?thesis by simp
qed

lemma books_ok_payments:
  assumes "books_ok b" "map py_id ps = map py_id (bk_payments b)"
    "\<And>w. w \<in> set ps \<Longrightarrow> py_allocated w = spent_of (bk_allocs b) (py_id w) \<and> py_allocated w \<le> py_amount w
        \<and> 0 \<le> py_amount w \<and> (py_status w \<noteq> ''success'' \<longrightarrow> py_allocated w = 0)"
  shows "books_ok (b\<lparr>bk_payments := ps\<rparr>)"
proof -
  note D = books_okD [OF assms(1)]
  have d: "distinct (map py_id ps)" unfolding assms(2) by (rule D(2))
  have "py_id ` set ps = py_id ` set (bk_payments b)" using assms(2) by (metis list.set_map)
  then have "0 < al_amount a \<and> al_payment a \<in> py_id ` set ps" if "a \<in> set (bk_allocs b)" for a
    using D(5) [OF that] by simp
  from books_okI [OF _ _ _ D(1) d D(3) assms(3) this, of "b\<lparr>bk_payments := ps\<rparr>"] show ?thesis by simp
qed

lemma find_payment_Some:
  assumes "find_payment b p = Some pay"
  shows "pay \<in> set (bk_payments b)" "py_id pay = p"
  using assms by (auto simp: find_payment_def find_Some_iff)

lemma find_payment_None: "find_payment b p = None \<Longrightarrow> p \<notin> py_id ` set (bk_payments b)"
  by (auto simp: find_payment_def find_None_iff)

lemma new_payment_ok:
  assumes "books_ok b" "py_id w \<notin> py_id ` set (bk_payments b)" "py_allocated w = 0" "0 \<le> py_amount w"
  shows "books_ok (b\<lparr>bk_payments := bk_payments b @ [w]\<rparr>)"
proof -
  note D = books_okD [OF assms(1)]
  have zero: "spent_of (bk_allocs b) (py_id w) = 0" using D(5) assms(2) by (intro spent_of_none ballI) metis
  have d: "distinct (map py_id (bk_payments b @ [w]))" using D(2) assms(2) by simp
  have pay: "py_allocated u = spent_of (bk_allocs b) (py_id u) \<and> py_allocated u \<le> py_amount u
        \<and> 0 \<le> py_amount u \<and> (py_status u \<noteq> ''success'' \<longrightarrow> py_allocated u = 0)" if "u \<in> set (bk_payments b @ [w])" for u
    using that D(4) [of u] zero assms(3,4) by (cases "u = w") auto
  have al: "0 < al_amount a \<and> al_payment a \<in> py_id ` set (bk_payments b @ [w])" if "a \<in> set (bk_allocs b)" for a
    using D(5) [OF that] by auto
  from books_okI [OF _ _ _ D(1) d D(3) pay al, of "b\<lparr>bk_payments := bk_payments b @ [w]\<rparr>"] show ?thesis by simp
qed

lemma payment_unique:
  "books_ok b \<Longrightarrow> v \<in> set (bk_payments b) \<Longrightarrow> w \<in> set (bk_payments b) \<Longrightarrow> py_id v = py_id w \<Longrightarrow> v = w"
  using books_okD(2) [of b] by (auto simp: distinct_map inj_on_def)

lemma status_payment_ok:
  assumes "books_ok b" "w \<in> set (bk_payments b)" "py_id w = p" "py_allocated w = 0 \<or> s = ''success''"
  shows "books_ok (b\<lparr>bk_payments := map (\<lambda>v. if py_id v = p then v\<lparr>py_status := s\<rparr> else v) (bk_payments b)\<rparr>)"
proof (rule books_ok_payments [OF assms(1)])
  show "map py_id (map (\<lambda>v. if py_id v = p then v\<lparr>py_status := s\<rparr> else v) (bk_payments b)) = map py_id (bk_payments b)" by simp
  fix u assume "u \<in> set (map (\<lambda>v. if py_id v = p then v\<lparr>py_status := s\<rparr> else v) (bk_payments b))"
  then obtain v where v: "v \<in> set (bk_payments b)" "u = (if py_id v = p then v\<lparr>py_status := s\<rparr> else v)"
    unfolding set_map by blast
  note old = books_okD(4) [OF assms(1) v(1)]
  show "py_allocated u = spent_of (bk_allocs b) (py_id u) \<and> py_allocated u \<le> py_amount u
        \<and> 0 \<le> py_amount u \<and> (py_status u \<noteq> ''success'' \<longrightarrow> py_allocated u = 0)"
  proof (cases "py_id v = p")
    case True
    with payment_unique [OF assms(1) v(1) assms(2)] assms(3) have "v = w" by simp
    with assms(4) old v(2) show ?thesis by auto
  next
    case False
    with old v(2) show ?thesis by auto
  qed
qed

text \<open>
  Taking a payment off the books: its allocations go and its invoices are recomputed.
\<close>
lemma deleted_ok:
  assumes ok: "books_ok b"
  shows "books_ok (b\<lparr>bk_allocs := filter (\<lambda>a. al_payment a \<noteq> p) (bk_allocs b),
     bk_invoices := map (\<lambda>v. if iv_id v \<in> set (invoices_paid_by b p)
       then resync t (paid_of (filter (\<lambda>a. al_payment a \<noteq> p) (bk_allocs b)) (iv_id v)) v else v) (bk_invoices b),
     bk_payments := map (\<lambda>v. if py_id v = p then v\<lparr>py_status := s, py_allocated := 0\<rparr> else v) (bk_payments b)\<rparr>)"
    (is "books_ok (b\<lparr>bk_allocs := ?al, bk_invoices := ?iv, bk_payments := ?py\<rparr>)")
proof -
  note D = books_okD [OF ok]
  have pos: "\<forall>a\<in>set (bk_allocs b). 0 < al_amount a" using D(5) by blast
  have "map iv_id ?iv = map iv_id (bk_invoices b)" by simp
  then have d1: "distinct (map iv_id ?iv)" using D(1) by (simp only:)
  have py: "map py_id ?py = map py_id (bk_payments b)" by simp
  then have d2: "distinct (map py_id ?py)" using D(2) by (simp only:)
  have iv: "iv_paid u = paid_of ?al (iv_id u) \<and> iv_paid u \<le> iv_net u \<and> iv_net u = iv_gross u - iv_discount u + iv_fine u"
    if "u \<in> set ?iv" for u
  proof -
    from that obtain v where v: "v \<in> set (bk_invoices b)" "u = (if iv_id v \<in> set (invoices_paid_by b p) then resync t (paid_of ?al (iv_id v)) v else v)"
      unfolding set_map by blast
    note old = D(3) [OF v(1)]
    show ?thesis
    proof (cases "iv_id v \<in> set (invoices_paid_by b p)")
      case True
      with old v(2) paid_of_filter_le [OF pos, of "\<lambda>a. al_payment a \<noteq> p" "iv_id v"] show ?thesis by simp
    next
      case False
      then have "\<forall>a\<in>set (bk_allocs b). al_invoice a = iv_id v \<longrightarrow> al_payment a \<noteq> p" by (force simp: invoices_paid_by_def)
      from paid_of_filter_same [OF this] old v(2) False show ?thesis by simp
    qed
  qed
  have pay: "py_allocated u = spent_of ?al (py_id u) \<and> py_allocated u \<le> py_amount u
        \<and> 0 \<le> py_amount u \<and> (py_status u \<noteq> ''success'' \<longrightarrow> py_allocated u = 0)" if "u \<in> set ?py" for u
  proof -
    from that obtain v where v: "v \<in> set (bk_payments b)" "u = (if py_id v = p then v\<lparr>py_status := s, py_allocated := 0\<rparr> else v)"
      unfolding set_map by blast
    from D(4) [OF v(1)] v(2) show ?thesis by (cases "py_id v = p") (auto simp: spent_of_filter)
  qed
  have "py_id ` set ?py = py_id ` set (bk_payments b)" using py by (metis list.set_map)
  then have al: "0 < al_amount a \<and> al_payment a \<in> py_id ` set ?py" if "a \<in> set ?al" for a using D(5) that by simp
  show ?thesis by (rule books_okI [OF _ _ _ d1 d2 iv pay al]) simp_all
qed

lemma run_take_off:
  "run t ([DeleteAllocs p, SetPaymentStatus p s] @ map SyncInvoice (invoices_paid_by b p) @ [SyncPayment p]) b = Some
    (b\<lparr>bk_allocs := filter (\<lambda>a. al_payment a \<noteq> p) (bk_allocs b),
     bk_invoices := map (\<lambda>v. if iv_id v \<in> set (invoices_paid_by b p)
       then resync t (paid_of (filter (\<lambda>a. al_payment a \<noteq> p) (bk_allocs b)) (iv_id v)) v else v) (bk_invoices b),
     bk_payments := map (\<lambda>v. if py_id v = p then v\<lparr>py_status := s, py_allocated := 0\<rparr> else v) (bk_payments b)\<rparr>)"
proof -
  have "spent_of (filter (\<lambda>a. al_payment a \<noteq> p) (bk_allocs b)) p = 0" by (simp add: spent_of_filter)
  moreover have "map (\<lambda>v. if py_id v = p then v\<lparr>py_allocated := 0\<rparr> else v)
      (map (\<lambda>v. if py_id v = p then v\<lparr>py_status := s\<rparr> else v) (bk_payments b)) =
    map (\<lambda>v. if py_id v = p then v\<lparr>py_status := s, py_allocated := 0\<rparr> else v) (bk_payments b)" by simp
  ultimately show ?thesis
    by (simp only: run.simps run1.simps append.simps run_append run_syncs bind.simps syncPayment_def
        Books.select_convs Books.update_convs Books.simps) simp
qed

lemma add_fine_ok:
  assumes "books_ok b" "0 < n"
  shows "books_ok (b\<lparr>bk_invoices := add_fine s n (bk_invoices b)\<rparr>)"
proof (cases "sort_key due_key (filter (\<lambda>i. iv_student i = s \<and> owed i) (bk_invoices b))")
  case Nil
  with assms show ?thesis by (simp add: add_fine_def)
next
  case (Cons w ws)
  let ?f = "\<lambda>i. if iv_id i = iv_id w then i\<lparr>iv_fine := iv_fine i + n, iv_net := iv_gross i - iv_discount i + iv_fine i + n\<rparr> else i"
  have eq: "add_fine s n (bk_invoices b) = map ?f (bk_invoices b)" by (simp add: add_fine_def Cons)
  show ?thesis
    unfolding eq
  proof (rule books_ok_invoices [OF assms(1)])
    show "map iv_id (map ?f (bk_invoices b)) = map iv_id (bk_invoices b)" by simp
    fix u assume "u \<in> set (map ?f (bk_invoices b))"
    then obtain v where v: "v \<in> set (bk_invoices b)" "u = ?f v" unfolding set_map by blast
    from books_okD(3) [OF assms(1) v(1)] v(2) assms(2)
    show "iv_paid u = paid_of (bk_allocs b) (iv_id u) \<and> iv_paid u \<le> iv_net u
       \<and> iv_net u = iv_gross u - iv_discount u + iv_fine u" by (cases "iv_id v = iv_id w") auto
  qed
qed

end
