(* ===== verification/LedgerProps.thy ===== *)
theory LedgerProps
  imports LedgerProofs
begin

text \<open>
  The claims about the fee counter: the step relation of its handlers, the invariant of the books
  and the wallets over it, the order in which a payment is spread, and the one interleaving that
  breaks the books.
\<close>

subsection \<open>The wallets\<close>

definition wallets_ok :: "Books \<Rightarrow> bool" where
  "wallets_ok b \<longleftrightarrow> (\<forall>s w. bk_wallets b s = Some w \<longrightarrow> wl_balance w = wallet_of (bk_txns b) s \<and> 0 \<le> wl_balance w)
     \<and> (\<forall>x\<in>set (bk_txns b). bk_wallets b (fst x) \<noteq> None)"

lemma wallet_of_append [simp]: "wallet_of (xs @ ys) s = wallet_of xs s + wallet_of ys s"
  by (simp add: wallet_of_def)

lemma wallet_of_simps [simp]: "wallet_of [] s = 0" "wallet_of (x # xs) s = (if fst x = s then snd x else 0) + wallet_of xs s"
  by (simp_all add: wallet_of_def)

lemma wallet_of_none: "\<forall>x\<in>set ts. fst x \<noteq> s \<Longrightarrow> wallet_of ts s = 0"
  by (induction ts) auto

lemma books_ok_cong:
  "bk_invoices b' = bk_invoices b \<Longrightarrow> bk_payments b' = bk_payments b \<Longrightarrow> bk_allocs b' = bk_allocs b \<Longrightarrow> books_ok b' = books_ok b"
  by (simp add: books_ok_def)

lemma wallets_ok_cong: "bk_wallets b' = bk_wallets b \<Longrightarrow> bk_txns b' = bk_txns b \<Longrightarrow> wallets_ok b' = wallets_ok b"
  by (simp add: wallets_ok_def)

lemma wallets_okI:
  assumes "\<And>s w. bk_wallets b s = Some w \<Longrightarrow> wl_balance w = wallet_of (bk_txns b) s \<and> 0 \<le> wl_balance w"
    "\<And>x. x \<in> set (bk_txns b) \<Longrightarrow> bk_wallets b (fst x) \<noteq> None"
  shows "wallets_ok b"
  unfolding wallets_ok_def using assms by blast

lemma wallets_okD:
  assumes "wallets_ok b"
  shows "bk_wallets b s = Some w \<Longrightarrow> wl_balance w = wallet_of (bk_txns b) s \<and> 0 \<le> wl_balance w"
    "x \<in> set (bk_txns b) \<Longrightarrow> bk_wallets b (fst x) \<noteq> None"
  using assms unfolding wallets_ok_def by blast+

text \<open>
  A transaction on an open wallet, and the balance recomputed.
\<close>
lemma wallet_txn_ok:
  assumes "wallets_ok b" "bk_wallets b s = Some w" "0 \<le> wl_balance w + n"
  shows "\<exists>b'. run t [WalletTxn s n, SyncWallet s, AssertWallet s] b = Some b' \<and> wallets_ok b'
      \<and> run t [WalletTxn s n, SyncWallet s] b = Some b'
      \<and> bk_invoices b' = bk_invoices b \<and> bk_payments b' = bk_payments b \<and> bk_allocs b' = bk_allocs b"
proof -
  let ?b = "b\<lparr>bk_txns := bk_txns b @ [(s, n)], bk_wallets := (bk_wallets b)(s \<mapsto> w\<lparr>wl_balance := wallet_of (bk_txns b) s + n\<rparr>)\<rparr>"
  note W = wallets_okD [OF assms(1)]
  have bal: "0 \<le> wallet_of (bk_txns b) s + n" using W(1) [OF assms(2)] assms(3) by simp
  have r: "run t [WalletTxn s n, SyncWallet s, AssertWallet s] b = Some ?b" "run t [WalletTxn s n, SyncWallet s] b = Some ?b"
    using assms(2) bal by simp_all
  have "wallets_ok ?b"
  proof (rule wallets_okI)
    show "wl_balance u = wallet_of (bk_txns ?b) s' \<and> 0 \<le> wl_balance u" if "bk_wallets ?b s' = Some u" for s' u
      using that W(1) [of s' u] bal by (cases "s' = s") auto
    show "bk_wallets ?b (fst x) \<noteq> None" if "x \<in> set (bk_txns ?b)" for x
      using that W(2) [of x] assms(2) by auto
  qed
  from exI [where P = "\<lambda>b'. run t [WalletTxn s n, SyncWallet s, AssertWallet s] b = Some b' \<and> wallets_ok b'
      \<and> run t [WalletTxn s n, SyncWallet s] b = Some b'
      \<and> bk_invoices b' = bk_invoices b \<and> bk_payments b' = bk_payments b \<and> bk_allocs b' = bk_allocs b", of ?b]
    conjI [OF r(1) conjI [OF this conjI [OF r(2)]]]
  show ?thesis by simp
qed

lemma open_wallet_ok:
  assumes "wallets_ok b" "bk_wallets b s = None"
  shows "wallets_ok (b\<lparr>bk_wallets := (bk_wallets b)(s \<mapsto> \<lparr>wl_status = ''active'', wl_balance = 0\<rparr>)\<rparr>)"
proof -
  note W = wallets_okD [OF assms(1)]
  have "wallet_of (bk_txns b) s = 0" using W(2) assms(2) by (intro wallet_of_none ballI notI) metis
  moreover have "0 \<le> wallet_of (bk_txns b) u" if "bk_wallets b u = Some w" for u w
    using W(1) [OF that] by simp
  ultimately show ?thesis using W by (intro wallets_okI) (fastforce split: if_splits)+
qed

lemma run_debit:
  assumes "wallets_ok b" "wallet_debit b s n = Inr ws" "bk_wallets b' = bk_wallets b" "bk_txns b' = bk_txns b" "books_ok b'"
  shows "\<exists>b''. run t ws b' = Some b'' \<and> books_ok b'' \<and> wallets_ok b''"
proof -
  from assms(2) obtain w where w: "bk_wallets b s = Some w" "0 \<le> wl_balance w + - n" "ws = [WalletTxn s (- n), SyncWallet s, AssertWallet s]"
    by (auto simp: wallet_debit_def split: option.splits if_splits)
  have "wallets_ok b'" using assms(1) wallets_ok_cong [OF assms(3,4)] by simp
  from wallet_txn_ok [OF this, of s w "- n" t] w(1,2) assms(3) obtain b'' where
    "run t [WalletTxn s (- n), SyncWallet s, AssertWallet s] b' = Some b''" "wallets_ok b''"
    "bk_invoices b'' = bk_invoices b'" "bk_payments b'' = bk_payments b'" "bk_allocs b'' = bk_allocs b'" by auto
  with books_ok_cong [of b'' b'] assms(5) w(3) show ?thesis by auto
qed

subsection \<open>Each handler\<close>

definition new_payment :: "string \<Rightarrow> CollectReq \<Rightarrow> int \<Rightarrow> Payment" where
  "new_payment pid req amount = \<lparr>py_id = pid, py_student = cr_student req, py_amount = amount, py_allocated = 0,
     py_mode = cr_mode req, py_paid_on = cr_paid_on req,
     py_status = (if cr_mode req = ''cheque'' \<or> cr_mode req = ''dd'' then ''pending'' else ''success'')\<rparr>"

definition selected_dues :: "Books \<Rightarrow> CollectReq \<Rightarrow> Invoice list" where
  "selected_dues b req = filter (\<lambda>d. cr_invoices req = [] \<or> iv_id d \<in> set (cr_invoices req)) (outstanding b (cr_student req))"

lemma collect_Inr:
  assumes "collect students po t pid req b = Inr (al, r, stmts)"
  obtains amount where "cr_amount req = Some amount" "0 < amount"
    "amount \<le> (\<Sum>d\<leftarrow>selected_dues b req. iv_net d - iv_paid d)"
    "cr_mode req \<in> {''cheque'', ''dd''} \<and> al = [] \<and> r = amount \<and> stmts = [InsertPayment (new_payment pid req amount)]
     \<or> cr_mode req \<notin> {''cheque'', ''dd''} \<and> (\<exists>st ws. allocate b (cr_student req) pid amount (cr_invoices req) = Some (al, r, st)
         \<and> stmts = InsertPayment (new_payment pid req amount) # st @ ws
         \<and> (if cr_mode req = ''wallet'' then wallet_debit b (cr_student req) amount = Inr ws else ws = []))"
proof -
  from assms obtain amount where a: "cr_amount req = Some amount" "0 < amount"
    unfolding collect_def Let_def by (auto split: option.splits if_splits)
  have due: "amount \<le> (\<Sum>d\<leftarrow>selected_dues b req. iv_net d - iv_paid d)"
    using assms a unfolding collect_def Let_def selected_dues_def by (auto split: option.splits if_splits)
  show ?thesis
  proof (cases "cr_mode req \<in> {''cheque'', ''dd''}")
    case True
    then have "al = [] \<and> r = amount \<and> stmts = [InsertPayment (new_payment pid req amount)]"
      using assms a unfolding collect_def Let_def new_payment_def by (auto split: option.splits if_splits)
    with that [OF a due] True show ?thesis by blast
  next
    case False
    then have "\<exists>st ws. allocate b (cr_student req) pid amount (cr_invoices req) = Some (al, r, st)
         \<and> stmts = InsertPayment (new_payment pid req amount) # st @ ws
         \<and> (if cr_mode req = ''wallet'' then wallet_debit b (cr_student req) amount = Inr ws else ws = [])"
      using assms a unfolding collect_def Let_def new_payment_def
      by (auto split: option.splits if_splits sum.splits)
    with that [OF a due] False show ?thesis by blast
  qed
qed

lemma collect_ok:
  assumes ok: "books_ok b" "wallets_ok b" and c: "collect students po t pid req b = Inr (al, r, stmts)"
    and new: "find_payment b pid = None"
  shows "\<exists>b'. run t stmts b = Some b' \<and> books_ok b' \<and> wallets_ok b'"
proof -
  from c obtain amount where a: "cr_amount req = Some amount" "0 < amount"
    and cases: "cr_mode req \<in> {''cheque'', ''dd''} \<and> al = [] \<and> r = amount \<and> stmts = [InsertPayment (new_payment pid req amount)]
     \<or> cr_mode req \<notin> {''cheque'', ''dd''} \<and> (\<exists>st ws. allocate b (cr_student req) pid amount (cr_invoices req) = Some (al, r, st)
         \<and> stmts = InsertPayment (new_payment pid req amount) # st @ ws
         \<and> (if cr_mode req = ''wallet'' then wallet_debit b (cr_student req) amount = Inr ws else ws = []))"
    by (rule collect_Inr)
  let ?w = "new_payment pid req amount"
  let ?b = "b\<lparr>bk_payments := bk_payments b @ [?w]\<rparr>"
  have fresh: "pid \<notin> py_id ` set (bk_payments b)" by (rule find_payment_None [OF new])
  have ok1: "books_ok ?b" by (rule new_payment_ok [OF ok(1)]) (use fresh a in \<open>auto simp: new_payment_def\<close>)
  have w1: "wallets_ok ?b" using ok(2) wallets_ok_cong [of ?b b] by simp
  have ins: "run1 t (InsertPayment ?w) b = Some ?b" using fresh by (auto simp: list_ex_iff new_payment_def)
  from cases show ?thesis
  proof
    assume "cr_mode req \<in> {''cheque'', ''dd''} \<and> al = [] \<and> r = amount \<and> stmts = [InsertPayment ?w]"
    with ins ok1 w1 show ?thesis by simp
  next
    assume asm: "cr_mode req \<notin> {''cheque'', ''dd''} \<and> (\<exists>st ws. allocate b (cr_student req) pid amount (cr_invoices req) = Some (al, r, st)
         \<and> stmts = InsertPayment ?w # st @ ws
         \<and> (if cr_mode req = ''wallet'' then wallet_debit b (cr_student req) amount = Inr ws else ws = []))"
    then obtain st ws where s: "allocate b (cr_student req) pid amount (cr_invoices req) = Some (al, r, st)"
      "stmts = InsertPayment ?w # st @ ws" "if cr_mode req = ''wallet'' then wallet_debit b (cr_student req) amount = Inr ws else ws = []"
      by blast
    note A = allocate_spec [OF s(1) books_okD(1) [OF ok(1)]]
    have a0: "0 \<le> amount" using a(2) by simp
    have free: "\<forall>x\<in>set (bk_allocs ?b). al_payment x \<noteq> pid"
    proof (intro ballI notI)
      fix x assume "x \<in> set (bk_allocs ?b)" "al_payment x = pid"
      with books_okD(5) [OF ok(1), of x] fresh show False by simp
    qed
    have "\<exists>b'. run t (alloc_stmts pid al) ?b = Some b' \<and> books_ok b' \<and> bk_wallets b' = bk_wallets ?b \<and> bk_txns b' = bk_txns ?b"
      by (rule alloc_keeps_books [OF ok1, of ?w]) (use A(2-5) [OF a0] free asm in \<open>auto simp: new_payment_def\<close>)
    then obtain b1 where b1: "run t st ?b = Some b1" "books_ok b1" "bk_wallets b1 = bk_wallets b" "bk_txns b1 = bk_txns b"
      using A(1) [OF a0] by auto
    show ?thesis
    proof (cases "cr_mode req = ''wallet''")
      case True
      with s(3) have "wallet_debit b (cr_student req) amount = Inr ws" by simp
      from run_debit [OF ok(2) this b1(3,4,2), of t] b1(1) ins s(2) show ?thesis by (auto simp: run_append)
    next
      case False
      with s(2,3) ins b1 ok(2) wallets_ok_cong [of b1 b] show ?thesis by (auto simp: run_append)
    qed
  qed
qed


lemma settle_ok:
  assumes "books_ok b" "wallets_ok b" "w \<in> set (bk_payments b)" "py_id w = p" "py_status w = ''success''" "py_allocated w = 0"
    "invs = bk_invoices b" "allocate b0 s p (py_amount w) [] = Some (al, r, stmts)" "bk_invoices b0 = invs"
  shows "\<exists>b'. run t stmts b = Some b' \<and> books_ok b' \<and> wallets_ok b'"
proof -
  have n: "0 \<le> py_amount w" using books_okD(4) [OF assms(1,3)] by simp
  have d: "distinct (map iv_id (bk_invoices b0))" using books_okD(1) [OF assms(1)] assms(7,9) by simp
  note A = allocate_spec [OF assms(8) d n]
  have free: "\<forall>a\<in>set (bk_allocs b). al_payment a \<noteq> p" using books_ok_unallocated [OF assms(1,3,6)] assms(4) by simp
  have "\<exists>b'. run t (alloc_stmts p al) b = Some b' \<and> books_ok b' \<and> bk_wallets b' = bk_wallets b \<and> bk_txns b' = bk_txns b"
    by (rule alloc_keeps_books [OF assms(1,3,4,5) free A(2)]) (use A(3-5) assms(7,9) in auto)
  with A(1) assms(2) wallets_ok_cong show ?thesis by metis
qed

lemma outstanding_cong: "bk_invoices b = bk_invoices b' \<Longrightarrow> allocate b s p n ids = allocate b' s p n ids"
  by (simp add: allocate_def outstanding_def)

lemma clear_ok:
  assumes "books_ok b" "wallets_ok b" "clear p b = Inr stmts"
  shows "\<exists>b'. run t stmts b = Some b' \<and> books_ok b' \<and> wallets_ok b'"
proof -
  from assms(3) obtain w al r st where w: "find_payment b p = Some w" "py_status w = ''pending''"
    and a: "allocate b (py_student w) p (py_amount w) [] = Some (al, r, st)" and s: "stmts = SetPaymentStatus p ''success'' # st"
    by (auto simp: clear_def split: option.splits if_splits)
  note f = find_payment_Some [OF w(1)]
  let ?b = "b\<lparr>bk_payments := map (\<lambda>v. if py_id v = p then v\<lparr>py_status := ''success''\<rparr> else v) (bk_payments b)\<rparr>"
  have "\<exists>b'. run t st ?b = Some b' \<and> books_ok b' \<and> wallets_ok b'"
  proof (rule settle_ok)
    show "books_ok ?b" by (rule status_payment_ok [OF assms(1) f]) simp
    show "wallets_ok ?b" using assms(2) wallets_ok_cong [of ?b b] by simp
    show "w\<lparr>py_status := ''success''\<rparr> \<in> set (bk_payments ?b)" using f by force
    show "py_allocated (w\<lparr>py_status := ''success''\<rparr>) = 0" using books_okD(4) [OF assms(1) f(1)] w(2) by simp
    show "allocate b (py_student w) p (py_amount (w\<lparr>py_status := ''success''\<rparr>)) [] = Some (al, r, st)" using a by simp
    show "bk_invoices b = bk_invoices ?b" by simp
  qed (use f in simp_all)
  with s show ?thesis by simp
qed

lemma take_off_ok:
  assumes "books_ok b"
  obtains b' where "run t ([DeleteAllocs p, SetPaymentStatus p s] @ map SyncInvoice (invoices_paid_by b p) @ [SyncPayment p]) b = Some b'"
    "books_ok b'" "bk_wallets b' = bk_wallets b" "bk_txns b' = bk_txns b"
  by (rule that, rule run_take_off, rule deleted_ok [OF assms]) simp_all

lemma bounce_ok:
  assumes "books_ok b" "wallets_ok b" "bounce po cfg n p b = Inr stmts"
  shows "\<exists>b'. run t stmts b = Some b' \<and> books_ok b' \<and> wallets_ok b'"
proof -
  from assms(3) obtain w where f: "find_payment b p = Some w" "po (py_paid_on w)"
    by (auto simp: bounce_def split: option.splits if_splits)
  define fine where "fine = (if n \<le> 0 then (case cfg of Some m \<Rightarrow> m | None \<Rightarrow> n) else n)"
  have s: "stmts = ([DeleteAllocs p, SetPaymentStatus p ''bounced''] @ map SyncInvoice (invoices_paid_by b p) @ [SyncPayment p])
      @ (if 0 < fine then [AddFine (py_student w) fine] else [])"
    using assms(3) f unfolding bounce_def Let_def fine_def by simp
  obtain b1 where b1: "run t ([DeleteAllocs p, SetPaymentStatus p ''bounced''] @ map SyncInvoice (invoices_paid_by b p) @ [SyncPayment p]) b = Some b1"
    "books_ok b1" "bk_wallets b1 = bk_wallets b" "bk_txns b1 = bk_txns b" by (rule take_off_ok [OF assms(1)])
  have w1: "wallets_ok b1" using wallets_ok_cong [OF b1(3,4)] assms(2) by simp
  have run: "run t stmts b = run t (if 0 < fine then [AddFine (py_student w) fine] else []) b1"
    unfolding s run_append [of t "_ @ _" "if _ then _ else _"] b1(1) by simp
  show ?thesis
  proof (cases "0 < fine")
    case True
    let ?b = "b1\<lparr>bk_invoices := add_fine (py_student w) fine (bk_invoices b1)\<rparr>"
    have "books_ok ?b" "wallets_ok ?b" using add_fine_ok [OF b1(2) True] w1 wallets_ok_cong [of ?b b1] by auto
    with run True show ?thesis by simp
  next
    case False
    with run b1(2) w1 show ?thesis by simp
  qed
qed

lemma void_ok:
  assumes "books_ok b" "wallets_ok b" "void_payment po fresh reason p b = Inr stmts"
  shows "\<exists>b'. run t stmts b = Some b' \<and> books_ok b' \<and> wallets_ok b'"
proof -
  from assms(3) have s: "stmts = [DeleteAllocs p, SetPaymentStatus p ''cancelled''] @ map SyncInvoice (invoices_paid_by b p) @ [SyncPayment p]"
    by (auto simp: void_payment_def Let_def split: option.splits if_splits)
  obtain b1 where "run t stmts b = Some b1" "books_ok b1" "bk_wallets b1 = bk_wallets b" "bk_txns b1 = bk_txns b"
    unfolding s by (rule take_off_ok [OF assms(1)])
  with wallets_ok_cong [of b1 b] assms(2) show ?thesis by auto
qed

text \<open>
  The two batches of a move: between them the payment still shows its old allocated amount.
\<close>
lemma student_payment_ok:
  assumes "books_ok b"
  shows "books_ok (b\<lparr>bk_payments := map (\<lambda>v. if py_id v = p then v\<lparr>py_student := s\<rparr> else v) (bk_payments b)\<rparr>)"
proof (rule books_ok_payments [OF assms])
  show "map py_id (map (\<lambda>v. if py_id v = p then v\<lparr>py_student := s\<rparr> else v) (bk_payments b)) = map py_id (bk_payments b)" by simp
  fix u assume "u \<in> set (map (\<lambda>v. if py_id v = p then v\<lparr>py_student := s\<rparr> else v) (bk_payments b))"
  then obtain v where "v \<in> set (bk_payments b)" "u = (if py_id v = p then v\<lparr>py_student := s\<rparr> else v)" unfolding set_map by blast
  with books_okD(4) [OF assms, of v] show "py_allocated u = spent_of (bk_allocs b) (py_id u) \<and> py_allocated u \<le> py_amount u
        \<and> 0 \<le> py_amount u \<and> (py_status u \<noteq> ''success'' \<longrightarrow> py_allocated u = 0)" by (cases "py_id v = p") auto
qed

lemma alloc_stmts_resync:
  assumes "distinct (map fst al)" "\<forall>a\<in>set (bk_allocs b). al_payment a \<noteq> p"
  shows "run t (alloc_stmts p al) (b\<lparr>bk_payments := map (\<lambda>v. if py_id v = p then v\<lparr>py_allocated := n\<rparr> else v) (bk_payments b)\<rparr>)
    = run t (alloc_stmts p al) b"
proof -
  have "map (\<lambda>v. if py_id v = p then v\<lparr>py_allocated := m\<rparr> else v) (map (\<lambda>v. if py_id v = p then v\<lparr>py_allocated := n\<rparr> else v) P)
    = map (\<lambda>v. if py_id v = p then v\<lparr>py_allocated := m\<rparr> else v) P" for m and P :: "Payment list" by simp
  then show ?thesis using assms by (simp add: run_alloc_stmts)
qed

lemma allocate_after_ok:
  assumes ok: "books_ok b" "wallets_ok b" and w: "find_payment b p = Some w" "py_status w = ''success''" "py_allocated w = 0"
  shows "\<exists>b'. run t (allocate_after p b) b = Some b' \<and> books_ok b' \<and> wallets_ok b'"
proof -
  obtain al r st where a: "allocate b (py_student w) p (py_amount w) [] = Some (al, r, st)"
    by (cases "spread (outstanding b (py_student w)) (py_amount w)") (simp add: allocate_def Let_def)
  have "\<exists>b'. run t st b = Some b' \<and> books_ok b' \<and> wallets_ok b'"
    by (rule settle_ok [OF ok find_payment_Some [OF w(1)] w(2,3) refl a refl])
  then show ?thesis by (simp add: allocate_after_def w(1) a)
qed

lemma find_map: "(\<And>v. py_id (f v) = py_id v) \<Longrightarrow> find (\<lambda>v. py_id v = p) (map f ps) = map_option f (find (\<lambda>v. py_id v = p) ps)"
  by (induction ps) auto

lemma payment_eta: "py_status v = ''success'' \<Longrightarrow> v\<lparr>py_status := ''success'', py_allocated := 0, py_student := s\<rparr> = v\<lparr>py_student := s, py_allocated := 0\<rparr>"
  by (cases v) simp

lemma move_ok:
  assumes ok: "books_ok b" "wallets_ok b" and m: "move_payment students po fresh reason p target b = Inr stmts"
  shows "\<exists>b1 b2. run t stmts b = Some b1 \<and> run t (allocate_after p b1) b1 = Some b2 \<and> books_ok b2 \<and> wallets_ok b2"
proof -
  from m obtain w where w: "find_payment b p = Some w" "py_status w = ''success''"
    and s: "stmts = DeleteAllocs p # map SyncInvoice (invoices_paid_by b p) @ [MovePayment p target]"
    by (auto simp: move_payment_def split: option.splits if_splits)
  note f = find_payment_Some [OF w(1)]
  let ?A = "filter (\<lambda>a. al_payment a \<noteq> p) (bk_allocs b)"
  let ?I = "map (\<lambda>v. if iv_id v \<in> set (invoices_paid_by b p) then resync t (paid_of ?A (iv_id v)) v else v) (bk_invoices b)"
  let ?x = "\<lambda>v. if py_id v = p then v\<lparr>py_status := ''success'', py_allocated := 0\<rparr> else v"
  let ?mv = "\<lambda>v. if py_id v = p then v\<lparr>py_student := target\<rparr> else v"
  let ?z = "\<lambda>v. if py_id v = p then v\<lparr>py_allocated := 0\<rparr> else v"
  define X where "X = b\<lparr>bk_allocs := ?A, bk_invoices := ?I, bk_payments := map ?x (bk_payments b)\<rparr>"
  define b1 where "b1 = b\<lparr>bk_allocs := ?A, bk_invoices := ?I, bk_payments := map ?mv (bk_payments b)\<rparr>"
  define Y where "Y = X\<lparr>bk_payments := map ?mv (bk_payments X)\<rparr>"
  have "books_ok X" unfolding X_def by (rule deleted_ok [OF ok(1)])
  then have Y: "books_ok Y" unfolding Y_def by (rule student_payment_ok)
  have "?mv (?x v) = ?z (?mv v)" if "v \<in> set (bk_payments b)" for v
    using payment_eta [of v target] payment_unique [OF ok(1) that f(1)] f(2) w(2) by auto
  then have Y_eq: "Y = b1\<lparr>bk_payments := map ?z (bk_payments b1)\<rparr>"
    by (simp add: Y_def X_def b1_def comp_def cong: map_cong)
  have run1: "run t stmts b = Some b1"
    unfolding s b1_def by (simp add: run_append run_syncs cong: if_cong)
  have fy: "find_payment b1 p = Some (w\<lparr>py_student := target\<rparr>)" "find_payment Y p = Some (w\<lparr>py_student := target, py_allocated := 0\<rparr>)"
    using w(1) f(2) unfolding Y_eq by (simp_all add: find_payment_def b1_def find_map)
  have wy: "wallets_ok Y" using ok(2) wallets_ok_cong [of Y b] by (simp add: Y_def X_def)
  obtain al r where a: "allocate b1 target p (py_amount w) [] = Some (al, r, alloc_stmts p al)"
    by (cases "spread (outstanding b1 target) (py_amount w)") (simp add: allocate_def Let_def)
  have a': "allocate Y target p (py_amount w) [] = Some (al, r, alloc_stmts p al)"
    unfolding a [symmetric] by (rule outstanding_cong) (simp add: Y_eq)
  have after: "allocate_after p b1 = alloc_stmts p al" "allocate_after p Y = alloc_stmts p al"
    using a a' by (simp_all add: allocate_after_def fy)
  have d: "distinct (map iv_id (bk_invoices Y))" "0 \<le> py_amount w"
    using books_okD(1) [OF Y] books_okD(4) [OF ok(1) f(1)] by auto
  from allocate_after_ok [OF Y wy fy(2)] w(2) obtain b2 where b2: "run t (alloc_stmts p al) Y = Some b2" "books_ok b2" "wallets_ok b2"
    unfolding after by auto
  have "run t (alloc_stmts p al) b1 = Some b2"
    using b2(1) alloc_stmts_resync [where b = b1 and t = t and n = 0, OF allocate_spec(2) [OF a' d]] by (simp add: Y_eq b1_def)
  with run1 after b2 show ?thesis by auto
qed

lemma force_ok:
  assumes ok: "books_ok b" "wallets_ok b" and m: "force_success po fresh reason p b = Inr stmts"
  shows "\<exists>b1 b2. run t stmts b = Some b1 \<and> run t (allocate_after p b1) b1 = Some b2 \<and> books_ok b2 \<and> wallets_ok b2"
proof -
  from m obtain w where w: "find_payment b p = Some w" "py_status w = ''pending''" and s: "stmts = [SetPaymentStatus p ''success'']"
    by (auto simp: force_success_def split: option.splits if_splits)
  note f = find_payment_Some [OF w(1)]
  let ?f = "\<lambda>v. if py_id v = p then v\<lparr>py_status := ''success''\<rparr> else v"
  define b1 where "b1 = b\<lparr>bk_payments := map ?f (bk_payments b)\<rparr>"
  have b1: "books_ok b1" unfolding b1_def by (rule status_payment_ok [OF ok(1) f]) simp
  have w1: "wallets_ok b1" using ok(2) wallets_ok_cong [of b1 b] by (simp add: b1_def)
  have "find_payment b1 p = Some (w\<lparr>py_status := ''success''\<rparr>)" using w(1) f(2) by (simp add: find_payment_def b1_def find_map)
  from allocate_after_ok [OF b1 w1 this] books_okD(4) [OF ok(1) f(1)] w(2) have "\<exists>b2. run t (allocate_after p b1) b1 = Some b2 \<and> books_ok b2 \<and> wallets_ok b2" by simp
  with s show ?thesis by (simp add: b1_def)
qed

lemma topup_ok:
  assumes ok: "books_ok b" "wallets_ok b" and m: "wallet_topup students po fresh t0 amount mode ref s b = Inr stmts"
  shows "\<exists>b'. run t stmts b = Some b' \<and> books_ok b' \<and> wallets_ok b'"
proof -
  from m obtain n where n: "0 < n" "stmts = [OpenWallet s, WalletTxn s n, SyncWallet s]"
    by (auto simp: wallet_topup_def Let_def split: option.splits if_splits)
  obtain b1 w where b1: "run1 t (OpenWallet s) b = Some b1" "bk_wallets b1 s = Some w" "wallets_ok b1" "books_ok b1"
  proof (cases "bk_wallets b s")
    case None
    let ?b = "b\<lparr>bk_wallets := (bk_wallets b)(s \<mapsto> \<lparr>wl_status = ''active'', wl_balance = 0\<rparr>)\<rparr>"
    show ?thesis
      by (rule that [of ?b]) (use None open_wallet_ok [OF ok(2) None] ok(1) books_ok_cong [of ?b b] in simp_all)
  qed (use that ok in simp)
  have "0 \<le> wl_balance w + n" using wallets_okD(1) [OF b1(3,2)] n(1) by simp
  from wallet_txn_ok [OF b1(3,2) this, of t] obtain b2 where "run t [WalletTxn s n, SyncWallet s] b1 = Some b2" "wallets_ok b2"
    "bk_invoices b2 = bk_invoices b1" "bk_payments b2 = bk_payments b1" "bk_allocs b2 = bk_allocs b1" by auto
  with b1 n(2) books_ok_cong [of b2 b1] show ?thesis by auto
qed

lemma adjust_ok:
  assumes ok: "books_ok b" "wallets_ok b" and m: "wallet_adjust students po fresh t0 delta note s b = Inr stmts" and r: "run t stmts b = Some b'"
  shows "books_ok b' \<and> wallets_ok b'"
proof -
  from m obtain n where n: "stmts = [OpenWallet s, WalletTxn s n, SyncWallet s, AssertWallet s]"
    by (auto simp: wallet_adjust_def Let_def split: option.splits if_splits)
  obtain b1 w where b1: "run1 t (OpenWallet s) b = Some b1" "bk_wallets b1 s = Some w" "wallets_ok b1" "books_ok b1"
  proof (cases "bk_wallets b s")
    case None
    let ?b = "b\<lparr>bk_wallets := (bk_wallets b)(s \<mapsto> \<lparr>wl_status = ''active'', wl_balance = 0\<rparr>)\<rparr>"
    show ?thesis
      by (rule that [of ?b]) (use None open_wallet_ok [OF ok(2) None] ok(1) books_ok_cong [of ?b b] in simp_all)
  qed (use that ok in simp)
  have run: "run t [WalletTxn s n, SyncWallet s, AssertWallet s] b1 = Some b'" using r n b1(1) by simp
  have pos: "0 \<le> wl_balance w + n"
  proof (rule ccontr)
    assume "\<not> 0 \<le> wl_balance w + n"
    then have "run t [WalletTxn s n, SyncWallet s, AssertWallet s] b1 = None" using wallets_okD(1) [OF b1(3,2)] b1(2) by simp
    with run show False by simp
  qed
  from wallet_txn_ok [OF b1(3,2) pos, of t] run have "wallets_ok b'"
    "bk_invoices b' = bk_invoices b1" "bk_payments b' = bk_payments b1" "bk_allocs b' = bk_allocs b1" by auto
  with b1(4) books_ok_cong [of b' b1] show ?thesis by simp
qed

subsection \<open>The counter as a transition system\<close>

text \<open>
  Any handler, any day, any open periods and roll of students: each request reads the books and
  writes its batch alone.  A move and a forced success write their second batch at once after.
\<close>

inductive ledger_step :: "Books \<Rightarrow> Books \<Rightarrow> bool" where
  collected: "collect students po t pid req b = Inr (al, r, stmts) \<Longrightarrow> find_payment b pid = None \<Longrightarrow> run t stmts b = Some b' \<Longrightarrow> ledger_step b b'"
| cleared: "clear p b = Inr stmts \<Longrightarrow> run t stmts b = Some b' \<Longrightarrow> ledger_step b b'"
| bounced: "bounce po cfg n p b = Inr stmts \<Longrightarrow> run t stmts b = Some b' \<Longrightarrow> ledger_step b b'"
| voided: "void_payment po fresh why p b = Inr stmts \<Longrightarrow> run t stmts b = Some b' \<Longrightarrow> ledger_step b b'"
| moved: "move_payment students po fresh why p target b = Inr stmts \<Longrightarrow> run t stmts b = Some b1
    \<Longrightarrow> run t (allocate_after p b1) b1 = Some b' \<Longrightarrow> ledger_step b b'"
| forced: "force_success po fresh why p b = Inr stmts \<Longrightarrow> run t stmts b = Some b1
    \<Longrightarrow> run t (allocate_after p b1) b1 = Some b' \<Longrightarrow> ledger_step b b'"
| topped_up: "wallet_topup students po fresh t amount mode ref s b = Inr stmts \<Longrightarrow> run t stmts b = Some b' \<Longrightarrow> ledger_step b b'"
| adjusted: "wallet_adjust students po fresh t delta why s b = Inr stmts \<Longrightarrow> run t stmts b = Some b' \<Longrightarrow> ledger_step b b'"

lemma ledger_step_ok: "ledger_step b b' \<Longrightarrow> books_ok b \<and> wallets_ok b \<Longrightarrow> books_ok b' \<and> wallets_ok b'"
proof (induction rule: ledger_step.induct)
  case (collected students po t pid req b al r stmts b')
  then show ?case using collect_ok [of b students po t pid req al r stmts] by auto
next
  case (cleared p b stmts t b')
  then show ?case using clear_ok [of b p stmts t] by auto
next
  case (bounced po cfg n p b stmts t b')
  then show ?case using bounce_ok [of b po cfg n p stmts t] by auto
next
  case (voided po fresh why p b stmts t b')
  then show ?case using void_ok [of b po fresh why p stmts t] by auto
next
  case (moved students po fresh why p target b stmts t b1 b')
  then show ?case using move_ok [of b students po fresh why p target stmts t] by auto
next
  case (forced po fresh why p b stmts t b1 b')
  then show ?case using force_ok [of b po fresh why p stmts t] by auto
next
  case (topped_up students po fresh t amount mode ref s b stmts b')
  then show ?case using topup_ok [of b students po fresh t amount mode ref s stmts t] by auto
next
  case (adjusted students po fresh t delta why s b stmts b')
  then show ?case using adjust_ok by blast
qed

subsection \<open>The order of spreading\<close>

lemma spread_exhausts:
  "\<forall>d\<in>set ds. iv_paid d < iv_net d \<Longrightarrow> 0 \<le> r \<Longrightarrow> r \<le> (\<Sum>d\<leftarrow>ds. iv_net d - iv_paid d) \<Longrightarrow> snd (spread ds r) = 0"
proof (induction ds arbitrary: r)
  case (Cons d ds)
  show ?case
  proof (cases "r = 0")
    case False
    then have r: "0 < r" "iv_paid d < iv_net d" using Cons.prems by auto
    have "0 \<le> (\<Sum>d\<leftarrow>ds. iv_net d - iv_paid d)" by (rule sum_list_nonneg) (use Cons.prems(1) in auto)
    then have "snd (spread ds (r - min (iv_net d - iv_paid d) r)) = 0"
      by (intro Cons.IH) (use Cons.prems in auto)
    then show ?thesis unfolding spread_take [OF r] Let_def
      by (cases "spread ds (r - min (iv_net d - iv_paid d) r)") simp
  qed (simp add: spread_stop)
qed simp

lemma spread_prefix:
  "\<forall>d\<in>set ds. iv_paid d < iv_net d \<Longrightarrow> spread ds r = (al, r') \<Longrightarrow>
     map fst al = map iv_id (take (length al) ds)
   \<and> (\<forall>j. Suc j < length al \<longrightarrow> snd (al ! j) = iv_net (ds ! j) - iv_paid (ds ! j))
   \<and> (0 < r' \<longrightarrow> map snd al = map (\<lambda>d. iv_net d - iv_paid d) ds)"
proof (induction ds arbitrary: r al r')
  case (Cons d ds)
  show ?case
  proof (cases "0 < r")
    case True
    have d: "iv_paid d < iv_net d" using Cons.prems(1) by simp
    define m where "m = min (iv_net d - iv_paid d) r"
    obtain al0 where al0: "spread ds (r - m) = (al0, r')" "al = (iv_id d, m) # al0"
      using Cons.prems(2) spread_take [OF True d, of ds] by (auto simp: m_def split: prod.splits)
    from Cons.IH [OF _ al0(1)] Cons.prems(1)
    have IH: "map fst al0 = map iv_id (take (length al0) ds)" "\<forall>j. Suc j < length al0 \<longrightarrow> snd (al0 ! j) = iv_net (ds ! j) - iv_paid (ds ! j)"
      "0 < r' \<longrightarrow> map snd al0 = map (\<lambda>d. iv_net d - iv_paid d) ds" by auto
    have full: "m = iv_net d - iv_paid d" if "al0 \<noteq> [] \<or> 0 < r'"
    proof (rule ccontr)
      assume "m \<noteq> iv_net d - iv_paid d"
      then have "r - m \<le> 0" by (auto simp: m_def)
      with al0(1) that spread_stop [of "r - m" ds] \<open>m \<noteq> _\<close> show False by (auto simp: m_def)
    qed
    have "snd (al ! j) = iv_net ((d # ds) ! j) - iv_paid ((d # ds) ! j)" if "Suc j < length al" for j
      using that IH(2) full al0(2) by (cases j) auto
    with IH full al0(2) show ?thesis by auto
  next
    case False
    with Cons.prems(2) have "al = []" "r' = r" by (auto simp: spread_stop)
    with False show ?thesis by simp
  qed
qed simp

subsection \<open>A worked set of books\<close>

definition demo_invoice :: "string \<Rightarrow> string \<Rightarrow> string \<Rightarrow> int \<Rightarrow> Invoice" where
  "demo_invoice i no due net = \<lparr>iv_id = i, iv_no = no, iv_student = ''s1'', iv_issued_on = ''2026-04-01'', iv_due_on = Some due,
     iv_gross = net, iv_discount = 0, iv_fine = 0, iv_net = net, iv_paid = 0, iv_status = ''unpaid''\<rparr>"

definition demo_cheque :: "string \<Rightarrow> int \<Rightarrow> Payment" where
  "demo_cheque p n = \<lparr>py_id = p, py_student = ''s1'', py_amount = n, py_allocated = 0, py_mode = ''cheque'',
     py_paid_on = ''2026-06-01'', py_status = ''pending''\<rparr>"

definition demo_books :: Books where
  "demo_books = \<lparr>bk_invoices = [demo_invoice ''i2'' ''INV-2'' ''2026-07-10'' 300, demo_invoice ''i1'' ''INV-1'' ''2026-06-10'' 500],
     bk_payments = [demo_cheque ''c1'' 500, demo_cheque ''c2'' 400], bk_allocs = [], bk_wallets = Map.empty, bk_txns = []\<rparr>"

definition demo_request :: CollectReq where
  "demo_request = \<lparr>cr_student = ''s1'', cr_amount = Some 600, cr_mode = ''cash'', cr_paid_on = ''2026-06-15'', cr_reference = '''', cr_invoices = []\<rparr>"

definition demo_batch :: "Stmt list" where
  "demo_batch = InsertPayment \<lparr>py_id = ''p1'', py_student = ''s1'', py_amount = 600, py_allocated = 0, py_mode = ''cash'',
      py_paid_on = ''2026-06-15'', py_status = ''success''\<rparr>
    # alloc_stmts ''p1'' [(''i1'', 500), (''i2'', 100)]"

lemma demo_collect:
  "collect (\<lambda>_. Some ''active'') (\<lambda>_. True) ''2026-06-15'' ''p1'' demo_request demo_books = Inr ([(''i1'', 500), (''i2'', 100)], 0, demo_batch)"
  by code_simp

lemma demo_books_ok: "books_ok demo_books" "wallets_ok demo_books" "find_payment demo_books ''p1'' = None"
  by (simp_all add: books_ok_def wallets_ok_def find_payment_def demo_books_def demo_invoice_def demo_cheque_def)

subsection \<open>Claims\<close>

text \<open>
  C2. The books stay balanced and no wallet goes below zero: whatever receipts the counter takes,
  clears, bounces, voids, moves or forces, whatever it puts into or takes out of wallets, in any
  order, each handler on its own, every invoice's paid amount is the sum of the allocations made to
  it and at most its net, every payment allocates at most what was received and nothing before it
  arrives, and every wallet's balance is the sum of its transactions and not negative.
\<close>
theorem books_stay_balanced:
  assumes "ledger_step\<^sup>*\<^sup>* b b'" "books_ok b" "wallets_ok b"
  shows "books_ok b' \<and> wallets_ok b'"
  using assms
proof (induction rule: rtranclp_induct)
  case (step b1 b2)
  then show ?case using ledger_step_ok by blast
qed simp

theorem books_stay_balanced_witness: "\<exists>b'. ledger_step\<^sup>*\<^sup>* demo_books b' \<and> length (bk_allocs b') = 2 \<and> books_ok b' \<and> wallets_ok b'"
proof -
  have "list_all (\<lambda>b. length (bk_allocs b) = 2) (case run ''2026-06-15'' demo_batch demo_books of Some b \<Rightarrow> [b] | None \<Rightarrow> [])
      \<and> run ''2026-06-15'' demo_batch demo_books \<noteq> None" by code_simp
  then obtain b' where b': "run ''2026-06-15'' demo_batch demo_books = Some b'" "length (bk_allocs b') = 2" by auto
  have step: "ledger_step\<^sup>*\<^sup>* demo_books b'" by (rule r_into_rtranclp, rule ledger_step.collected [OF demo_collect demo_books_ok(3) b'(1)])
  from books_stay_balanced [OF step demo_books_ok(1,2)] step b'(2) show ?thesis by blast
qed

text \<open>
  The counter never writes half a receipt: over balanced books, when \<open>POST /fees/payments\<close>
  accepts a request its batch runs to the end, and what it leaves is balanced again.
\<close>
theorem collect_batch_runs:
  assumes "books_ok b" "wallets_ok b" "find_payment b pid = None"
    "collect students po t pid req b = Inr (al, r, stmts)"
  shows "\<exists>b'. run t stmts b = Some b' \<and> books_ok b' \<and> wallets_ok b'"
  by (rule collect_ok [OF assms(1,2,4,3)])

theorem collect_batch_runs_witness: "\<exists>b'. run ''2026-06-15'' demo_batch demo_books = Some b' \<and> books_ok b' \<and> wallets_ok b'"
  by (rule collect_batch_runs [OF demo_books_ok demo_collect])

text \<open>
  C11. Money taken is money accounted for: an accepted payment that is not a cheque is at most what
  the child's selected invoices still owe, and all of it is allocated at once, with nothing left on
  account; a cheque allocates nothing until it clears.
\<close>
theorem collect_allocates_all:
  assumes "collect students po t pid req b = Inr (al, r, stmts)"
  shows "\<exists>n. cr_amount req = Some n \<and> 0 < n
     \<and> n \<le> (\<Sum>d\<leftarrow>selected_dues b req. iv_net d - iv_paid d)
     \<and> (if cr_mode req = ''cheque'' \<or> cr_mode req = ''dd'' then al = [] else r = 0 \<and> (\<Sum>x\<leftarrow>al. snd x) = n)"
proof -
  from assms obtain n where n: "cr_amount req = Some n" "0 < n" and due: "n \<le> (\<Sum>d\<leftarrow>selected_dues b req. iv_net d - iv_paid d)"
    and c: "cr_mode req \<in> {''cheque'', ''dd''} \<and> al = [] \<and> r = n \<and> stmts = [InsertPayment (new_payment pid req n)]
     \<or> cr_mode req \<notin> {''cheque'', ''dd''} \<and> (\<exists>st ws. allocate b (cr_student req) pid n (cr_invoices req) = Some (al, r, st)
         \<and> stmts = InsertPayment (new_payment pid req n) # st @ ws
         \<and> (if cr_mode req = ''wallet'' then wallet_debit b (cr_student req) n = Inr ws else ws = []))"
    by (rule collect_Inr)
  have "r = 0 \<and> (\<Sum>x\<leftarrow>al. snd x) = n" if "cr_mode req \<noteq> ''cheque''" "cr_mode req \<noteq> ''dd''"
  proof -
    have dues: "(if cr_invoices req = [] then outstanding b (cr_student req)
        else filter (\<lambda>d. iv_id d \<in> set (cr_invoices req)) (outstanding b (cr_student req))) = selected_dues b req"
      by (simp add: selected_dues_def)
    from c that obtain st where "allocate b (cr_student req) pid n (cr_invoices req) = Some (al, r, st)" by blast
    then have sp: "spread (selected_dues b req) n = (al, r)"
      unfolding allocate_def dues Let_def by (auto split: if_splits prod.splits)
    have "\<forall>d\<in>set (selected_dues b req). iv_paid d < iv_net d" by (auto simp: selected_dues_def outstanding_dues)
    from spread_exhausts [OF this _ due] n sp have "r = 0" by simp
    with spread_spec [OF sp] show ?thesis by simp
  qed
  with n due c show ?thesis by auto
qed

theorem collect_allocates_all_witness:
  "\<exists>n. cr_amount demo_request = Some n \<and> 0 < n \<and> n \<le> (\<Sum>d\<leftarrow>selected_dues demo_books demo_request. iv_net d - iv_paid d)
     \<and> (if cr_mode demo_request = ''cheque'' \<or> cr_mode demo_request = ''dd'' then [(''i1'', 500::int), (''i2'', 100)] = []
        else (0::int) = 0 \<and> (\<Sum>x\<leftarrow>[(''i1'', 500), (''i2'', 100)]. snd x) = n)"
  by (rule collect_allocates_all [OF demo_collect])

text \<open>
  C12. Oldest first: a payment with no invoices named goes to the child's outstanding invoices in
  the order of due date (issue date where there is none) and then number; every invoice it reaches
  but the last is settled in full, and money is left over only when all of them are.
\<close>
theorem allocation_oldest_first:
  assumes "allocate b s p n [] = Some (al, r, stmts)"
  shows "sorted (map (\<lambda>d. (due_key d, iv_no d)) (outstanding b s))
    \<and> map fst al = map iv_id (take (length al) (outstanding b s))
    \<and> (\<forall>j. Suc j < length al \<longrightarrow> snd (al ! j) = iv_net (outstanding b s ! j) - iv_paid (outstanding b s ! j))
    \<and> (0 < r \<longrightarrow> map snd al = map (\<lambda>d. iv_net d - iv_paid d) (outstanding b s))"
proof -
  from assms have sp: "spread (outstanding b s) n = (al, r)" by (auto simp: allocate_def Let_def split: prod.splits)
  have "\<forall>d\<in>set (outstanding b s). iv_paid d < iv_net d" by (auto simp: outstanding_dues)
  moreover have "sorted (map (\<lambda>d. (due_key d, iv_no d)) (outstanding b s))" by (simp add: outstanding_def)
  ultimately show ?thesis using spread_prefix [OF _ sp] by blast
qed

theorem allocation_oldest_first_witness:
  "map iv_id (outstanding demo_books ''s1'') = [''i1'', ''i2'']
    \<and> map fst [(''i1'', 500::int), (''i2'', 100)] = map iv_id (take 2 (outstanding demo_books ''s1''))"
proof -
  have a: "allocate demo_books ''s1'' ''p1'' 600 [] = Some ([(''i1'', 500), (''i2'', 100)], 0, alloc_stmts ''p1'' [(''i1'', 500), (''i2'', 100)])"
    and d: "map iv_id (outstanding demo_books ''s1'') = [''i1'', ''i2'']" by code_simp+
  from allocation_oldest_first [OF a] have "map fst [(''i1'', 500::int), (''i2'', 100)] = map iv_id (take 2 (outstanding demo_books ''s1''))"
    by (simp add: numeral_2_eq_2)
  with d show ?thesis by blast
qed

text \<open>
  The one interleaving that breaks them: two cheques of one child, both read before either
  batch is written, are both allocated to the oldest invoice.  Both batches succeed, and the
  invoice of 500 ends with 900 paid, so the books are balanced before and not after.
\<close>
theorem clearing_two_cheques_at_once_overpays:
  "books_ok demo_books \<and> (case (clear ''c1'' demo_books, clear ''c2'' demo_books) of
     (Inr s1, Inr s2) \<Rightarrow> (case run ''2026-06-15'' (s1 @ s2) demo_books of
        Some b \<Rightarrow> paid_of (bk_allocs b) ''i1'' = 900 \<and> (\<exists>v\<in>set (bk_invoices b). iv_id v = ''i1'' \<and> iv_net v = 500 \<and> iv_paid v = 900)
      | None \<Rightarrow> False)
   | _ \<Rightarrow> False)"
proof
  show "case (clear ''c1'' demo_books, clear ''c2'' demo_books) of
     (Inr s1, Inr s2) \<Rightarrow> (case run ''2026-06-15'' (s1 @ s2) demo_books of
        Some b \<Rightarrow> paid_of (bk_allocs b) ''i1'' = 900 \<and> (\<exists>v\<in>set (bk_invoices b). iv_id v = ''i1'' \<and> iv_net v = 500 \<and> iv_paid v = 900)
      | None \<Rightarrow> False)
   | _ \<Rightarrow> False" by code_simp
qed (rule demo_books_ok(1))

end
