(* ===== verification/Double.thy ===== *)
theory Double
  imports Prelude
begin

text \<open>
  JavaScript numbers where the code leaves the integers: percentages, ratios of days, divided
  money.  A number is the rational it denotes; every operation of the source is the exact one
  followed by \<open>fl\<close>, rounding to 53 bits, ties to even.  (No overflow and no subnormals: the
  quantities are rupees, days and percentages.)  \<open>fl\<close> is monotone and leaves every number on the
  grid alone, which is all the proofs use of it.
\<close>

subsection \<open>Rounding\<close>

definition pow2 :: "int \<Rightarrow> rat" where
  "pow2 e = (if 0 \<le> e then 2 ^ nat e else 1 / 2 ^ nat (- e))"

definition round_even :: "rat \<Rightarrow> int" where
  "round_even x = (let n = \<lfloor>x\<rfloor>; d = x - of_int n in
     if d < 1/2 then n else if 1/2 < d then n + 1 else if even n then n else n + 1)"

text \<open>The bits of a whole number, and the exponent that puts a positive rational in \<open>[2 ^ 52, 2 ^ 53)\<close>.\<close>

function bit_len :: "int \<Rightarrow> nat" where
  "bit_len n = (if n \<le> 0 then 0 else Suc (bit_len (n div 2)))"
  by auto
termination by (relation "measure nat") auto

declare bit_len.simps [simp del]

definition exponent_of :: "rat \<Rightarrow> int" where
  "exponent_of x = (let (p, q) = quotient_of x; k = int (bit_len p) - int (bit_len q)
     in (if pow2 k \<le> x then k else k - 1) - 52)"

definition fl_pos :: "rat \<Rightarrow> rat" where
  "fl_pos x = (let e = exponent_of x in of_int (round_even (x / pow2 e)) * pow2 e)"

definition fl :: "rat \<Rightarrow> rat" where
  "fl x = (if x = 0 then 0 else if 0 < x then fl_pos x else - fl_pos (- x))"

text \<open>\<open>Math.round\<close>, \<open>Math.trunc\<close> and \<open>Number(x.toFixed(2))\<close>.\<close>

definition js_round :: "rat \<Rightarrow> int" where "js_round x = \<lfloor>x + 1/2\<rfloor>"

definition js_trunc :: "rat \<Rightarrow> int" where "js_trunc x = (if 0 \<le> x then \<lfloor>x\<rfloor> else \<lceil>x\<rceil>)"

definition toFixed2 :: "rat \<Rightarrow> rat" where
  "toFixed2 x = fl (of_int (if 0 \<le> x then \<lfloor>x * 100 + 1/2\<rfloor> else - \<lfloor>- x * 100 + 1/2\<rfloor>) / 100)"

subsection \<open>Powers of two\<close>

lemma pow2_pos [simp]: "0 < pow2 e"
  by (simp add: pow2_def)

lemma pow2_nonzero [simp]: "pow2 e \<noteq> 0"
  using pow2_pos [of e] by linarith

lemma pow2_nat: "pow2 (int n) = 2 ^ n"
  by (simp add: pow2_def)

lemma pow2_powi: "pow2 e = 2 powi e"
  by (simp add: pow2_def power_int_def power_inverse inverse_eq_divide power_one_over)

lemma pow2_add: "pow2 (a + b) = pow2 a * pow2 b"
  by (simp add: pow2_powi power_int_add)

lemma pow2_diff: "pow2 (a - b) = pow2 a / pow2 b"
  by (simp add: pow2_powi power_int_diff)

lemma pow2_mono: "a \<le> b \<Longrightarrow> pow2 a \<le> pow2 b"
  by (simp add: pow2_powi power_int_increasing)

lemma pow2_less: "pow2 a < pow2 b \<longleftrightarrow> a < b"
  using pow2_mono [of b a] pow2_powi [of a] pow2_powi [of b] power_int_strict_increasing [of a b "2::rat"] by fastforce

subsection \<open>The exponent\<close>

lemma bit_len_bounds: "0 < n \<Longrightarrow> 2 ^ (bit_len n - 1) \<le> n \<and> n < 2 ^ bit_len n \<and> 0 < bit_len n"
proof (induction n rule: bit_len.induct)
  case (1 n)
  show ?case
  proof (cases "n = 1")
    case True
    then show ?thesis by (simp add: bit_len.simps [of 1] bit_len.simps [of 0])
  next
    case False
    with 1 have IH: "2 ^ (bit_len (n div 2) - 1) \<le> n div 2" "n div 2 < 2 ^ bit_len (n div 2)" "0 < bit_len (n div 2)" by auto
    then obtain k where k: "bit_len (n div 2) = Suc k" using gr0_implies_Suc by blast
    have "2 ^ k \<le> n div 2" "n div 2 < 2 ^ Suc k" using IH by (simp_all add: k)
    then have "2 ^ Suc k \<le> n" "n < 2 ^ Suc (Suc k)" by simp_all
    with 1 k show ?thesis by (simp add: bit_len.simps [of n])
  qed
qed

lemma bit_len_rat:
  assumes "0 < n"
  shows "pow2 (int (bit_len n) - 1) \<le> of_int n" "of_int n < pow2 (int (bit_len n))"
proof -
  from bit_len_bounds [OF assms] obtain k where k: "bit_len n = Suc k" "2 ^ k \<le> n" "n < 2 ^ Suc k"
    by (metis One_nat_def Suc_pred diff_Suc_1)
  have "(of_int (2 ^ k) :: rat) \<le> of_int n" "(of_int n :: rat) < of_int (2 ^ Suc k)"
    using k(2,3) by (simp_all only: of_int_le_iff of_int_less_iff)
  then show "pow2 (int (bit_len n) - 1) \<le> of_int n" "of_int n < pow2 (int (bit_len n))"
    using pow2_nat [of k] pow2_nat [of "Suc k"] by (simp_all add: k(1))
qed

lemma exponent_of_bounds:
  assumes "0 < x"
  shows "pow2 (exponent_of x + 52) \<le> x \<and> x < pow2 (exponent_of x + 53)"
proof -
  obtain p q where pq: "quotient_of x = (p, q)" by fastforce
  have q: "0 < q" using quotient_of_denom_pos [OF pq] .
  have x: "x = of_int p / of_int q" using quotient_of_div [OF pq] .
  have p: "0 < p" using assms q by (simp add: x zero_less_divide_iff)
  define a b where "a = int (bit_len p)" and "b = int (bit_len q)"
  have pa: "pow2 (a - 1) \<le> of_int p" "of_int p < pow2 a" and qb: "pow2 (b - 1) \<le> of_int q" "of_int q < pow2 b"
    using bit_len_rat [OF p] bit_len_rat [OF q] by (simp_all add: a_def b_def)
  have q': "(0 :: rat) < of_int q" using q by simp
  have "pow2 (a - b - 1) * of_int q \<le> pow2 (a - b - 1) * pow2 b" using qb(2) by (intro mult_left_mono) (simp_all add: less_imp_le)
  also have "\<dots> = pow2 (a - 1)" by (simp flip: pow2_add)
  finally have lo: "pow2 (a - b - 1) \<le> x" using pa(1) q' by (simp add: x le_divide_eq)
  have "pow2 a = pow2 (a - b + 1) * pow2 (b - 1)" by (simp flip: pow2_add)
  also have "\<dots> \<le> pow2 (a - b + 1) * of_int q" using qb(1) by (intro mult_left_mono) (simp_all add: less_imp_le)
  finally have hi: "x < pow2 (a - b + 1)" using pa(2) q' by (simp add: x divide_less_eq)
  show ?thesis
    using lo hi unfolding exponent_of_def pq a_def [symmetric] b_def [symmetric] Let_def prod.case by (simp add: algebra_simps)
qed

lemma exponent_of_mono:
  assumes "0 < x" "x \<le> y"
  shows "exponent_of x \<le> exponent_of y"
proof -
  have "pow2 (exponent_of x + 52) < pow2 (exponent_of y + 53)"
    using exponent_of_bounds [of x] exponent_of_bounds [of y] assms by linarith
  then show ?thesis by (simp add: pow2_less)
qed

subsection \<open>Rounding is monotone and exact on the grid\<close>

lemma round_even_of_int [simp]: "round_even (of_int n) = n"
  by (simp add: round_even_def Let_def)

lemma round_even_bounds: "\<lfloor>x\<rfloor> \<le> round_even x \<and> round_even x \<le> \<lfloor>x\<rfloor> + 1"
  by (simp add: round_even_def Let_def)

lemma round_even_mono:
  assumes "x \<le> y"
  shows "round_even x \<le> round_even y"
proof (cases "\<lfloor>x\<rfloor> = \<lfloor>y\<rfloor>")
  case True
  then show ?thesis using assms by (auto simp: round_even_def Let_def)
next
  case False
  then have "\<lfloor>x\<rfloor> + 1 \<le> \<lfloor>y\<rfloor>" using floor_mono [OF assms] by simp
  with round_even_bounds [of x] round_even_bounds [of y] show ?thesis by linarith
qed

lemma round_even_ge: "of_int n \<le> x \<Longrightarrow> n \<le> round_even x"
  using round_even_mono [of "of_int n" x] by simp

lemma round_even_le: "x \<le> of_int n \<Longrightarrow> round_even x \<le> n"
  using round_even_mono [of x "of_int n"] by simp

lemma fl_pos_grid:
  assumes "0 < x"
  shows "\<exists>m e. fl_pos x = of_int m * pow2 e \<and> e = exponent_of x \<and> 2 ^ 52 \<le> m \<and> m \<le> 2 ^ 53"
proof -
  let ?e = "exponent_of x"
  have "pow2 ?e * pow2 52 \<le> x" "x < pow2 ?e * pow2 53" using exponent_of_bounds [OF assms] by (simp_all flip: pow2_add)
  then have "pow2 52 \<le> x / pow2 ?e" "x / pow2 ?e \<le> pow2 53"
    by (simp_all add: le_divide_eq divide_le_eq mult.commute)
  then have "of_int (2 ^ 52) \<le> x / pow2 ?e" "x / pow2 ?e \<le> of_int (2 ^ 53)"
    by (simp_all add: pow2_def)
  from round_even_ge [OF this(1)] round_even_le [OF this(2)]
  have "2 ^ 52 \<le> round_even (x / pow2 ?e)" "round_even (x / pow2 ?e) \<le> 2 ^ 53" .
  then show ?thesis by (auto simp: fl_pos_def Let_def)
qed

lemma fl_pos_mono:
  assumes "0 < x" "x \<le> y"
  shows "fl_pos x \<le> fl_pos y"
proof (cases "exponent_of x = exponent_of y")
  case True
  have "x / pow2 (exponent_of y) \<le> y / pow2 (exponent_of y)" using assms(2) by (intro divide_right_mono) (simp_all add: less_imp_le)
  from round_even_mono [OF this] True show ?thesis by (simp add: fl_pos_def Let_def mult_right_mono less_imp_le)
next
  case False
  then have e: "exponent_of x + 1 \<le> exponent_of y" using exponent_of_mono [OF assms] by simp
  obtain m where m: "fl_pos x = of_int m * pow2 (exponent_of x)" "m \<le> 2 ^ 53" using fl_pos_grid [OF assms(1)] by blast
  obtain n where n: "fl_pos y = of_int n * pow2 (exponent_of y)" "2 ^ 52 \<le> n" using fl_pos_grid [of y] assms by fastforce
  have "fl_pos x \<le> of_int (2 ^ 53) * pow2 (exponent_of x)" unfolding m(1) using m(2) by (intro mult_right_mono) (simp_all only: of_int_le_iff less_imp_le [OF pow2_pos])
  also have "\<dots> = of_int (2 ^ 52) * pow2 (exponent_of x + 1)" by (simp add: pow2_add) (simp add: pow2_def)
  also have "\<dots> \<le> of_int (2 ^ 52) * pow2 (exponent_of y)" using pow2_mono [OF e] by (intro mult_left_mono) simp_all
  also have "\<dots> \<le> fl_pos y" unfolding n(1) using n(2) by (intro mult_right_mono) (simp_all only: of_int_le_iff less_imp_le [OF pow2_pos])
  finally show ?thesis .
qed

lemma fl_pos_positive:
  assumes "0 < x"
  shows "0 < fl_pos x"
proof -
  obtain m e where "fl_pos x = of_int m * pow2 e" "2 ^ 52 \<le> m" using fl_pos_grid [OF assms] by blast
  moreover have "(0 :: int) < 2 ^ 52" by simp
  ultimately show ?thesis by simp
qed

lemma fl_mono: "x \<le> y \<Longrightarrow> fl x \<le> fl y"
  using fl_pos_mono [of x y] fl_pos_mono [of "- y" "- x"] less_imp_le [OF fl_pos_positive, of y] less_imp_le [OF fl_pos_positive, of "- x"]
  by (cases x "0 :: rat" rule: linorder_cases; cases y "0 :: rat" rule: linorder_cases) (simp_all add: fl_def)

text \<open>
  A whole number of units \<open>2 ^ - k\<close> with at most 53 bits is a double.
\<close>
lemma fl_grid:
  assumes "\<bar>m\<bar> < 2 ^ 53"
  shows "fl (of_int m / 2 ^ k) = of_int m / 2 ^ k"
proof -
  have pos: "fl_pos (of_int n / 2 ^ k) = of_int n / 2 ^ k" if n: "0 < n" "n < 2 ^ 53" for n :: int
  proof -
    define x where "x = (of_int n / 2 ^ k :: rat)"
    define e where "e = exponent_of x"
    have x: "x = of_int n * pow2 (- int k)" "0 < x" using n by (auto simp: x_def pow2_def)
    have "pow2 (e + 52) \<le> x" using exponent_of_bounds [OF x(2)] by (simp add: e_def)
    also have "\<dots> < of_int (2 ^ 53) * pow2 (- int k)" unfolding x(1) using n by (intro mult_strict_right_mono) (simp_all only: of_int_less_iff pow2_pos)
    also have "\<dots> = pow2 53 * pow2 (- int k)" by (simp add: pow2_def)
    also have "\<dots> = pow2 (53 - int k)" by (simp flip: pow2_add)
    finally have "0 \<le> - int k - e" by (simp add: pow2_less)
    then obtain j where "- int k - e = int j" using zero_le_imp_eq_int by blast
    then have "- int k = e + int j" by simp
    then have "pow2 (- int k) = pow2 e * 2 ^ j" by (simp only: pow2_add pow2_nat)
    with x(1) have xj: "x = of_int (n * 2 ^ j) * pow2 e" by (simp add: mult_ac)
    have "fl_pos x = of_int (round_even (x / pow2 e)) * pow2 e" by (simp add: fl_pos_def e_def Let_def)
    also have "x / pow2 e = of_int (n * 2 ^ j)" by (simp only: xj nonzero_mult_div_cancel_right pow2_nonzero not_False_eq_True)
    finally show ?thesis by (simp only: round_even_of_int xj [symmetric] x_def)
  qed
  have "m = 0 \<or> 0 < m \<or> 0 < - m" by arith
  with pos [of m] pos [of "- m"] assms show ?thesis by (auto simp: fl_def zero_less_divide_iff)
qed

lemma fl_of_int [simp]: "\<bar>m\<bar> < 2 ^ 53 \<Longrightarrow> fl (of_int m) = of_int m"
  using fl_grid [of m 0] by simp

lemma fl_0 [simp]: "fl 0 = 0" by (simp add: fl_def)

lemma fl_nonneg: "0 \<le> x \<Longrightarrow> 0 \<le> fl x"
  using fl_mono [of 0 x] by simp

text \<open>
  A bound on the grid survives rounding.
\<close>
lemma fl_le_grid: "x \<le> of_int m / 2 ^ k \<Longrightarrow> \<bar>m\<bar> < 2 ^ 53 \<Longrightarrow> fl x \<le> of_int m / 2 ^ k"
  using fl_mono [of x "of_int m / 2 ^ k"] fl_grid [of m k] by simp

lemma fl_ge_grid: "of_int m / 2 ^ k \<le> x \<Longrightarrow> \<bar>m\<bar> < 2 ^ 53 \<Longrightarrow> of_int m / 2 ^ k \<le> fl x"
  using fl_mono [of "of_int m / 2 ^ k" x] fl_grid [of m k] by simp

end
