(* ===== verification/Payroll.thy ===== *)
theory Payroll
  imports Double Money
begin

text \<open>
  Salaries, \<open>worker/src/routes/payroll.ts\<close>: the school's rules, statutory deductions, one
  payslip from the parts of a salary, advances recovered from it, corrections folded back in,
  income tax, and the approval of a month.  Money is whole paise; what the code multiplies by a
  percentage or a ratio goes through \<open>fl\<close> (theory Double), operation by operation.
\<close>

subsection \<open>The school's rules\<close>

record PayRules =
  pr_pf_wage_base :: string
  pr_lop_method :: string
  pr_lop_day_base :: string
  pr_lop_divisor :: string
  pr_free_leave_days :: rat
  pr_late_rule :: string
  pr_late_marks_per_day :: int
  pr_pay_holidays_worked :: bool
  pr_esi_mode :: string
  pr_rules_available :: bool

definition DEFAULT_RULES :: PayRules where
  "DEFAULT_RULES = \<lparr>pr_pf_wage_base = ''basic_da'', pr_lop_method = ''prorate'', pr_lop_day_base = ''gross'', pr_lop_divisor = ''month'',
     pr_free_leave_days = 0, pr_late_rule = ''policy'', pr_late_marks_per_day = 3, pr_pay_holidays_worked = False,
     pr_esi_mode = ''deduct'', pr_rules_available = False\<rparr>"

definition pick :: "string \<Rightarrow> string list \<Rightarrow> string \<Rightarrow> string" where
  "pick v allowed dflt = (if v \<in> set allowed then v else dflt)"

text \<open>A row of \<open>payroll_settings\<close>: each column as text (a missing one matches no choice) or number.\<close>

record RuleRow =
  rr_text :: "string \<Rightarrow> string"
  rr_num :: "string \<Rightarrow> rat"

definition rulesFrom :: "RuleRow option \<Rightarrow> PayRules" where
  "rulesFrom row = (case row of None \<Rightarrow> DEFAULT_RULES
   | Some r \<Rightarrow>
      \<lparr>pr_pf_wage_base = pick (rr_text r ''pf_wage_base'') [''basic_da'', ''basic''] ''basic_da'',
       pr_lop_method = pick (rr_text r ''lop_method'') [''prorate'', ''day_pay''] ''prorate'',
       pr_lop_day_base = pick (rr_text r ''lop_day_base'') [''gross'', ''ctc''] ''gross'',
       pr_lop_divisor = pick (rr_text r ''lop_divisor'') [''month'', ''30'', ''26'', ''pattern''] ''month'',
       pr_free_leave_days = max 0 (rr_num r ''free_leave_days''),
       pr_late_rule = pick (rr_text r ''late_rule'') [''policy'', ''per_day''] ''policy'',
       pr_late_marks_per_day = max 1 (js_round (if rr_num r ''late_marks_per_day'' = 0 then 3 else rr_num r ''late_marks_per_day'')),
       pr_pay_holidays_worked = (rr_num r ''pay_holidays_worked'' \<noteq> 0),
       pr_esi_mode = pick (rr_text r ''esi_mode'') [''deduct'', ''employer''] ''deduct'',
       pr_rules_available = True\<rparr>)"

record PtSlab =
  sl_from :: int
  sl_to :: "int option"
  sl_monthly :: int
  sl_february :: "int option"

record PaySettings = PayRules +
  ps_pf_enabled :: bool
  ps_pf_employee_percent :: rat
  ps_pf_employer_percent :: rat
  ps_pf_wage_ceiling :: int
  ps_eps_percent :: rat
  ps_pf_admin_percent :: rat
  ps_esi_enabled :: bool
  ps_esi_employee_percent :: rat
  ps_esi_employer_percent :: rat
  ps_esi_wage_threshold :: int
  ps_pt_enabled :: bool
  ps_substitution_rate :: int
  ps_pt_slabs :: "PtSlab list"

record Statutory =
  st_pf_wage :: int
  st_pf_employee :: int
  st_pf_employer :: int
  st_eps :: int
  st_pf_admin :: int
  st_esi_employee :: int
  st_esi_employer :: int
  st_pt :: int

subsection \<open>Statutory deductions\<close>

definition pct :: "int \<Rightarrow> rat \<Rightarrow> int" where
  "pct amount percent = \<lfloor>fl (fl (fl (of_int amount * percent) / 100) + 1/2)\<rfloor>"

fun professionalTax :: "PtSlab list \<Rightarrow> int \<Rightarrow> int \<Rightarrow> int" where
  "professionalTax [] gross month = 0"
| "professionalTax (sl # sls) gross month =
    (if gross < sl_from sl then professionalTax sls gross month
     else if (case sl_to sl of Some t \<Rightarrow> t \<le> gross | None \<Rightarrow> False) then professionalTax sls gross month
     else case (month = 2, sl_february sl) of (True, Some f) \<Rightarrow> f | _ \<Rightarrow> sl_monthly sl)"

definition rupee :: "int \<Rightarrow> int" where
  "rupee p = js_round (fl (of_int p / 100)) * 100"

definition computeStatutory :: "'a PaySettings_scheme \<Rightarrow> int \<Rightarrow> int \<Rightarrow> int \<Rightarrow> Statutory" where
  "computeStatutory set0 basicPlusDA gross month =
    (let pf = ps_pf_enabled set0 \<and> 0 < basicPlusDA;
         wage = (if 0 < ps_pf_wage_ceiling set0 \<and> ps_pf_wage_ceiling set0 < basicPlusDA then ps_pf_wage_ceiling set0 else basicPlusDA);
         employer = pct wage (ps_pf_employer_percent set0);
         eps = min (pct wage (ps_eps_percent set0)) employer;
         esi = ps_esi_enabled set0 \<and> 0 < gross \<and> gross \<le> ps_esi_wage_threshold set0
     in \<lparr>st_pf_wage = (if pf then wage else 0),
         st_pf_employee = (if pf then pct wage (ps_pf_employee_percent set0) else 0),
         st_pf_employer = (if pf then employer - eps else 0),
         st_eps = (if pf then eps else 0),
         st_pf_admin = (if pf then pct wage (ps_pf_admin_percent set0) else 0),
         st_esi_employee = (if esi then rupee (pct gross (ps_esi_employee_percent set0)) else 0),
         st_esi_employer = (if esi then rupee (pct gross (ps_esi_employer_percent set0)) else 0),
         st_pt = (if ps_pt_enabled set0 then professionalTax (ps_pt_slabs set0) gross month else 0)\<rparr>)"

subsection \<open>One person's choices\<close>

datatype PfMode = PfDefault | PfNone | PfBasic | PfBasicDa

record PfPerson =
  pp_mode :: PfMode
  pp_percent :: "rat option"
  pp_esi :: bool

definition personPfWage :: "PfPerson option \<Rightarrow> int \<Rightarrow> int \<Rightarrow> int \<Rightarrow> int" where
  "personPfWage p basic da school = (case p of None \<Rightarrow> school
   | Some q \<Rightarrow> (case pp_mode q of PfDefault \<Rightarrow> school | PfNone \<Rightarrow> 0 | PfBasic \<Rightarrow> basic | PfBasicDa \<Rightarrow> basic + da))"

definition personSettings :: "PaySettings \<Rightarrow> PfPerson option \<Rightarrow> PaySettings" where
  "personSettings set0 p = (case p of None \<Rightarrow> set0
   | Some q \<Rightarrow>
      let out = (case pp_percent q of Some n \<Rightarrow> if 0 \<le> n then set0\<lparr>ps_pf_employee_percent := n\<rparr> else set0 | None \<Rightarrow> set0)
      in if pp_esi q then out else out\<lparr>ps_esi_enabled := False\<rparr>)"

text \<open>One day's pay, unrounded.\<close>

definition oneDayPay :: "'a PayRules_scheme \<Rightarrow> int \<Rightarrow> Statutory \<Rightarrow> rat \<Rightarrow> rat \<Rightarrow> rat" where
  "oneDayPay rules fullGross full daysInMonth patternBase =
    (let base = (if pr_lop_day_base rules = ''ctc'' then fullGross + st_pf_employer full + st_eps full else fullGross);
         div0 = (if pr_lop_divisor rules = ''30'' then 30 else if pr_lop_divisor rules = ''26'' then 26
                else if pr_lop_divisor rules = ''pattern'' then (if patternBase = 0 then daysInMonth else patternBase) else daysInMonth)
     in if 0 < div0 then fl (of_int base / div0) else 0)"

subsection \<open>The payslip\<close>

text \<open>\<open>breakup[code] = v\<close> and \<open>delete breakup[code]\<close> on a JavaScript object, keys in order of first writing.\<close>

fun put :: "string \<Rightarrow> int \<Rightarrow> (string \<times> int) list \<Rightarrow> (string \<times> int) list" where
  "put k v [] = [(k, v)]"
| "put k v ((c, w) # al) = (if c = k then (c, v) # al else (c, w) # put k v al)"

definition del :: "string \<Rightarrow> (string \<times> int) list \<Rightarrow> (string \<times> int) list" where
  "del k al = filter (\<lambda>x. fst x \<noteq> k) al"

record PayComp =
  pc_code :: string
  pc_kind :: string
  pc_amount :: int

record RuleComp =
  rc_code :: string
  rc_kind :: string
  rc_is_percent :: bool
  rc_percent_of :: string
  rc_default :: rat

record Slip =
  sp_earn :: int
  sp_deduct :: int
  sp_breakup :: "(string \<times> int) list"
  sp_basicDA :: int
  sp_fullGross :: int
  sp_fullPfWage :: int
  sp_basic :: int
  sp_da :: int
  sp_fullBasic :: int
  sp_fullDA :: int
  sp_ruleEarn :: int

definition no_slip :: Slip where
  "no_slip = \<lparr>sp_earn = 0, sp_deduct = 0, sp_breakup = [], sp_basicDA = 0, sp_fullGross = 0, sp_fullPfWage = 0,
     sp_basic = 0, sp_da = 0, sp_fullBasic = 0, sp_fullDA = 0, sp_ruleEarn = 0\<rparr>"

text \<open>\<open>earn += v; breakup[code] = v\<close> and \<open>deduct += v; breakup[code] = -v\<close>.\<close>

definition earn_line :: "string \<Rightarrow> int \<Rightarrow> Slip \<Rightarrow> Slip" where
  "earn_line c v s = s\<lparr>sp_earn := sp_earn s + v, sp_breakup := put c v (sp_breakup s)\<rparr>"

definition cut_line :: "string \<Rightarrow> int \<Rightarrow> Slip \<Rightarrow> Slip" where
  "cut_line c v s = s\<lparr>sp_deduct := sp_deduct s + v, sp_breakup := put c (- v) (sp_breakup s)\<rparr>"

definition memo_line :: "string \<Rightarrow> int \<Rightarrow> Slip \<Rightarrow> Slip" where
  "memo_line c v s = s\<lparr>sp_breakup := put c v (sp_breakup s)\<rparr>"

text \<open>The wage bases a line counts toward: its prorated value \<open>v\<close> and its full value.\<close>

definition count_bases :: "bool \<Rightarrow> string \<Rightarrow> int \<Rightarrow> int \<Rightarrow> Slip \<Rightarrow> Slip" where
  "count_bases basic_only c v full s =
    (let s1 = (if c = ''BASIC'' \<or> (c = ''DA'' \<and> \<not> basic_only)
               then s\<lparr>sp_basicDA := sp_basicDA s + v, sp_fullPfWage := sp_fullPfWage s + full\<rparr> else s)
     in if c = ''BASIC'' then s1\<lparr>sp_basic := sp_basic s1 + v, sp_fullBasic := sp_fullBasic s1 + full\<rparr>
        else if c = ''DA'' then s1\<lparr>sp_da := sp_da s1 + v, sp_fullDA := sp_fullDA s1 + full\<rparr> else s1)"

definition prorate :: "rat \<Rightarrow> int \<Rightarrow> int" where
  "prorate ratio amount = js_trunc (fl (of_int amount * ratio))"

definition part_line :: "bool \<Rightarrow> rat \<Rightarrow> PayComp \<Rightarrow> Slip \<Rightarrow> Slip" where
  "part_line basic_only ratio cmp s =
    (if pc_kind cmp = ''earning''
     then let v = prorate ratio (pc_amount cmp); s1 = earn_line (pc_code cmp) v s
          in count_bases basic_only (pc_code cmp) v (pc_amount cmp) (s1\<lparr>sp_fullGross := sp_fullGross s1 + pc_amount cmp\<rparr>)
     else if pc_kind cmp = ''deduction'' \<and> pc_code cmp \<notin> {''PF'', ''ESI'', ''PT''} then cut_line (pc_code cmp) (pc_amount cmp) s
     else s)"

definition gross_line :: "rat \<Rightarrow> int \<Rightarrow> PayComp list \<Rightarrow> Slip \<Rightarrow> Slip" where
  "gross_line ratio ctc comps s =
    (if \<not> list_ex (\<lambda>x. pc_kind x = ''earning'') comps \<and> 0 < ctc
     then let s1 = earn_line ''GROSS'' (prorate ratio ctc) s in s1\<lparr>sp_fullGross := sp_fullGross s1 + ctc\<rparr> else s)"

definition rule_full :: "int \<Rightarrow> int \<Rightarrow> RuleComp \<Rightarrow> int" where
  "rule_full grossBase fullBasic r =
    (if rc_is_percent r
     then js_round (fl (fl (of_int (if rc_percent_of r = ''GROSS'' then grossBase else fullBasic) * rc_default r) / 100))
     else js_round (fl (rc_default r * 100)))"

definition rule_line :: "bool \<Rightarrow> rat \<Rightarrow> string list \<Rightarrow> int \<Rightarrow> RuleComp \<Rightarrow> Slip \<Rightarrow> Slip" where
  "rule_line basic_only ratio have0 grossBase r s =
    (let full = rule_full grossBase (sp_fullBasic s) r in
     if rc_code r \<in> set have0 \<or> full \<le> 0 then s
     else if rc_kind r = ''earning''
     then let v = prorate ratio full;
              s1 = (earn_line (rc_code r) v s)\<lparr>sp_ruleEarn := sp_ruleEarn s + v\<rparr>;
              s2 = (if map_of (sp_breakup s1) ''GROSS'' = None then s1\<lparr>sp_fullGross := sp_fullGross s1 + full\<rparr> else s1)
          in count_bases basic_only (rc_code r) v full s2
     else if rc_kind r = ''deduction'' then cut_line (rc_code r) full s
     else s)"

text \<open>The one gross line gives up what the rules split out of it.\<close>

definition gross_split :: "Slip \<Rightarrow> Slip" where
  "gross_split s =
    (case map_of (sp_breakup s) ''GROSS'' of
       Some g \<Rightarrow> if 0 < sp_ruleEarn s
         then let cut = min g (sp_ruleEarn s); b = put ''GROSS'' (g - cut) (sp_breakup s)
              in s\<lparr>sp_earn := sp_earn s - cut, sp_breakup := (if g - cut = 0 then del ''GROSS'' b else b)\<rparr>
         else s
     | None \<Rightarrow> s)"

definition parts :: "bool \<Rightarrow> rat \<Rightarrow> int \<Rightarrow> PayComp list \<Rightarrow> RuleComp list \<Rightarrow> Slip" where
  "parts basic_only ratio ctc comps rules =
    (let s = gross_line ratio ctc comps (fold (part_line basic_only ratio) comps no_slip)
     in if rules = [] then s
        else gross_split (fold (rule_line basic_only ratio (map pc_code comps) (sp_fullGross s)) rules s))"

text \<open>What is read for one person of the run.\<close>

record Person =
  pe_ctc :: int
  pe_lop_basis :: string
  pe_divisor :: rat
  pe_comps :: "PayComp list"
  pe_pf :: "PfPerson option"
  pe_lop_days :: rat
  pe_expected_days :: rat
  pe_holidays :: rat
  pe_substitutions :: int
  pe_loan_cut :: int
  pe_adj_earn :: int
  pe_adj_deduct :: int

definition positive :: "(string \<Rightarrow> int \<Rightarrow> Slip \<Rightarrow> Slip) \<Rightarrow> string \<Rightarrow> int \<Rightarrow> Slip \<Rightarrow> Slip" where
  "positive line c v s = (if 0 < v then line c v s else s)"

text \<open>The days: paid days, and the ratio each part is multiplied by.\<close>

definition day_base :: "rat \<Rightarrow> Person \<Rightarrow> rat" where
  "day_base nDays e = (if 0 < pe_divisor e then pe_divisor e else if 0 < pe_expected_days e then pe_expected_days e else nDays)"

definition paid_days :: "rat \<Rightarrow> Person \<Rightarrow> rat" where
  "paid_days nDays e = (if pe_lop_basis e = ''none'' then day_base nDays e else max 0 (fl (day_base nDays e - pe_lop_days e)))"

definition day_pay :: "'a PayRules_scheme \<Rightarrow> Person \<Rightarrow> bool" where
  "day_pay set0 e = (pr_lop_method set0 = ''day_pay'' \<and> pe_lop_basis e \<noteq> ''none'')"

definition pay_ratio :: "'a PayRules_scheme \<Rightarrow> rat \<Rightarrow> Person \<Rightarrow> rat" where
  "pay_ratio set0 nDays e = (if pe_lop_basis e = ''none'' \<or> day_pay set0 e then 1
     else fl (max 0 (fl (day_base nDays e - pe_lop_days e)) / day_base nDays e))"

definition statutory_lines :: "PaySettings \<Rightarrow> int \<Rightarrow> Person \<Rightarrow> Slip \<Rightarrow> Statutory \<times> Slip" where
  "statutory_lines set0 month e s =
    (let st = computeStatutory (personSettings set0 (pe_pf e)) (personPfWage (pe_pf e) (sp_basic s) (sp_da s) (sp_basicDA s)) (sp_earn s) month;
         esiCut = (if pr_esi_mode set0 = ''employer'' then 0 else st_esi_employee st);
         s1 = (if esiCut = 0 \<and> 0 < st_esi_employee st then memo_line ''ESI_EE_BY_EMPLOYER'' (st_esi_employee st) s else s)
     in (st, positive cut_line ''PT'' (st_pt st) (positive cut_line ''ESI'' esiCut (positive cut_line ''PF'' (st_pf_employee st) s1))))"

definition day_lines :: "PaySettings \<Rightarrow> rat \<Rightarrow> int \<Rightarrow> int \<Rightarrow> Person \<Rightarrow> Slip \<Rightarrow> Slip" where
  "day_lines set0 nDays month partsGross e s =
    (let holidays = (if pr_pay_holidays_worked set0 then pe_holidays e else 0);
         full = computeStatutory (personSettings set0 (pe_pf e)) (personPfWage (pe_pf e) (sp_fullBasic s) (sp_fullDA s) (sp_fullPfWage s)) (sp_fullGross s) month;
         pay1 = oneDayPay set0 (sp_fullGross s) full nDays (day_base nDays e);
         s1 = (if day_pay set0 e \<and> 0 < pe_lop_days e
               then positive cut_line ''LOP'' (min (js_round (fl (pay1 * pe_lop_days e))) partsGross) s else s)
     in if 0 < holidays then positive earn_line ''HOLIDAY_WORK'' (js_round (fl (pay1 * holidays))) s1 else s1)"

definition memo_lines :: "Statutory \<Rightarrow> Slip \<Rightarrow> Slip" where
  "memo_lines st s = positive memo_line ''ESI_EMPLOYER'' (st_esi_employer st)
     (positive memo_line ''EPS'' (st_eps st) (positive memo_line ''PF_EMPLOYER'' (st_pf_employer st) s))"

definition adjust_lines :: "int \<Rightarrow> int \<Rightarrow> Slip \<Rightarrow> Slip" where
  "adjust_lines earn deduct s = positive cut_line ''ADJ_CUT'' deduct (positive earn_line ''ADJ_ADD'' earn s)"

text \<open>The payslip before and after the month's own adjustments.\<close>

definition base_slip :: "PaySettings \<Rightarrow> RuleComp list \<Rightarrow> rat \<Rightarrow> int \<Rightarrow> Person \<Rightarrow> Slip" where
  "base_slip set0 rules nDays month e =
    (let s0 = parts (pr_pf_wage_base set0 = ''basic'') (pay_ratio set0 nDays e) (pe_ctc e) (pe_comps e) rules;
         s1 = (if 0 < ps_substitution_rate set0 \<and> 0 < pe_substitutions e
               then earn_line ''SUBST'' (pe_substitutions e * ps_substitution_rate set0) s0 else s0);
         (st, s2) = statutory_lines set0 month e s1;
         s3 = memo_lines st (day_lines set0 nDays month (sp_earn s0) e s2)
     in positive cut_line ''ADVANCE'' (pe_loan_cut e) s3)"

definition payslip :: "PaySettings \<Rightarrow> RuleComp list \<Rightarrow> rat \<Rightarrow> int \<Rightarrow> Person \<Rightarrow> Slip" where
  "payslip set0 rules nDays month e = adjust_lines (pe_adj_earn e) (pe_adj_deduct e) (base_slip set0 rules nDays month e)"

definition net_pay :: "Slip \<Rightarrow> int" where
  "net_pay s = sp_earn s - sp_deduct s"

subsection \<open>Corrections folded back in\<close>

record PayRow =
  pw_gross :: int
  pw_deduction :: int
  pw_net :: int
  pw_breakup :: "(string \<times> int) list"

definition row_of :: "Slip \<Rightarrow> PayRow" where
  "row_of s = \<lparr>pw_gross = sp_earn s, pw_deduction = sp_deduct s, pw_net = sp_earn s - sp_deduct s, pw_breakup = sp_breakup s\<rparr>"

definition line_or_0 :: "(string \<times> int) list \<Rightarrow> string \<Rightarrow> int" where
  "line_or_0 b k = (case map_of b k of Some v \<Rightarrow> v | None \<Rightarrow> 0)"

text \<open>\<open>monthAdjustments\<close>: the sums of a person's adjustments of the month, by kind.\<close>

definition monthAdjustments :: "(string \<times> int) list \<Rightarrow> int \<times> int" where
  "monthAdjustments adjs = ((\<Sum>(k, n)\<leftarrow>adjs. if k = ''earning'' then n else 0), (\<Sum>(k, n)\<leftarrow>adjs. if k = ''deduction'' then n else 0))"

definition refoldAdjustments :: "(string \<times> int) list \<Rightarrow> PayRow \<Rightarrow> PayRow" where
  "refoldAdjustments adjs ps =
    (let (earn, cut) = monthAdjustments adjs;
         oldAdd = line_or_0 (pw_breakup ps) ''ADJ_ADD''; oldCut = - line_or_0 (pw_breakup ps) ''ADJ_CUT'';
         b0 = del ''ADJ_CUT'' (del ''ADJ_ADD'' (pw_breakup ps));
         b1 = (if 0 < earn then put ''ADJ_ADD'' earn b0 else b0);
         b2 = (if 0 < cut then put ''ADJ_CUT'' (- cut) b1 else b1);
         gross = pw_gross ps - oldAdd + earn; deduct = pw_deduction ps - oldCut + cut
     in \<lparr>pw_gross = gross, pw_deduction = deduct, pw_net = gross - deduct, pw_breakup = b2\<rparr>)"

subsection \<open>Advances recovered from pay\<close>

record Loan =
  ln_id :: string
  ln_principal :: int
  ln_instalment :: int
  ln_start :: int
  ln_status :: string

text \<open>\<open>loan_deductions\<close>: one row for a loan and a month (\<open>year * 100 + month\<close>).\<close>

type_synonym recoveries = "((string \<times> int) \<times> int) list"

definition taken :: "recoveries \<Rightarrow> string \<Rightarrow> int" where
  "taken recs l = (\<Sum>((i, _), n)\<leftarrow>recs. if i = l then n else 0)"

definition owing :: "recoveries \<Rightarrow> Loan \<Rightarrow> int" where
  "owing recs l = max 0 (ln_principal l - taken recs (ln_id l))"

fun upsert :: "string \<times> int \<Rightarrow> int \<Rightarrow> recoveries \<Rightarrow> recoveries" where
  "upsert k n [] = [(k, n)]"
| "upsert k n ((k', m) # recs) = (if k' = k then (k', n) # recs else (k', m) # upsert k n recs)"

definition open_loan :: "string \<Rightarrow> int \<Rightarrow> int \<Rightarrow> int \<Rightarrow> Loan option" where
  "open_loan i amount instalment start =
    (if amount \<le> 0 \<or> instalment \<le> 0 \<or> amount < instalment then None
     else Some \<lparr>ln_id = i, ln_principal = amount, ln_instalment = instalment, ln_start = start, ln_status = ''active''\<rparr>)"

definition loan_takes :: "recoveries \<Rightarrow> int \<Rightarrow> Loan list \<Rightarrow> (Loan \<times> int) list" where
  "loan_takes recs period loans =
    map (\<lambda>l. (l, min (ln_instalment l) (owing recs l)))
      (filter (\<lambda>l. ln_status l = ''active'' \<and> ln_start l \<le> period \<and> 0 < owing recs l) loans)"

text \<open>The loan part of a run: the cut on the payslip, the rows written, the loans closed.\<close>

definition recover :: "int \<Rightarrow> recoveries \<times> Loan list \<Rightarrow> int \<times> recoveries \<times> Loan list" where
  "recover period st =
    (let (recs, loans) = st; takes = loan_takes recs period loans in
     ((\<Sum>(_, n)\<leftarrow>takes. n),
      fold (\<lambda>(l, n). upsert (ln_id l, period) n) takes recs,
      map (\<lambda>l. if list_ex (\<lambda>(k, n). ln_id k = ln_id l \<and> owing recs k \<le> n) takes then l\<lparr>ln_status := ''closed''\<rparr> else l) loans))"

subsection \<open>Income tax\<close>

record TaxSlab =
  tx_upTo :: int
  tx_percent :: rat

definition tslab :: "int \<Rightarrow> rat \<Rightarrow> TaxSlab" where
  "tslab u p = \<lparr>tx_upTo = u, tx_percent = p\<rparr>"

definition newRegimeSlabs :: "TaxSlab list" where
  "newRegimeSlabs = [tslab 30000000 0, tslab 70000000 5, tslab 100000000 10, tslab 120000000 15, tslab 150000000 20, tslab 0 30]"

definition oldRegimeSlabs :: "TaxSlab list" where
  "oldRegimeSlabs = [tslab 25000000 0, tslab 50000000 5, tslab 100000000 20, tslab 0 30]"

fun slab_loop :: "int \<Rightarrow> int \<Rightarrow> int \<Rightarrow> TaxSlab list \<Rightarrow> int" where
  "slab_loop income tax floor0 [] = tax"
| "slab_loop income tax floor0 (sl # sls) =
    (if income \<le> floor0 then tax
     else let top = (if tx_upTo sl = 0 \<or> income < tx_upTo sl then income else tx_upTo sl);
              tax' = tax + pct (top - floor0) (tx_percent sl)
          in if tx_upTo sl = 0 then tax' else slab_loop income tax' (tx_upTo sl) sls)"

definition slabTax :: "int \<Rightarrow> TaxSlab list \<Rightarrow> int" where
  "slabTax income slabs = slab_loop income 0 0 slabs"

record Tax =
  ta_taxable :: int
  ta_before_rebate :: int
  ta_rebate :: int
  ta_cess :: int
  ta_payable :: int
  ta_monthly :: int

text \<open>The year's gross and professional tax: what was paid, and the months to come at the salary on file.\<close>

definition project_year :: "int \<Rightarrow> int \<Rightarrow> int \<Rightarrow> int \<Rightarrow> int \<times> int" where
  "project_year gross profTax monthsPaid monthly =
    (if monthsPaid < 12 then
       let toCome = 12 - monthsPaid in
       if 0 < monthly then (gross + monthly * toCome, if 0 < monthsPaid then profTax + js_trunc (fl (of_int profTax / of_int monthsPaid)) * toCome else profTax)
       else if 0 < monthsPaid then (gross + js_trunc (fl (of_int gross / of_int monthsPaid)) * toCome, profTax + js_trunc (fl (of_int profTax / of_int monthsPaid)) * toCome)
       else (gross, profTax)
     else (gross, profTax))"

record Declaration =
  dc_section :: string
  dc_declared :: int
  dc_verified :: "int option"
  dc_status :: string

definition counted :: "Declaration \<Rightarrow> int" where
  "counted d = (if dc_status d = ''rejected'' then 0 else case dc_verified d of Some n \<Rightarrow> n | None \<Rightarrow> dc_declared d)"

definition chapter6A :: "Declaration list \<Rightarrow> int" where
  "chapter6A ds = min 15000000 (\<Sum>d\<leftarrow>ds. if startsWith (dc_section d) ''80C'' then counted d else 0)
     + (\<Sum>d\<leftarrow>ds. if startsWith (dc_section d) ''80C'' then 0 else counted d)"

definition getTaxComputation :: "string \<Rightarrow> int \<Rightarrow> int \<Rightarrow> int \<Rightarrow> int \<Rightarrow> Declaration list \<Rightarrow> Tax" where
  "getTaxComputation regime paid paidTax monthsPaid monthly ds =
    (let (gross, profTax) = project_year paid paidTax monthsPaid monthly;
         old = (regime = ''old'');
         deductions = (if old then 5000000 + chapter6A ds + profTax else 7500000);
         taxable = max 0 (gross - deductions);
         before = slabTax taxable (if old then oldRegimeSlabs else newRegimeSlabs);
         rebate = (if taxable \<le> (if old then 50000000 else 70000000) then min before (if old then 1250000 else 2500000) else 0);
         after = max 0 (before - rebate);
         cess = pct after 4;
         payable = after + cess
     in \<lparr>ta_taxable = taxable, ta_before_rebate = before, ta_rebate = rebate, ta_cess = cess, ta_payable = payable,
         ta_monthly = js_trunc (fl (of_int payable / of_int (max 1 (12 - monthsPaid))))\<rparr>)"

subsection \<open>Approval of a month\<close>

text \<open>
  \<open>pm_slips\<close> numbers the payslips on disk: every run and every adjustment writes new ones.
  \<open>pm_approved_slips\<close> is not in the code: it notes what the approver saw.
\<close>

record Month =
  pm_exists :: bool
  pm_status :: string
  pm_approval :: "string option"
  pm_run_by :: "string option"
  pm_submitted_by :: "string option"
  pm_approved_by :: "string option"
  pm_published :: bool
  pm_file_drawn :: bool
  pm_slips :: nat
  pm_approved_slips :: nat

definition no_month :: Month where
  "no_month = \<lparr>pm_exists = False, pm_status = ''draft'', pm_approval = None, pm_run_by = None, pm_submitted_by = None,
     pm_approved_by = None, pm_published = False, pm_file_drawn = False, pm_slips = 0, pm_approved_slips = 0\<rparr>"

text \<open>
  \<open>runPayroll\<close> after its own questions: the row is made, or its \<open>run_by\<close> overwritten, \<^emph>\<open>before\<close> the
  lock is looked at.  The boolean says whether the run went through.
\<close>

definition runPayroll :: "string \<Rightarrow> bool \<Rightarrow> Month \<Rightarrow> Month \<times> bool" where
  "runPayroll user period_open m =
    (if \<not> period_open then (m, False)
     else let m1 = (if pm_exists m then m\<lparr>pm_run_by := Some user\<rparr> else no_month\<lparr>pm_exists := True, pm_run_by := Some user\<rparr>) in
     if pm_status m1 = ''locked'' \<or> pm_status m1 = ''paid'' \<or> pm_file_drawn m1 then (m1, False)
     else (m1\<lparr>pm_slips := pm_slips m1 + 1, pm_status := ''processed''\<rparr>, True))"

definition state_from :: "string \<Rightarrow> string list option" where
  "state_from to0 =
    (if to0 = ''locked'' then Some [''draft'', ''processed''] else if to0 = ''paid'' then Some [''locked'']
     else if to0 = ''published'' then Some [''paid'', ''locked''] else if to0 = ''draft'' then Some [''locked'', ''paid''] else None)"

definition clearApproval :: "Month \<Rightarrow> Month" where
  "clearApproval m = m\<lparr>pm_approval := None, pm_submitted_by := None, pm_approved_by := None\<rparr>"

definition setPayrollState :: "string \<Rightarrow> Month \<Rightarrow> Month option" where
  "setPayrollState to0 m =
    (case state_from to0 of None \<Rightarrow> None
     | Some from0 \<Rightarrow>
        if \<not> pm_exists m \<or> pm_status m \<notin> set from0 then None
        else if to0 = ''published'' \<and> pm_approval m \<noteq> Some ''approved'' then None
        else let status = (if to0 = ''published'' then ''paid'' else to0);
                 m1 = m\<lparr>pm_status := status,
                   pm_published := (if to0 = ''published'' then True else if status = ''draft'' then False else pm_published m),
                   pm_file_drawn := (if status = ''draft'' then False else pm_file_drawn m)\<rparr>
             in Some (if to0 = ''draft'' then clearApproval m1 else m1))"

definition submitPayroll :: "string \<Rightarrow> Month \<Rightarrow> Month option" where
  "submitPayroll user m =
    (if \<not> pm_exists m \<or> (pm_status m \<noteq> ''locked'' \<and> pm_status m \<noteq> ''paid'') then None
     else if pm_approval m = Some ''pending'' \<or> pm_approval m = Some ''approved'' then None
     else Some (m\<lparr>pm_approval := Some ''pending'', pm_submitted_by := Some user, pm_approved_by := None\<rparr>))"

definition decidePayroll :: "string \<Rightarrow> bool \<Rightarrow> string \<Rightarrow> string \<Rightarrow> Month \<Rightarrow> Month option" where
  "decidePayroll user institution_admin decision note m =
    (if decision \<noteq> ''approved'' \<and> decision \<noteq> ''rejected'' then None
     else if \<not> institution_admin \<or> \<not> pm_exists m then None
     else if pm_run_by m = Some user \<or> pm_submitted_by m = Some user then None
     else if pm_approval m \<noteq> Some ''pending'' then None
     else if decision = ''rejected'' then
       (if js_trim note = '''' then None
        else Some (m\<lparr>pm_status := ''draft'', pm_published := False, pm_file_drawn := False, pm_approval := None, pm_approved_by := None\<rparr>))
     else Some (m\<lparr>pm_approval := Some ''approved'', pm_approved_by := Some user, pm_approved_slips := pm_slips m\<rparr>))"

text \<open>An adjustment, refused on a locked month, folded into the payslips when there are any; the bank file.\<close>

definition adjustMonth :: "Month \<Rightarrow> Month option" where
  "adjustMonth m =
    (if pm_exists m \<and> (pm_status m = ''locked'' \<or> pm_status m = ''paid'' \<or> pm_file_drawn m) then None
     else Some (if pm_exists m then m\<lparr>pm_slips := pm_slips m + 1\<rparr> else m))"

definition drawBankFile :: "Month \<Rightarrow> Month" where
  "drawBankFile m = (if pm_exists m then m\<lparr>pm_file_drawn := True\<rparr> else m)"

inductive month_step :: "Month \<Rightarrow> Month \<Rightarrow> bool" where
  ran: "runPayroll user period_open m = (m', done) \<Longrightarrow> month_step m m'"
| moved: "setPayrollState to0 m = Some m' \<Longrightarrow> month_step m m'"
| submitted: "submitPayroll user m = Some m' \<Longrightarrow> month_step m m'"
| decided: "decidePayroll user admin decision note m = Some m' \<Longrightarrow> month_step m m'"
| adjusted: "adjustMonth m = Some m' \<Longrightarrow> month_step m m'"
| drawn: "month_step m (drawBankFile m)"

end
