(* ===== verification/PayrollProps.thy ===== *)
theory PayrollProps
  imports Payroll
begin

text \<open>
  What salaries rest on: the printed lines add up to the net, a correction folded back gives the
  payslip a fresh run would, percentages round half up exactly, an advance is never recovered
  twice, and a published month is the one that was approved.  Two lemmas at the end of their
  sections show what re-running a month does to an advance and to the rule of two persons.
\<close>

subsection \<open>Lines\<close>

lemma put_keys: "fst ` set (put k v al) = insert k (fst ` set al)"
proof (induction al)
  case (Cons x al)
  then show ?case by (cases x; cases "fst x = k") (auto simp: insert_commute)
qed simp

lemma put_distinct: "distinct (map fst al) \<Longrightarrow> distinct (map fst (put k v al))"
proof (induction al)
  case (Cons x al)
  then show ?case using put_keys [of k v al] by (cases x; cases "fst x = k") (auto simp del: set_map simp flip: set_map)
qed simp

lemma put_fresh: "k \<notin> fst ` set al \<Longrightarrow> put k v al = al @ [(k, v)]"
  by (induction al) auto

lemma del_fresh: "k \<notin> fst ` set al \<Longrightarrow> del k al = al"
  by (induction al) (auto simp: del_def)

lemma del_keys: "fst ` set (del k al) = fst ` set al - {k}"
  by (auto simp: del_def)

lemma map_of_put: "map_of (put k v al) = (map_of al)(k \<mapsto> v)"
  by (induction al) auto

text \<open>The lines that are pay; the employer's shares are shown and not counted.\<close>

definition memos :: "string set" where
  "memos = {''PF_EMPLOYER'', ''EPS'', ''ESI_EMPLOYER'', ''ESI_EE_BY_EMPLOYER''}"

definition total :: "(string \<times> int) list \<Rightarrow> int" where
  "total al = (\<Sum>(k, v)\<leftarrow>al. if k \<in> memos then 0 else v)"

lemma total_simps [simp]: "total [] = 0" "total ((k, v) # al) = (if k \<in> memos then 0 else v) + total al"
  "total (al @ bl) = total al + total bl"
  by (simp_all add: total_def)

lemma total_put_old:
  "map_of al k = Some w \<Longrightarrow> k \<notin> memos \<Longrightarrow> total (put k v al) = total al - w + v"
  by (induction al) (auto split: if_splits)

lemma total_del:
  "distinct (map fst al) \<Longrightarrow> map_of al k = Some w \<Longrightarrow> k \<notin> memos \<Longrightarrow> total (del k al) = total al - w"
proof (induction al)
  case (Cons x al)
  show ?case
  proof (cases "fst x = k")
    case True
    with Cons.prems have "k \<notin> fst ` set al" "snd x = w" by auto
    with True Cons.prems(3) show ?thesis using del_fresh [of k al] by (cases x) (simp add: del_def)
  next
    case False
    with Cons show ?thesis by (cases x) (simp add: del_def)
  qed
qed simp

text \<open>The books of one payslip: its lines add up, and their codes come from \<open>K\<close>.\<close>

definition adds_up :: "string set \<Rightarrow> Slip \<Rightarrow> bool" where
  "adds_up K s \<longleftrightarrow> total (sp_breakup s) = sp_earn s - sp_deduct s \<and> fst ` set (sp_breakup s) \<subseteq> K
     \<and> distinct (map fst (sp_breakup s))"

lemma earn_line_adds:
  assumes "adds_up K s" "c \<notin> K" "c \<notin> memos"
  shows "adds_up (insert c K) (earn_line c v s)"
proof -
  have "c \<notin> fst ` set (sp_breakup s)" using assms(1,2) by (auto simp: adds_up_def)
  with assms show ?thesis by (auto simp: adds_up_def earn_line_def put_fresh)
qed

lemma cut_line_adds:
  assumes "adds_up K s" "c \<notin> K" "c \<notin> memos"
  shows "adds_up (insert c K) (cut_line c v s)"
proof -
  have "c \<notin> fst ` set (sp_breakup s)" using assms(1,2) by (auto simp: adds_up_def)
  with assms show ?thesis by (auto simp: adds_up_def cut_line_def put_fresh)
qed

lemma memo_line_adds:
  assumes "adds_up K s" "c \<notin> K" "c \<in> memos"
  shows "adds_up (insert c K) (memo_line c v s)"
proof -
  have "c \<notin> fst ` set (sp_breakup s)" using assms(1,2) by (auto simp: adds_up_def)
  with assms show ?thesis by (auto simp: adds_up_def memo_line_def put_fresh)
qed

lemma adds_up_mono: "adds_up K s \<Longrightarrow> K \<subseteq> L \<Longrightarrow> adds_up L s"
  by (auto simp: adds_up_def)

lemma positive_adds:
  assumes "adds_up K s" "c \<notin> K" "c \<notin> memos"
  shows "adds_up (insert c K) (positive earn_line c v s)" "adds_up (insert c K) (positive cut_line c v s)"
  using earn_line_adds [OF assms] cut_line_adds [OF assms] adds_up_mono [OF assms(1) subset_insertI] by (auto simp: positive_def)

lemma positive_memo_adds:
  assumes "adds_up K s" "c \<notin> K" "c \<in> memos"
  shows "adds_up (insert c K) (positive memo_line c v s)"
  using memo_line_adds [OF assms] adds_up_mono [OF assms(1) subset_insertI] by (auto simp: positive_def)

lemma count_bases_fields [simp]:
  "sp_earn (count_bases b c v n s) = sp_earn s" "sp_deduct (count_bases b c v n s) = sp_deduct s"
  "sp_breakup (count_bases b c v n s) = sp_breakup s"
  by (simp_all add: count_bases_def Let_def)

lemma adds_up_cong:
  "sp_earn s = sp_earn s' \<Longrightarrow> sp_deduct s = sp_deduct s' \<Longrightarrow> sp_breakup s = sp_breakup s' \<Longrightarrow> adds_up K s = adds_up K s'"
  by (simp add: adds_up_def)

subsection \<open>The parts of a salary\<close>

lemma part_line_adds:
  assumes "adds_up K s" "pc_code cmp \<notin> K" "pc_code cmp \<notin> memos"
  shows "adds_up (insert (pc_code cmp) K) (part_line b ratio cmp s)"
  using earn_line_adds [OF assms, of "prorate ratio (pc_amount cmp)"] cut_line_adds [OF assms, of "pc_amount cmp"] adds_up_mono [OF assms(1)]
  by (auto simp: part_line_def Let_def adds_up_def)

lemma fold_parts_adds:
  "adds_up K s \<Longrightarrow> distinct (map pc_code comps) \<Longrightarrow> pc_code ` set comps \<inter> (K \<union> memos) = {}
    \<Longrightarrow> adds_up (K \<union> pc_code ` set comps) (fold (part_line b ratio) comps s)"
proof (induction comps arbitrary: K s)
  case (Cons cmp comps)
  have "adds_up (insert (pc_code cmp) K) (part_line b ratio cmp s)" by (rule part_line_adds) (use Cons.prems in auto)
  from Cons.IH [OF this] Cons.prems(2,3)
  have "adds_up (insert (pc_code cmp) K \<union> pc_code ` set comps) (fold (part_line b ratio) comps (part_line b ratio cmp s))" by auto
  then show ?case by simp
qed simp

text \<open>Lines of neither kind, and PF, ESI and PT among the deductions, are passed over.\<close>

definition kept :: "PayComp \<Rightarrow> bool" where
  "kept cmp \<longleftrightarrow> pc_kind cmp = ''earning'' \<or> (pc_kind cmp = ''deduction'' \<and> pc_code cmp \<notin> {''PF'', ''ESI'', ''PT''})"

lemma fold_kept: "fold (part_line b ratio) comps s = fold (part_line b ratio) (filter kept comps) s"
  by (induction comps arbitrary: s) (auto simp: part_line_def kept_def)

lemma rule_line_adds:
  assumes "adds_up K s" "rc_code r \<in> set have0 \<or> rc_code r \<notin> K" "rc_code r \<notin> memos"
  shows "adds_up (insert (rc_code r) K) (rule_line b ratio have0 g r s)"
proof -
  let ?full = "rule_full g (sp_fullBasic s) r"
  have keep: "adds_up (insert (rc_code r) K) s" using adds_up_mono [OF assms(1) subset_insertI] .
  consider (skip) "rc_code r \<in> set have0 \<or> ?full \<le> 0" | (line) "rc_code r \<notin> set have0" "0 < ?full" by linarith
  then show ?thesis
  proof cases
    case skip
    then show ?thesis using keep by (auto simp: rule_line_def Let_def)
  next
    case line
    then have new: "rc_code r \<notin> K" using assms(2) by simp
    note e = earn_line_adds [OF assms(1) new assms(3)] and c = cut_line_adds [OF assms(1) new assms(3)]
    show ?thesis
      using line keep e [of "prorate ratio ?full"] c [of ?full]
      by (auto simp: rule_line_def Let_def adds_up_def)
  qed
qed

lemma fold_rules_adds:
  "adds_up K s \<Longrightarrow> distinct (map rc_code rules)
    \<Longrightarrow> \<forall>r\<in>set rules. rc_code r \<notin> memos \<and> (rc_code r \<in> set have0 \<or> rc_code r \<notin> K)
    \<Longrightarrow> adds_up (K \<union> rc_code ` set rules) (fold (rule_line b ratio have0 g) rules s)"
proof (induction rules arbitrary: K s)
  case (Cons r rules)
  have one: "adds_up (insert (rc_code r) K) (rule_line b ratio have0 g r s)" by (rule rule_line_adds) (use Cons.prems in auto)
  have rest: "\<forall>q\<in>set rules. rc_code q \<notin> memos \<and> (rc_code q \<in> set have0 \<or> rc_code q \<notin> insert (rc_code r) K)"
  proof
    fix q assume q: "q \<in> set rules"
    then have "rc_code q \<in> set (map rc_code rules)" by simp
    then have "rc_code q \<noteq> rc_code r" using Cons.prems(2) by (metis distinct.simps(2) list.simps(9))
    moreover have "rc_code q \<notin> memos \<and> (rc_code q \<in> set have0 \<or> rc_code q \<notin> K)"
      by (rule bspec [OF Cons.prems(3)]) (simp add: q)
    ultimately show "rc_code q \<notin> memos \<and> (rc_code q \<in> set have0 \<or> rc_code q \<notin> insert (rc_code r) K)" by simp
  qed
  have "distinct (map rc_code rules)" using Cons.prems(2) by simp
  from Cons.IH [OF one this rest] show ?case by simp
qed simp

lemma gross_split_adds:
  assumes "adds_up K s"
  shows "adds_up K (gross_split s)"
proof (cases "map_of (sp_breakup s) ''GROSS''")
  case None
  then show ?thesis using assms by (simp add: gross_split_def)
next
  case (Some g)
  define cut where "cut = min g (sp_ruleEarn s)"
  define b where "b = put ''GROSS'' (g - cut) (sp_breakup s)"
  have nm: "''GROSS'' \<notin> memos" by (simp add: memos_def)
  have d: "distinct (map fst (sp_breakup s))" "fst ` set (sp_breakup s) \<subseteq> K" "total (sp_breakup s) = sp_earn s - sp_deduct s"
    using assms by (auto simp: adds_up_def)
  have "''GROSS'' \<in> K" using Some d(2) by (force dest: map_of_SomeD)
  then have k: "fst ` set b \<subseteq> K" using d(2) unfolding b_def put_keys by simp
  have t: "total b = sp_earn s - cut - sp_deduct s"
    using total_put_old [OF Some nm, of "g - cut"] d(3) by (simp add: b_def)
  have db: "distinct (map fst b)" using put_distinct [OF d(1)] by (simp add: b_def)
  have gone: "total (del ''GROSS'' b) = total b" if "g - cut = 0"
    using total_del [OF db, of "''GROSS''" 0] that nm by (simp add: b_def map_of_put)
  have "fst ` set (del ''GROSS'' b) \<subseteq> K" "distinct (map fst (del ''GROSS'' b))"
    using k db by (auto simp: del_def distinct_map_filter)
  moreover have "gross_split s = (if 0 < sp_ruleEarn s
      then s\<lparr>sp_earn := sp_earn s - cut, sp_breakup := (if g - cut = 0 then del ''GROSS'' b else b)\<rparr> else s)"
    by (simp only: gross_split_def Some option.case Let_def cut_def [symmetric] b_def [symmetric])
  ultimately show ?thesis using k t db gone assms by (auto simp: adds_up_def)
qed

subsection \<open>The whole payslip\<close>

definition reserved :: "string set" where
  "reserved = {''GROSS'', ''SUBST'', ''ESI_EE_BY_EMPLOYER'', ''PF'', ''ESI'', ''PT'', ''LOP'', ''HOLIDAY_WORK'', ''PF_EMPLOYER'',
     ''EPS'', ''ESI_EMPLOYER'', ''ADVANCE'', ''ADJ_ADD'', ''ADJ_CUT''}"

text \<open>No component or rule is listed twice or carries a code of the run's own.\<close>

definition codes_ok :: "PayComp list \<Rightarrow> RuleComp list \<Rightarrow> bool" where
  "codes_ok comps rules \<longleftrightarrow> distinct (map pc_code comps) \<and> distinct (map rc_code rules)
     \<and> list_all (\<lambda>x. pc_code x \<notin> reserved) (filter kept comps) \<and> list_all (\<lambda>r. rc_code r \<notin> reserved) rules"

lemma memos_reserved: "memos \<subseteq> reserved"
  by (simp add: memos_def reserved_def)

lemma parts_adds:
  assumes "codes_ok comps rules"
  shows "adds_up (insert ''GROSS'' (- reserved)) (parts b ratio ctc comps rules)"
proof -
  let ?ks = "filter kept comps"
  let ?K = "insert ''GROSS'' (pc_code ` set ?ks)"
  let ?s = "fold (part_line b ratio) comps no_slip"
  have codes: "pc_code ` set ?ks \<inter> reserved = {}" "distinct (map pc_code ?ks)" "\<forall>r\<in>set rules. rc_code r \<notin> reserved" "distinct (map rc_code rules)"
    using assms by (auto simp: codes_ok_def list_all_iff distinct_map_filter)
  have gr: "''GROSS'' \<in> reserved" "''GROSS'' \<notin> memos" by (simp_all add: reserved_def memos_def)
  have "adds_up {} no_slip" by (simp add: adds_up_def no_slip_def)
  from fold_parts_adds [OF this codes(2)] codes(1) memos_reserved have s: "adds_up (pc_code ` set ?ks) ?s"
    unfolding fold_kept [of b ratio comps] by auto
  have g: "adds_up ?K (gross_line ratio ctc comps ?s)"
  proof -
    have new: "''GROSS'' \<notin> pc_code ` set ?ks" using codes(1) gr(1) by auto
    from earn_line_adds [OF s new gr(2), of "prorate ratio ctc"] adds_up_mono [OF s subset_insertI, of "''GROSS''"]
    show ?thesis by (auto simp: gross_line_def Let_def adds_up_def)
  qed
  have sub: "?K \<subseteq> insert ''GROSS'' (- reserved)" "?K \<union> rc_code ` set rules \<subseteq> insert ''GROSS'' (- reserved)"
    using codes(1,3) by auto
  have "\<forall>r\<in>set rules. rc_code r \<notin> memos \<and> (rc_code r \<in> set (map pc_code comps) \<or> rc_code r \<notin> ?K)"
    using codes(3) memos_reserved gr(1) by auto
  from gross_split_adds [OF fold_rules_adds [OF g codes(4) this]]
  have "adds_up (?K \<union> rc_code ` set rules)
    (gross_split (fold (rule_line b ratio (map pc_code comps) (sp_fullGross (gross_line ratio ctc comps ?s))) rules (gross_line ratio ctc comps ?s)))" .
  with g sub adds_up_mono show ?thesis by (simp add: parts_def Let_def)
qed

definition base_codes :: "string set" where
  "base_codes = - {''ADJ_ADD'', ''ADJ_CUT''}"

lemma base_slip_adds:
  assumes "codes_ok (pe_comps e) rules"
  shows "adds_up base_codes (base_slip set0 rules nDays month e)"
proof -
  define s0 where "s0 = parts (pr_pf_wage_base set0 = ''basic'') (pay_ratio set0 nDays e) (pe_ctc e) (pe_comps e) rules"
  define s1 where "s1 = (if 0 < ps_substitution_rate set0 \<and> 0 < pe_substitutions e
               then earn_line ''SUBST'' (pe_substitutions e * ps_substitution_rate set0) s0 else s0)"
  obtain st s2 where s2: "statutory_lines set0 month e s1 = (st, s2)" by fastforce
  define K0 where "K0 = insert ''GROSS'' (- reserved)"
  define K1 where "K1 = insert ''SUBST'' K0"
  define K2 where "K2 = insert ''PT'' (insert ''ESI'' (insert ''PF'' (insert ''ESI_EE_BY_EMPLOYER'' K1)))"
  define K3 where "K3 = insert ''HOLIDAY_WORK'' (insert ''LOP'' K2)"
  define K4 where "K4 = insert ''ESI_EMPLOYER'' (insert ''EPS'' (insert ''PF_EMPLOYER'' K3))"
  note Ks = K0_def K1_def K2_def K3_def K4_def reserved_def memos_def
  have a0: "adds_up K0 s0" unfolding s0_def K0_def by (rule parts_adds [OF assms])
  have "adds_up K1 (earn_line ''SUBST'' (pe_substitutions e * ps_substitution_rate set0) s0)" unfolding K1_def
    by (rule earn_line_adds [OF a0]) (simp_all add: Ks)
  then have a1: "adds_up K1 s1" using adds_up_mono [OF a0, of K1] by (auto simp: s1_def K1_def)
  have a2: "adds_up K2 s2"
  proof -
    define m where "m = computeStatutory (personSettings set0 (pe_pf e)) (personPfWage (pe_pf e) (sp_basic s1) (sp_da s1) (sp_basicDA s1)) (sp_earn s1) month"
    define esi where "esi = (if pr_esi_mode set0 = ''employer'' then 0 else st_esi_employee m)"
    define t where "t = (if esi = 0 \<and> 0 < st_esi_employee m then memo_line ''ESI_EE_BY_EMPLOYER'' (st_esi_employee m) s1 else s1)"
    have "adds_up (insert ''ESI_EE_BY_EMPLOYER'' K1) (memo_line ''ESI_EE_BY_EMPLOYER'' (st_esi_employee m) s1)"
      by (rule memo_line_adds [OF a1]) (simp_all add: Ks)
    then have t: "adds_up (insert ''ESI_EE_BY_EMPLOYER'' K1) t" using adds_up_mono [OF a1 subset_insertI] by (simp add: t_def)
    have p: "adds_up (insert ''PF'' (insert ''ESI_EE_BY_EMPLOYER'' K1)) (positive cut_line ''PF'' (st_pf_employee m) t)"
      by (rule positive_adds(2) [OF t]) (simp_all add: Ks)
    have q: "adds_up (insert ''ESI'' (insert ''PF'' (insert ''ESI_EE_BY_EMPLOYER'' K1))) (positive cut_line ''ESI'' esi (positive cut_line ''PF'' (st_pf_employee m) t))"
      by (rule positive_adds(2) [OF p]) (simp_all add: Ks)
    have "adds_up K2 (positive cut_line ''PT'' (st_pt m) (positive cut_line ''ESI'' esi (positive cut_line ''PF'' (st_pf_employee m) t)))"
      unfolding K2_def by (rule positive_adds(2) [OF q]) (simp_all add: Ks)
    moreover have "s2 = positive cut_line ''PT'' (st_pt m) (positive cut_line ''ESI'' esi (positive cut_line ''PF'' (st_pf_employee m) t))"
      using s2 unfolding statutory_lines_def Let_def m_def [symmetric] esi_def [symmetric] t_def [symmetric] by (metis prod.inject)
    ultimately show ?thesis by simp
  qed
  have a3: "adds_up K3 (day_lines set0 nDays month (sp_earn s0) e s2)"
  proof -
    have l: "adds_up (insert ''LOP'' K2) (positive cut_line ''LOP'' v s2)" for v
      by (rule positive_adds(2) [OF a2]) (simp_all add: Ks)
    then have l': "adds_up (insert ''LOP'' K2) (if c then positive cut_line ''LOP'' v s2 else s2)" for c v
      using adds_up_mono [OF a2 subset_insertI] by simp
    have "adds_up K3 (positive earn_line ''HOLIDAY_WORK'' w (if c then positive cut_line ''LOP'' v s2 else s2))" for c v w
      unfolding K3_def by (rule positive_adds(1) [OF l']) (simp_all add: Ks)
    moreover have "adds_up K3 (if c then positive cut_line ''LOP'' v s2 else s2)" for c v
      unfolding K3_def by (rule adds_up_mono [OF l' subset_insertI])
    ultimately have "adds_up K3 (if h then positive earn_line ''HOLIDAY_WORK'' w (if c then positive cut_line ''LOP'' v s2 else s2)
        else if c then positive cut_line ''LOP'' v s2 else s2)" for h w c v by simp
    then show ?thesis unfolding day_lines_def Let_def .
  qed
  have a4: "adds_up K4 (memo_lines st (day_lines set0 nDays month (sp_earn s0) e s2))"
    unfolding memo_lines_def K4_def by (intro positive_memo_adds a3) (simp_all add: Ks)
  have "adds_up (insert ''ADVANCE'' K4) (positive cut_line ''ADVANCE'' (pe_loan_cut e) (memo_lines st (day_lines set0 nDays month (sp_earn s0) e s2)))"
    by (rule positive_adds(2) [OF a4]) (simp_all add: Ks)
  moreover have "insert ''ADVANCE'' K4 \<subseteq> base_codes" by (auto simp: Ks base_codes_def)
  moreover have "base_slip set0 rules nDays month e = positive cut_line ''ADVANCE'' (pe_loan_cut e) (memo_lines st (day_lines set0 nDays month (sp_earn s0) e s2))"
    by (simp add: base_slip_def Let_def s0_def [symmetric] s1_def [symmetric] s2)
  ultimately show ?thesis using adds_up_mono by simp
qed

lemma adjust_lines_adds:
  assumes "adds_up base_codes s"
  shows "adds_up UNIV (adjust_lines earn off s)"
proof -
  have m: "''ADJ_ADD'' \<notin> memos" "''ADJ_CUT'' \<notin> memos" by (simp_all add: memos_def)
  have a: "adds_up (insert ''ADJ_ADD'' base_codes) (positive earn_line ''ADJ_ADD'' earn s)"
    by (rule positive_adds(1) [OF assms _ m(1)]) (simp add: base_codes_def)
  have "adds_up (insert ''ADJ_CUT'' (insert ''ADJ_ADD'' base_codes)) (adjust_lines earn off s)"
    unfolding adjust_lines_def by (rule positive_adds(2) [OF a _ m(2)]) (simp add: base_codes_def)
  then show ?thesis by (rule adds_up_mono) simp
qed

text \<open>
  C13. The lines of a payslip add up to its net pay, and no code is printed twice: with the components
  and rules carrying each code once and none of the run's own, every paisa of gross and deduction
  is on exactly one line (the employer's shares are shown and not counted), whatever the loss of
  pay, the statutory choices, the advances and the adjustments.
\<close>
theorem payslip_adds_up:
  assumes "codes_ok (pe_comps e) rules"
  shows "total (sp_breakup (payslip set0 rules nDays month e)) = net_pay (payslip set0 rules nDays month e)
    \<and> distinct (map fst (sp_breakup (payslip set0 rules nDays month e)))"
  using adjust_lines_adds [OF base_slip_adds [OF assms]] by (simp add: payslip_def adds_up_def net_pay_def)

subsection \<open>Folding a correction back\<close>

lemma adj_irrelevant [simp]:
  "pay_ratio set0 nDays (e\<lparr>pe_adj_earn := a, pe_adj_deduct := b\<rparr>) = pay_ratio set0 nDays e"
  "statutory_lines set0 month (e\<lparr>pe_adj_earn := a, pe_adj_deduct := b\<rparr>) = statutory_lines set0 month e"
  "day_lines set0 nDays month g (e\<lparr>pe_adj_earn := a, pe_adj_deduct := b\<rparr>) = day_lines set0 nDays month g e"
  unfolding statutory_lines_def day_lines_def pay_ratio_def day_base_def day_pay_def by (simp_all cong: if_cong)

lemma base_slip_adj [simp]: "base_slip set0 rules nDays month (e\<lparr>pe_adj_earn := a, pe_adj_deduct := b\<rparr>) = base_slip set0 rules nDays month e"
  unfolding base_slip_def by (simp cong: if_cong)

lemma monthAdjustments_nonneg:
  assumes "list_all (\<lambda>x. 0 < snd x) adjs"
  shows "0 \<le> fst (monthAdjustments adjs)" "0 \<le> snd (monthAdjustments adjs)"
  using assms by (induction adjs) (auto simp: monthAdjustments_def)

lemma adjust_lines_breakup:
  assumes "''ADJ_ADD'' \<notin> fst ` set (sp_breakup s)" "''ADJ_CUT'' \<notin> fst ` set (sp_breakup s)"
  shows "sp_breakup (adjust_lines a d s) =
    sp_breakup s @ (if 0 < a then [(''ADJ_ADD'', a)] else []) @ (if 0 < d then [(''ADJ_CUT'', - d)] else [])"
  using assms by (auto simp: adjust_lines_def positive_def earn_line_def cut_line_def put_fresh image_Un)

lemma adjust_lines_sums:
  "0 \<le> a \<Longrightarrow> sp_earn (adjust_lines a d s) = sp_earn s + a"
  "0 \<le> d \<Longrightarrow> sp_deduct (adjust_lines a d s) = sp_deduct s + d"
  by (auto simp: adjust_lines_def positive_def earn_line_def cut_line_def)

lemma refold_adjust_lines:
  assumes "adds_up base_codes s" "0 \<le> a" "0 \<le> d" "0 \<le> fst (monthAdjustments adjs)" "0 \<le> snd (monthAdjustments adjs)"
  shows "refoldAdjustments adjs (row_of (adjust_lines a d s)) =
    row_of (adjust_lines (fst (monthAdjustments adjs)) (snd (monthAdjustments adjs)) s)"
proof -
  define b where "b = sp_breakup s"
  obtain x y where xy: "monthAdjustments adjs = (x, y)" "0 \<le> x" "0 \<le> y" using assms(4,5) by (cases "monthAdjustments adjs") auto
  have k: "''ADJ_ADD'' \<notin> fst ` set b" "''ADJ_CUT'' \<notin> fst ` set b" using assms(1) by (auto simp: adds_up_def base_codes_def b_def)
  note B = adjust_lines_breakup [OF k [unfolded b_def], folded b_def]
  have m: "map_of b ''ADJ_ADD'' = None" "map_of b ''ADJ_CUT'' = None" using k by (simp_all add: map_of_eq_None_iff)
  have dl: "del ''ADJ_ADD'' b = b" "del ''ADJ_CUT'' b = b" using k del_fresh by auto
  have app: "del c (al @ bl) = del c al @ del c bl" for c al bl by (simp add: del_def)
  have "line_or_0 (sp_breakup (adjust_lines a d s)) ''ADJ_ADD'' = a" "line_or_0 (sp_breakup (adjust_lines a d s)) ''ADJ_CUT'' = - d"
    using assms(2,3) m by (auto simp: B line_or_0_def map_add_def)
  moreover have "del ''ADJ_CUT'' (del ''ADJ_ADD'' (sp_breakup (adjust_lines a d s))) = b"
    by (simp add: B app dl) (simp add: del_def)
  moreover have "(if 0 < y then put ''ADJ_CUT'' (- y) (if 0 < x then put ''ADJ_ADD'' x b else b) else if 0 < x then put ''ADJ_ADD'' x b else b)
      = sp_breakup (adjust_lines x y s)"
    using k by (auto simp: B put_fresh image_Un)
  ultimately show ?thesis
    using assms(2,3) xy by (simp add: refoldAdjustments_def row_of_def adjust_lines_sums Let_def)
qed


subsection \<open>Percentages in doubles\<close>

text \<open>
  A figure between a half below and less than a half above a whole number rounds to it.
\<close>
lemma half_up_doubles:
  assumes "0 \<le> q" "q < 2 ^ 45" "of_int q - 1/2 \<le> x" "x \<le> of_int q + 49/100"
  shows "\<lfloor>fl (fl x + 1/2)\<rfloor> = q"
proof -
  have "of_int (2 * q - 1) / 2 ^ 1 \<le> fl x" by (rule fl_ge_grid) (use assms in auto)
  then have "of_int q / 2 ^ 0 \<le> fl x + 1/2" by simp
  then have lo: "of_int q / 2 ^ 0 \<le> fl (fl x + 1/2)" by (rule fl_ge_grid) (use assms in auto)
  have "fl x \<le> of_int (128 * q + 63) / 2 ^ 7" by (rule fl_le_grid) (use assms in auto)
  then have "fl x + 1/2 \<le> of_int (128 * q + 127) / 2 ^ 7" by (simp add: field_simps)
  then have "fl (fl x + 1/2) \<le> of_int (128 * q + 127) / 2 ^ 7" by (rule fl_le_grid) (use assms in auto)
  with lo show ?thesis by (simp add: floor_eq_iff field_simps)
qed

text \<open>
  A percentage of an amount, computed in doubles with its three roundings, is the exact
  half-up rounding to the paisa for every whole percentage while the product stays under
  \<open>2 ^ 50\<close> (at 100 percent, a hundred billion rupees).
\<close>
theorem pct_half_up:
  assumes "0 \<le> amount" "0 \<le> p" "amount * p < 2 ^ 50"
  shows "pct amount (of_int p) = (amount * p + 50) div 100"
proof -
  define q where "q = (amount * p + 50) div 100"
  have nn: "0 \<le> amount * p" using assms(1,2) by simp
  have q: "100 * q \<le> amount * p + 50" "amount * p + 50 < 100 * q + 100" "0 \<le> q" using nn unfolding q_def by simp_all
  have "fl (of_int amount * of_int p) = of_int (amount * p)" using fl_of_int [of "amount * p"] nn assms(3) by simp
  moreover have "\<lfloor>fl (fl (of_int (amount * p) / 100) + 1/2)\<rfloor> = q"
  proof (rule half_up_doubles)
    show "0 \<le> q" "q < 2 ^ 45" using q assms(3) by simp_all
    have "of_int (100 * q) \<le> (of_int (amount * p + 50) :: rat)" "(of_int (amount * p + 51) :: rat) \<le> of_int (100 * q + 100)"
      using q(1,2) by (simp_all only: of_int_le_iff)
    then show "of_int q - 1/2 \<le> (of_int (amount * p) :: rat) / 100" "(of_int (amount * p) :: rat) / 100 \<le> of_int q + 49/100"
      by (simp_all add: field_simps)
  qed
  ultimately show ?thesis by (simp add: pct_def q_def)
qed

lemma pct_half_up_witness: "pct 4333350 12 = 520002"
  using pct_half_up [of 4333350 12] by simp

lemma pct_mono: "0 \<le> p \<Longrightarrow> a \<le> b \<Longrightarrow> pct a p \<le> pct b p"
  unfolding pct_def by (intro floor_mono fl_mono add_right_mono divide_right_mono mult_right_mono) simp_all

lemma pct_nonneg: "0 \<le> p \<Longrightarrow> 0 \<le> a \<Longrightarrow> 0 \<le> pct a p"
  unfolding pct_def by (simp add: fl_nonneg)

lemma pct_le:
  assumes "0 \<le> a" "a < 2 ^ 46" "0 \<le> p" "p \<le> 100"
  shows "pct a p \<le> a"
proof -
  have "of_int a * p \<le> of_int (100 * a) / 2 ^ 0" using mult_left_mono [OF assms(4), of "of_int a"] assms(1) by (simp add: mult.commute)
  then have "fl (of_int a * p) \<le> of_int (100 * a) / 2 ^ 0" by (rule fl_le_grid) (use assms(1,2) in auto)
  then have "fl (of_int a * p) / 100 \<le> of_int a / 2 ^ 0" by simp
  then have "fl (fl (of_int a * p) / 100) \<le> of_int a / 2 ^ 0" by (rule fl_le_grid) (use assms(1,2) in auto)
  then have "fl (fl (of_int a * p) / 100) + 1/2 \<le> of_int (2 * a + 1) / 2 ^ 1" by simp
  then have "fl (fl (fl (of_int a * p) / 100) + 1/2) \<le> of_int (2 * a + 1) / 2 ^ 1" by (rule fl_le_grid) (use assms(1,2) in auto)
  then have "\<lfloor>fl (fl (fl (of_int a * p) / 100) + 1/2)\<rfloor> < a + 1" unfolding floor_less_iff by simp
  then show ?thesis by (simp add: pct_def)
qed

text \<open>
  The statutory figures stay within their bases: the PF wage never exceeds Basic + DA nor a
  ceiling that is set, the employee's PF is between nothing and that wage, the employer's share and
  the pension share together are exactly the employer's percentage and neither is negative, and ESI
  is a whole number of rupees.
\<close>
theorem statutory_within_bases:
  assumes "ps_pf_enabled set0" "0 < basicPlusDA" "basicPlusDA < 2 ^ 46"
    "0 \<le> ps_pf_employee_percent set0" "ps_pf_employee_percent set0 \<le> 100" "0 \<le> ps_pf_employer_percent set0" "0 \<le> ps_eps_percent set0"
  shows "let s = computeStatutory set0 basicPlusDA gross month in
    0 < st_pf_wage s \<and> st_pf_wage s \<le> basicPlusDA \<and> (ps_pf_wage_ceiling set0 \<le> 0 \<or> st_pf_wage s \<le> ps_pf_wage_ceiling set0)
    \<and> 0 \<le> st_pf_employee s \<and> st_pf_employee s \<le> st_pf_wage s
    \<and> 0 \<le> st_eps s \<and> 0 \<le> st_pf_employer s \<and> st_pf_employer s + st_eps s = pct (st_pf_wage s) (ps_pf_employer_percent set0)
    \<and> 100 dvd st_esi_employee s \<and> 100 dvd st_esi_employer s"
proof -
  define s where "s = computeStatutory set0 basicPlusDA gross month"
  have w: "st_pf_wage s = (if 0 < ps_pf_wage_ceiling set0 \<and> ps_pf_wage_ceiling set0 < basicPlusDA then ps_pf_wage_ceiling set0 else basicPlusDA)"
    and e: "st_pf_employee s = pct (st_pf_wage s) (ps_pf_employee_percent set0)"
    and p: "st_eps s = min (pct (st_pf_wage s) (ps_eps_percent set0)) (pct (st_pf_wage s) (ps_pf_employer_percent set0))"
    and r: "st_pf_employer s = pct (st_pf_wage s) (ps_pf_employer_percent set0) - st_eps s"
    and i: "100 dvd st_esi_employee s" "100 dvd st_esi_employer s"
    using assms(1,2) by (simp_all add: s_def computeStatutory_def Let_def rupee_def)
  have b: "0 < st_pf_wage s" "st_pf_wage s \<le> basicPlusDA" "ps_pf_wage_ceiling set0 \<le> 0 \<or> st_pf_wage s \<le> ps_pf_wage_ceiling set0"
    using assms(2) by (auto simp: w)
  have "0 \<le> st_pf_employee s" "st_pf_employee s \<le> st_pf_wage s" using b assms pct_le pct_nonneg by (simp_all add: e)
  moreover have "0 \<le> st_eps s" using b assms pct_nonneg by (simp add: p)
  ultimately show ?thesis using b i r p by (simp add: s_def [symmetric])
qed

subsection \<open>Loss of pay\<close>

lemma pay_ratio_bounds:
  assumes "0 \<le> pe_lop_days e" "0 < day_base nDays e" "fl (day_base nDays e) = day_base nDays e"
  shows "0 \<le> pay_ratio set0 nDays e" "pay_ratio set0 nDays e \<le> 1" "pe_lop_days e = 0 \<Longrightarrow> pay_ratio set0 nDays e = 1"
proof -
  let ?b = "day_base nDays e"
  let ?paid = "max 0 (fl (?b - pe_lop_days e))"
  have one: "fl 1 = 1" using fl_of_int [of 1] by simp
  have "fl (?b - pe_lop_days e) \<le> ?b" using fl_mono [of "?b - pe_lop_days e" ?b] assms(1,3) by simp
  then have "0 \<le> ?paid / ?b" "?paid / ?b \<le> 1" using assms(2) by simp_all
  then have "0 \<le> fl (?paid / ?b)" "fl (?paid / ?b) \<le> 1" using fl_nonneg fl_mono [of "?paid / ?b" 1] one by simp_all
  then show "0 \<le> pay_ratio set0 nDays e" "pay_ratio set0 nDays e \<le> 1" by (simp_all add: pay_ratio_def)
  show "pay_ratio set0 nDays e = 1" if "pe_lop_days e = 0"
    using that assms(2,3) one by (simp add: pay_ratio_def)
qed

text \<open>
  Loss of pay takes a part down, never past zero and never up: with no negative days and the day
  base a double, the prorated part is between nothing and the full part, and a person who lost no
  day (or whose pattern says loss of pay does not apply) gets the full part to the paisa.
\<close>
theorem prorated_within_part:
  assumes "0 \<le> amount" "amount < 2 ^ 53" "0 \<le> pe_lop_days e" "0 < day_base nDays e" "fl (day_base nDays e) = day_base nDays e"
  shows "0 \<le> prorate (pay_ratio set0 nDays e) amount \<and> prorate (pay_ratio set0 nDays e) amount \<le> amount
    \<and> (pe_lop_days e = 0 \<or> pe_lop_basis e = ''none'' \<longrightarrow> prorate (pay_ratio set0 nDays e) amount = amount)"
proof -
  let ?r = "pay_ratio set0 nDays e"
  note b = pay_ratio_bounds [OF assms(3-5), of set0]
  note r = b(1,2)
  have full: "pe_lop_days e = 0 \<or> pe_lop_basis e = ''none'' \<Longrightarrow> ?r = 1"
    using b(3) pay_ratio_def [of set0 nDays e] by auto
  have "of_int amount * ?r \<le> of_int amount / 2 ^ 0" using mult_left_mono [OF r(2), of "of_int amount"] assms(1) by simp
  then have "fl (of_int amount * ?r) \<le> of_int amount / 2 ^ 0" by (rule fl_le_grid) (use assms(1,2) in auto)
  moreover have "0 \<le> fl (of_int amount * ?r)" using r(1) assms(1) by (simp add: fl_nonneg)
  moreover have "fl (of_int amount) = of_int amount" using fl_of_int [of amount] assms(1,2) by simp
  ultimately show ?thesis using full by (auto simp: prorate_def js_trunc_def floor_le_iff)
qed

subsection \<open>Advances\<close>

text \<open>The books of the advances: nothing negative is recorded, and no loan is over-recovered.\<close>

definition loans_ok :: "recoveries \<times> Loan list \<Rightarrow> bool" where
  "loans_ok st \<longleftrightarrow> list_all (\<lambda>x. 0 \<le> snd x) (fst st) \<and> distinct (map ln_id (snd st))
     \<and> list_all (\<lambda>l. taken (fst st) (ln_id l) \<le> ln_principal l \<and> 0 \<le> ln_instalment l) (snd st)"

lemma taken_simps [simp]: "taken [] l = 0" "taken ((k, n) # recs) l = (if fst k = l then n else 0) + taken recs l"
  by (cases k; simp add: taken_def)+

lemma taken_nonneg: "list_all (\<lambda>x. 0 \<le> snd x) recs \<Longrightarrow> 0 \<le> taken recs l"
  by (induction recs) auto

lemma upsert_nonneg: "list_all (\<lambda>x. 0 \<le> snd x) recs \<Longrightarrow> 0 \<le> n \<Longrightarrow> list_all (\<lambda>x. 0 \<le> snd x) (upsert k n recs)"
  by (induction recs) auto

lemma taken_upsert: "list_all (\<lambda>x. 0 \<le> snd x) recs \<Longrightarrow> taken (upsert k n recs) l \<le> taken recs l + (if fst k = l then n else 0)"
  by (induction recs) auto

lemma fold_upserts:
  assumes "list_all (\<lambda>x. 0 \<le> snd x) recs" "list_all (\<lambda>x. 0 \<le> snd x) takes"
  shows "list_all (\<lambda>x. 0 \<le> snd x) (fold (\<lambda>(l, n). upsert (ln_id l, p) n) takes recs)
    \<and> taken (fold (\<lambda>(l, n). upsert (ln_id l, p) n) takes recs) i \<le> taken recs i + (\<Sum>(l, n)\<leftarrow>takes. if ln_id l = i then n else 0)"
  using assms
proof (induction takes arbitrary: recs)
  case (Cons t takes)
  obtain l n where t: "t = (l, n)" by fastforce
  have "list_all (\<lambda>x. 0 \<le> snd x) (upsert (ln_id l, p) n recs)" using Cons.prems t by (simp add: upsert_nonneg)
  from Cons.IH [OF this] Cons.prems(2) taken_upsert [OF Cons.prems(1), of "(ln_id l, p)" n i] show ?case by (simp add: t)
qed simp

lemma sum_takes:
  assumes "distinct (map ln_id loans)" "l \<in> set loans"
  shows "(\<Sum>(k, n)\<leftarrow>map (\<lambda>k. (k, f k)) (filter P loans). if ln_id k = ln_id l then n else 0) = (if P l then f l else (0 :: int))"
  using assms
proof (induction loans)
  case (Cons k loans)
  have none: "(\<Sum>(j, n)\<leftarrow>map (\<lambda>k. (k, f k)) (filter P loans). if ln_id j = ln_id k then n else 0) = 0"
    if "ln_id k \<notin> ln_id ` set loans" using that by (induction loans) auto
  show ?case
  proof (cases "l = k")
    case True
    then show ?thesis using Cons.prems none by simp
  next
    case False
    then have "l \<in> set loans" "ln_id k \<noteq> ln_id l" using Cons.prems by auto
    then show ?thesis using Cons by simp
  qed
qed simp

lemma recover_ok:
  assumes "loans_ok st"
  shows "loans_ok (snd (recover p st))"
proof -
  obtain recs loans where st: "st = (recs, loans)" by fastforce
  let ?takes = "loan_takes recs p loans"
  define recs' where "recs' = fold (\<lambda>(l, n). upsert (ln_id l, p) n) ?takes recs"
  have ok: "list_all (\<lambda>x. 0 \<le> snd x) recs" "distinct (map ln_id loans)"
    "\<forall>l\<in>set loans. taken recs (ln_id l) \<le> ln_principal l \<and> 0 \<le> ln_instalment l"
    using assms by (simp_all add: loans_ok_def st list_all_iff)
  have nn: "list_all (\<lambda>x. 0 \<le> snd x) ?takes" using ok(3) by (auto simp: loan_takes_def list_all_iff)
  note F = fold_upserts [OF ok(1) nn, of p, folded recs'_def]
  have bound: "taken recs' (ln_id l) \<le> ln_principal l" if "l \<in> set loans" for l
  proof -
    have "(\<Sum>(k, n)\<leftarrow>?takes. if ln_id k = ln_id l then n else 0) \<le> ln_principal l - taken recs (ln_id l)"
      unfolding loan_takes_def sum_takes [OF ok(2) that] using ok(3) that by (auto simp: owing_def)
    with F [of "ln_id l"] show ?thesis by linarith
  qed
  define close where "close = (\<lambda>l :: Loan. if list_ex (\<lambda>(k, n). ln_id k = ln_id l \<and> owing recs k \<le> n) ?takes then l\<lparr>ln_status := ''closed''\<rparr> else l)"
  have c: "ln_id (close l) = ln_id l" "ln_principal (close l) = ln_principal l" "ln_instalment (close l) = ln_instalment l" for l
    by (simp_all add: close_def)
  have "snd (recover p st) = (recs', map close loans)" by (simp add: recover_def st recs'_def close_def Let_def)
  then show ?thesis using F ok bound by (simp add: loans_ok_def list_all_iff c comp_def)
qed

inductive loan_step :: "recoveries \<times> Loan list \<Rightarrow> recoveries \<times> Loan list \<Rightarrow> bool" where
  run: "loan_step st (snd (recover period st))"
| opened: "open_loan i amount instalment start = Some l \<Longrightarrow> i \<notin> ln_id ` set loans \<Longrightarrow> taken recs i = 0
    \<Longrightarrow> loan_step (recs, loans) (recs, loans @ [l])"

lemma loan_step_ok: "loan_step st st' \<Longrightarrow> loans_ok st \<Longrightarrow> loans_ok st'"
  by (induction rule: loan_step.induct) (auto simp: recover_ok, auto simp: loans_ok_def open_loan_def split: if_splits)


definition demo_loan :: Loan where
  "demo_loan = \<lparr>ln_id = ''L1'', ln_principal = 100000, ln_instalment = 60000, ln_start = 202604, ln_status = ''active''\<rparr>"

lemma demo_loan_run: "snd (recover 202604 ([], [demo_loan])) = ([((''L1'', 202604), 60000)], [demo_loan])"
  by code_simp


text \<open>
  Running a month a second time is not neutral for an advance: of 1,000 rupees at 600 a month the
  first run takes 600 and the second, over the same month, 400; the one row of the month then says
  400 while the loan is closed, so 600 rupees are never recovered.
\<close>
theorem rerun_loses_an_advance:
  "let first = recover 202604 ([], [demo_loan]); again = recover 202604 (snd first) in
    fst first = 60000 \<and> fst again = 40000 \<and> taken (fst (snd again)) ''L1'' = 40000
    \<and> map ln_status (snd (snd again)) = [''closed'']
    \<and> fst (recover 202605 (snd again)) = 0"
  by code_simp

subsection \<open>The two persons behind a month\<close>

text \<open>What an approval stands for, and a publication.\<close>

definition month_ok :: "Month \<Rightarrow> bool" where
  "month_ok m \<longleftrightarrow>
     ((pm_approval m = Some ''pending'' \<or> pm_approval m = Some ''approved'') \<longrightarrow>
        pm_exists m \<and> (pm_status m = ''locked'' \<or> pm_status m = ''paid'') \<and> pm_submitted_by m \<noteq> None)
   \<and> (pm_approval m = Some ''approved'' \<longrightarrow> pm_approved_slips m = pm_slips m \<and> pm_approved_by m \<noteq> None \<and> pm_approved_by m \<noteq> pm_submitted_by m)
   \<and> (pm_published m \<longrightarrow> pm_approval m = Some ''approved'')"

text \<open>Without an approval, asked or given, there is nothing to keep but that nothing is published.\<close>

definition unapproved :: "Month \<Rightarrow> bool" where
  "unapproved m \<longleftrightarrow> pm_approval m \<noteq> Some ''pending'' \<and> pm_approval m \<noteq> Some ''approved'' \<and> \<not> pm_published m"

lemma month_ok_unapproved: "unapproved m \<Longrightarrow> month_ok m"
  by (simp add: unapproved_def month_ok_def)

lemma unapproved_when_open:
  assumes "month_ok m" "\<not> pm_exists m \<or> (pm_status m \<noteq> ''locked'' \<and> pm_status m \<noteq> ''paid'')"
  shows "unapproved m"
  using assms unfolding month_ok_def unapproved_def by blast

lemma unapproved_cong: "pm_approval m = pm_approval m' \<Longrightarrow> pm_published m = pm_published m' \<Longrightarrow> unapproved m \<Longrightarrow> unapproved m'"
  by (simp add: unapproved_def)

lemma run_keeps:
  assumes "runPayroll user period_open m = (m', done0)" "month_ok m"
  shows "month_ok m'"
proof (cases "period_open \<and> pm_exists m \<and> pm_status m \<noteq> ''locked'' \<and> pm_status m \<noteq> ''paid''")
  case True
  with assms(2) have "unapproved m" by (intro unapproved_when_open) simp_all
  moreover have "pm_approval m = pm_approval m'" "pm_published m = pm_published m'"
    using assms(1) True unfolding runPayroll_def Let_def by (auto split: if_split_asm)
  ultimately show ?thesis using unapproved_cong month_ok_unapproved by blast
next
  case False
  then consider "m' = m" | "m' = m\<lparr>pm_run_by := Some user\<rparr>" | "unapproved m'"
    using assms(1) unfolding runPayroll_def Let_def unapproved_def no_month_def by (auto split: if_split_asm)
  then show ?thesis using assms(2) month_ok_unapproved by cases (simp_all add: month_ok_def)
qed

lemma state_keeps:
  assumes "setPayrollState to0 m = Some m'" "month_ok m"
  shows "month_ok m'"
proof -
  obtain from0 where f: "state_from to0 = Some from0" using assms(1) by (auto simp: setPayrollState_def split: option.splits)
  have c: "pm_exists m" "pm_status m \<in> set from0" "to0 = ''published'' \<Longrightarrow> pm_approval m = Some ''approved''"
    using assms(1) unfolding setPayrollState_def f option.case by (auto split: if_split_asm)
  define m1 where "m1 = m\<lparr>pm_status := (if to0 = ''published'' then ''paid'' else to0),
    pm_published := (if to0 = ''published'' then True else if (if to0 = ''published'' then ''paid'' else to0) = ''draft'' then False else pm_published m),
    pm_file_drawn := (if (if to0 = ''published'' then ''paid'' else to0) = ''draft'' then False else pm_file_drawn m)\<rparr>"
  have m': "m' = (if to0 = ''draft'' then clearApproval m1 else m1)"
    using assms(1) c unfolding setPayrollState_def f option.case Let_def m1_def [symmetric] by (simp split: if_split_asm)
  have to0: "to0 \<in> {''locked'', ''paid'', ''published'', ''draft''}" using f by (auto simp: state_from_def split: if_split_asm)
  show ?thesis
  proof (cases "to0 = ''draft''")
    case True
    then have "unapproved m'" by (simp add: m' m1_def unapproved_def clearApproval_def)
    then show ?thesis by (rule month_ok_unapproved)
  next
    case False
    then have "pm_status m' = ''locked'' \<or> pm_status m' = ''paid''" using to0 by (auto simp: m' m1_def)
    then show ?thesis using assms(2) c False by (auto simp: m' m1_def month_ok_def)
  qed
qed

lemma submit_keeps: "submitPayroll user m = Some m' \<Longrightarrow> month_ok m \<Longrightarrow> month_ok m'"
  by (auto simp: submitPayroll_def month_ok_def split: if_splits)

lemma decide_keeps: "decidePayroll user admin decision note m = Some m' \<Longrightarrow> month_ok m \<Longrightarrow> month_ok m'"
  by (auto simp: decidePayroll_def month_ok_def split: if_splits)

lemma adjust_keeps:
  assumes "adjustMonth m = Some m'" "month_ok m"
  shows "month_ok m'"
proof (cases "pm_exists m")
  case True
  then have "unapproved m" using assms by (intro unapproved_when_open) (auto simp: adjustMonth_def split: if_split_asm)
  moreover have "m' = m\<lparr>pm_slips := pm_slips m + 1\<rparr>" using assms(1) True by (simp add: adjustMonth_def split: if_split_asm)
  ultimately show ?thesis by (intro month_ok_unapproved) (simp add: unapproved_def)
next
  case False
  then show ?thesis using assms by (simp add: adjustMonth_def)
qed

lemma draw_keeps: "month_ok m \<Longrightarrow> month_ok (drawBankFile m)"
  unfolding drawBankFile_def month_ok_def by auto

lemma month_step_ok: "month_step m m' \<Longrightarrow> month_ok m \<Longrightarrow> month_ok m'"
  by (induction rule: month_step.induct)
    (blast intro: run_keeps state_keeps submit_keeps decide_keeps adjust_keeps draw_keeps)+


text \<open>A month run by A, locked, submitted by B, approved by C and published.\<close>

definition demo_months :: "Month list" where
  "demo_months = (let m1 = fst (runPayroll ''A'' True no_month); m2 = the (setPayrollState ''locked'' m1); m3 = the (submitPayroll ''B'' m2);
     m4 = the (decidePayroll ''C'' True ''approved'' '''' m3); m5 = the (setPayrollState ''published'' m4) in [m1, m2, m3, m4, m5])"

lemma demo_months_steps:
  "runPayroll ''A'' True no_month = (demo_months ! 0, True)" "setPayrollState ''locked'' (demo_months ! 0) = Some (demo_months ! 1)"
  "submitPayroll ''B'' (demo_months ! 1) = Some (demo_months ! 2)"
  "decidePayroll ''C'' True ''approved'' '''' (demo_months ! 2) = Some (demo_months ! 3)"
  "setPayrollState ''published'' (demo_months ! 3) = Some (demo_months ! 4)" "pm_published (demo_months ! 4)"
  by code_simp+


text \<open>
  The person who worked a month out cannot approve it, until anyone presses Run on the locked
  month: that run is refused, yet the row already names the second person as having run it, and the
  first may now approve payslips nobody but themselves has computed.
\<close>
theorem refused_run_lets_the_maker_approve:
  "let m = demo_months ! 2; (again, went) = runPayroll ''D'' True m in
    decidePayroll ''A'' True ''approved'' '''' m = None \<and> \<not> went \<and> pm_slips again = pm_slips m
    \<and> map_option pm_approval (decidePayroll ''A'' True ''approved'' '''' again) = Some (Some ''approved'')"
  by code_simp

subsection \<open>Income tax\<close>

text \<open>Slabs in order: each ends above the one before, the open one last.\<close>

fun slabs_ok :: "int \<Rightarrow> TaxSlab list \<Rightarrow> bool" where
  "slabs_ok floor0 [] = True"
| "slabs_ok floor0 (sl # sls) = (0 \<le> tx_percent sl \<and> (tx_upTo sl = 0 \<or> floor0 < tx_upTo sl \<and> slabs_ok (tx_upTo sl) sls))"

lemma slab_loop_ge: "slabs_ok floor0 sls \<Longrightarrow> tax \<le> slab_loop income tax floor0 sls"
proof (induction sls arbitrary: tax floor0)
  case (Cons sl sls)
  show ?case
  proof (cases "income \<le> floor0")
    case False
    let ?top = "if tx_upTo sl = 0 \<or> income < tx_upTo sl then income else tx_upTo sl"
    have "0 \<le> pct (?top - floor0) (tx_percent sl)" using Cons.prems False by (intro pct_nonneg) auto
    then show ?thesis using Cons.IH [of "tx_upTo sl" "tax + pct (?top - floor0) (tx_percent sl)"] Cons.prems False
      by (auto simp: Let_def)
  qed simp
qed simp

lemma slab_loop_mono:
  "slabs_ok floor0 sls \<Longrightarrow> income \<le> income' \<Longrightarrow> tax \<le> tax' \<Longrightarrow> slab_loop income tax floor0 sls \<le> slab_loop income' tax' floor0 sls"
proof (induction sls arbitrary: tax tax' floor0)
  case (Cons sl sls)
  show ?case
  proof (cases "income \<le> floor0")
    case True
    then show ?thesis using slab_loop_ge [OF Cons.prems(1), of tax' income'] Cons.prems(3) by simp
  next
    case False
    let ?top = "\<lambda>i. if tx_upTo sl = 0 \<or> i < tx_upTo sl then i else tx_upTo sl"
    let ?tax = "tax + pct (?top income - floor0) (tx_percent sl)" and ?tax' = "tax' + pct (?top income' - floor0) (tx_percent sl)"
    have "pct (?top income - floor0) (tx_percent sl) \<le> pct (?top income' - floor0) (tx_percent sl)"
      using Cons.prems by (intro pct_mono) auto
    then have t: "?tax \<le> ?tax'" using Cons.prems(3) by simp
    show ?thesis
    proof (cases "tx_upTo sl = 0")
      case True
      then show ?thesis using t False Cons.prems(2) by simp
    next
      case top: False
      have "slabs_ok (tx_upTo sl) sls" using Cons.prems(1) top by simp
      from Cons.IH [OF this Cons.prems(2) t] top False Cons.prems(2) show ?thesis by (simp add: Let_def)
    qed
  qed
qed simp

lemma code_slabs_ok: "slabs_ok 0 newRegimeSlabs" "slabs_ok 0 oldRegimeSlabs"
  by (simp_all add: newRegimeSlabs_def oldRegimeSlabs_def tslab_def)

text \<open>
  The tax on the slabs never falls as income rises and is never negative, under either regime,
  rounding included: each slab's share is rounded by itself.
\<close>
theorem slab_tax_monotone:
  assumes "income \<le> income'"
  shows "slabTax income newRegimeSlabs \<le> slabTax income' newRegimeSlabs \<and> slabTax income oldRegimeSlabs \<le> slabTax income' oldRegimeSlabs
    \<and> 0 \<le> slabTax income newRegimeSlabs \<and> 0 \<le> slabTax income oldRegimeSlabs"
  unfolding slabTax_def
  using slab_loop_mono [OF code_slabs_ok(1) assms order_refl] slab_loop_mono [OF code_slabs_ok(2) assms order_refl]
    slab_loop_ge [OF code_slabs_ok(1)] slab_loop_ge [OF code_slabs_ok(2)] by simp

lemma slab_tax_monotone_witness: "slabTax 30000000 newRegimeSlabs \<le> slabTax 90000000 newRegimeSlabs"
  using slab_tax_monotone [of 30000000 90000000] by simp

subsection \<open>Applied to one person\<close>

text \<open>Basic and DA, an HRA rule of 40 percent of Basic, PF on, two days lost of 31, an advance.\<close>

definition demo_settings :: PaySettings where
  "demo_settings = PayRules.extend DEFAULT_RULES
     \<lparr>ps_pf_enabled = True, ps_pf_employee_percent = 12, ps_pf_employer_percent = 12, ps_pf_wage_ceiling = 1500000, ps_eps_percent = 833/100,
      ps_pf_admin_percent = 1, ps_esi_enabled = True, ps_esi_employee_percent = 3/4, ps_esi_employer_percent = 13/4, ps_esi_wage_threshold = 2100000,
      ps_pt_enabled = False, ps_substitution_rate = 0, ps_pt_slabs = []\<rparr>"

definition demo_person :: Person where
  "demo_person = \<lparr>pe_ctc = 2000000, pe_lop_basis = ''salary'', pe_divisor = 0,
     pe_comps = [\<lparr>pc_code = ''BASIC'', pc_kind = ''earning'', pc_amount = 1000000\<rparr>, \<lparr>pc_code = ''DA'', pc_kind = ''earning'', pc_amount = 300000\<rparr>],
     pe_pf = None, pe_lop_days = 2, pe_expected_days = 0, pe_holidays = 0, pe_substitutions = 0, pe_loan_cut = 50000, pe_adj_earn = 12345, pe_adj_deduct = 0\<rparr>"

definition demo_rules :: "RuleComp list" where
  "demo_rules = [\<lparr>rc_code = ''HRA'', rc_kind = ''earning'', rc_is_percent = True, rc_percent_of = ''BASIC'', rc_default = 40\<rparr>]"

lemma demo_codes: "codes_ok (pe_comps demo_person) demo_rules"
  by (simp add: codes_ok_def demo_person_def demo_rules_def kept_def reserved_def)

lemma payslip_adds_up_witness:
  "total (sp_breakup (payslip demo_settings demo_rules 31 7 demo_person)) = net_pay (payslip demo_settings demo_rules 31 7 demo_person)"
  using payslip_adds_up [OF demo_codes] by simp

lemma demo_payslip:
  "sp_breakup (payslip demo_settings demo_rules 31 7 demo_person) =
    [(''BASIC'', 935483), (''DA'', 280645), (''HRA'', 374193), (''PF'', - 145935), (''ESI'', - 11900),
     (''PF_EMPLOYER'', 44632), (''EPS'', 101303), (''ESI_EMPLOYER'', 51700), (''ADVANCE'', - 50000), (''ADJ_ADD'', 12345)]"
  by code_simp


lemma statutory_within_bases_witness: "st_pf_wage (computeStatutory demo_settings 1234567 1500000 7) \<le> 1500000"
proof -
  have s: "ps_pf_enabled demo_settings" "ps_pf_employee_percent demo_settings = 12" "ps_pf_employer_percent demo_settings = 12"
    "ps_eps_percent demo_settings = 833/100" "ps_pf_wage_ceiling demo_settings = 1500000"
    by (simp_all add: demo_settings_def PayRules.defs)
  show ?thesis using statutory_within_bases [OF s(1), of 1234567 1500000 7] by (simp add: s Let_def)
qed

lemma prorated_within_part_witness: "prorate (pay_ratio demo_settings 31 demo_person) 1000000 \<le> 1000000"
proof -
  have "day_base 31 demo_person = of_int 31" "pe_lop_days demo_person = 2" by (simp_all add: day_base_def demo_person_def)
  moreover have "fl (of_int 31) = of_int 31" by (rule fl_of_int) simp
  ultimately show ?thesis using prorated_within_part [of 1000000 demo_person 31 demo_settings] by simp
qed

end
