(* ===== verification/FineEngine.thy ===== *)
theory FineEngine
  imports Double Money Ledger
begin

text \<open>
  Late fines and versions of a fee structure, \<open>worker/src/routes/fees/fee_engine.ts\<close>: which rule
  covers an invoice, what it charges on a day, the charges written and waived, and the drafts of a
  structure that are edited, activated and superseded.  Amounts are whole paise; a day is the
  string \<open>YYYY-MM-DD\<close>.
\<close>

subsection \<open>Rules and what they look at\<close>

definition ZERO_UUID :: string where "ZERO_UUID = ''00000000-0000-0000-0000-000000000000''"

text \<open>\<open>None\<close> stands for null, undefined, an empty string and what is not a number.\<close>

definition basisPoints :: "rat option \<Rightarrow> int" where
  "basisPoints percent = (case percent of None \<Rightarrow> 0 | Some n \<Rightarrow> \<lfloor>fl (fl (n * 100) + 1/2)\<rfloor>)"

record FineRule =
  fr_id :: string
  fr_name :: string
  fr_campusId :: "string option"
  fr_structureId :: "string option"
  fr_feeHeadId :: "string option"
  fr_kind :: string
  fr_graceDays :: int
  fr_amountPaise :: int
  fr_percentBP :: int
  fr_capPaise :: "int option"
  fr_compound :: string
  fr_applyMode :: string
  fr_exemptKinds :: "string list"
  fr_priority :: int
  fr_active :: bool

record FineSubject =
  fs_invoiceId :: string
  fs_studentId :: string
  fs_campusId :: string
  fs_structureId :: "string option"
  fs_dueOn :: "string option"
  fs_balancePaise :: int
  fs_headAmounts :: "(string \<times> int) list"
  fs_concessionKinds :: "string list"
  fs_alreadyFinedPaise :: int

record FineStep =
  st_period :: int
  st_basis :: int
  st_amount :: int
  st_note :: string

record FineAssessment =
  fa_invoice_id :: string
  fa_student_id :: string
  fa_rule_id :: "string option"
  fa_rule_name :: "string option"
  fa_days_overdue :: int
  fa_basis :: int
  fa_amount :: int
  fa_delta :: int
  fa_periods :: int
  fa_was_capped :: bool
  fa_exempt :: bool
  fa_reason :: string
  fa_steps :: "FineStep list"

definition plural :: "int \<Rightarrow> string \<Rightarrow> string" where
  "plural n noun = js_int n @ '' '' @ noun @ (if n \<noteq> 1 then ''s'' else '''')"

definition humanKind :: "string \<Rightarrow> string" where
  "humanKind k = (if k = ''staff_ward'' then ''staff ward'' else if k = ''rte'' then ''RTE'' else k)"

definition periodsFor :: "string \<Rightarrow> int \<Rightarrow> int" where
  "periodsFor compound chargeableDays =
    (let len = (if compound = ''weekly'' then 7 else if compound = ''monthly'' then 30 else 0)
     in if len = 0 then 1 else max 1 ((chargeableDays + len - 1) div len))"

definition percentOf :: "int \<Rightarrow> int \<Rightarrow> int" where
  "percentOf basis bp = (if bp \<le> 0 \<or> basis \<le> 0 then 0 else \<lfloor>fl (of_int (basis * bp + 5000) / 10000)\<rfloor>)"

text \<open>A rule covers an invoice when every target it names is the invoice's; the more it names the better.\<close>

definition covers :: "FineSubject \<Rightarrow> FineRule \<Rightarrow> bool" where
  "covers s r \<longleftrightarrow> (fr_campusId r = None \<or> fr_campusId r = Some (fs_campusId s))
     \<and> (fr_structureId r = None \<or> (fs_structureId s \<noteq> None \<and> fr_structureId r = fs_structureId s))
     \<and> (case fr_feeHeadId r of None \<Rightarrow> True | Some h \<Rightarrow> map_of (fs_headAmounts s) h \<noteq> None)"

definition rule_score :: "FineRule \<Rightarrow> int" where
  "rule_score r = (if fr_feeHeadId r \<noteq> None then 4 else 0) + (if fr_structureId r \<noteq> None then 2 else 0) + (if fr_campusId r \<noteq> None then 1 else 0)"

definition rule_key :: "FineRule \<Rightarrow> int \<times> int \<times> string" where
  "rule_key r = (- rule_score r, fr_priority r, fr_name r)"

definition bestRuleFor :: "FineSubject \<Rightarrow> FineRule list \<Rightarrow> FineRule option" where
  "bestRuleFor s rules = (case sort_key rule_key (filter (covers s) rules) of [] \<Rightarrow> None | r # _ \<Rightarrow> Some r)"

subsection \<open>One assessment\<close>

text \<open>\<open>daysBetween\<close> of \<open>common.ts\<close>, on dates the database and \<open>isDate\<close> have accepted.\<close>

definition date_day :: "string \<Rightarrow> int" where
  "date_day s = days_of_civil (slice_number 0 4 s) (slice_number 5 7 s) (slice_number 8 10 s)"

definition daysBetween :: "string \<Rightarrow> string \<Rightarrow> int" where
  "daysBetween a b = date_day b - date_day a"

definition flat_steps :: "nat \<Rightarrow> int \<Rightarrow> int \<Rightarrow> FineStep list" where
  "flat_steps n basis amount = map (\<lambda>i. \<lparr>st_period = int i, st_basis = basis, st_amount = amount, st_note = ''flat charge''\<rparr>) [1..<Suc n]"

text \<open>\<open>percent_steps i n running bp\<close>: the periods \<open>i\<close> to \<open>i + n - 1\<close>, each on what the last one left.\<close>

fun percent_steps :: "nat \<Rightarrow> nat \<Rightarrow> int \<Rightarrow> int \<Rightarrow> FineStep list" where
  "percent_steps i 0 running bp = []"
| "percent_steps i (Suc n) running bp =
    (let step = percentOf running bp in
     \<lparr>st_period = int i, st_basis = running, st_amount = step, st_note = ''percentage of the outstanding basis''\<rparr>
     # percent_steps (Suc i) n (running + step) bp)"

definition blank_assessment :: "FineSubject \<Rightarrow> FineRule \<Rightarrow> FineAssessment" where
  "blank_assessment s r = \<lparr>fa_invoice_id = fs_invoiceId s, fa_student_id = fs_studentId s,
     fa_rule_id = (if fr_id r = ZERO_UUID \<or> fr_id r = '''' then None else Some (fr_id r)),
     fa_rule_name = (if fr_name r = '''' then None else Some (fr_name r)),
     fa_days_overdue = 0, fa_basis = 0, fa_amount = 0, fa_delta = 0, fa_periods = 1, fa_was_capped = False, fa_exempt = False, fa_reason = '''', fa_steps = []\<rparr>"

text \<open>The steps and the words of the three kinds of rule; \<open>None\<close> for a kind the engine does not know.\<close>

definition charge_steps :: "FineRule \<Rightarrow> int \<Rightarrow> int \<Rightarrow> (int \<times> FineStep list \<times> string) option" where
  "charge_steps r basis chargeable =
    (let periods = periodsFor (fr_compound r) chargeable; past = plural chargeable ''day'' @ '' past grace'' in
     if fr_kind r = ''fixed'' then
       Some (periods, flat_steps (nat periods) basis (fr_amountPaise r),
         past @ '', flat charge'' @ (if 1 < periods then '' levied '' @ plural periods ''time'' @ '' ('' @ fr_compound r @ '')'' else ''''))
     else if fr_kind r = ''per_day'' then
       Some (1, [\<lparr>st_period = 1, st_basis = basis, st_amount = fr_amountPaise r * chargeable, st_note = past\<rparr>], past @ '' at a daily rate'')
     else if fr_kind r = ''percent'' then
       Some (periods, percent_steps 1 (nat periods) basis (fr_percentBP r),
         past @ '', charged as a percentage'' @ (if 1 < periods then '', compounded '' @ fr_compound r @ '' over '' @ plural periods ''period'' else ''''))
     else None)"

definition capped :: "FineSubject \<Rightarrow> FineRule \<Rightarrow> FineAssessment \<Rightarrow> FineAssessment" where
  "capped s r a =
    (let a1 = (case fr_capPaise r of
           Some cap \<Rightarrow> if cap < fa_amount a then a\<lparr>fa_amount := cap, fa_was_capped := True, fa_reason := fa_reason a @ '', capped''\<rparr> else a
         | None \<Rightarrow> a);
         a2 = (if fa_amount a1 < 0 then a1\<lparr>fa_amount := 0\<rparr> else a1)
     in a2\<lparr>fa_delta := max 0 (fa_amount a2 - fs_alreadyFinedPaise s)\<rparr>)"

definition assessFine :: "FineSubject \<Rightarrow> FineRule \<Rightarrow> string \<Rightarrow> FineAssessment" where
  "assessFine s r asOf =
    (let a = blank_assessment s r in
     case find (\<lambda>h. h \<in> set (fr_exemptKinds r)) (fs_concessionKinds s) of
       Some k \<Rightarrow> a\<lparr>fa_exempt := True, fa_reason := ''exempt: holds a '' @ humanKind k @ '' concession''\<rparr>
     | None \<Rightarrow>
     case fs_dueOn s of
       None \<Rightarrow> a\<lparr>fa_reason := ''no due date on the invoice, so nothing is overdue''\<rparr>
     | Some due \<Rightarrow>
       if fs_balancePaise s \<le> 0 then a\<lparr>fa_reason := ''nothing outstanding''\<rparr>
       else let days = daysBetween due asOf; a1 = a\<lparr>fa_days_overdue := days\<rparr> in
       if days \<le> 0 then a1\<lparr>fa_reason := ''not yet due''\<rparr>
       else if days \<le> fr_graceDays r then a1\<lparr>fa_reason := ''within the '' @ plural (fr_graceDays r) ''day'' @ '' grace period''\<rparr>
       else let chargeable = days - fr_graceDays r;
                basis = (case fr_feeHeadId r of
                    Some h \<Rightarrow> (case map_of (fs_headAmounts s) h of Some n \<Rightarrow> n | None \<Rightarrow> 0)
                  | None \<Rightarrow> fs_balancePaise s);
                a2 = a1\<lparr>fa_basis := basis\<rparr> in
       if basis \<le> 0 then a2\<lparr>fa_reason := ''the head this rule covers is not charged on this invoice''\<rparr>
       else case charge_steps r basis chargeable of
         None \<Rightarrow> a2\<lparr>fa_periods := periodsFor (fr_compound r) chargeable, fa_reason := ''rule kind '' @ fr_kind r @ '' is not one this engine knows''\<rparr>
       | Some (periods, steps, reason) \<Rightarrow>
           capped s r (a2\<lparr>fa_periods := periods, fa_steps := steps, fa_amount := (\<Sum>x\<leftarrow>steps. st_amount x), fa_reason := reason\<rparr>))"

definition no_rule :: "FineSubject \<Rightarrow> FineAssessment" where
  "no_rule s = \<lparr>fa_invoice_id = fs_invoiceId s, fa_student_id = fs_studentId s, fa_rule_id = None, fa_rule_name = None,
     fa_days_overdue = 0, fa_basis = 0, fa_amount = 0, fa_delta = 0, fa_periods = 0, fa_was_capped = False, fa_exempt = False,
     fa_reason = ''no fine rule covers this invoice'', fa_steps = []\<rparr>"

definition evaluateFines :: "FineSubject list \<Rightarrow> FineRule list \<Rightarrow> string \<Rightarrow> FineAssessment list" where
  "evaluateFines subjects rules asOf =
    map (\<lambda>s. case bestRuleFor s rules of None \<Rightarrow> no_rule s | Some r \<Rightarrow> assessFine s r asOf) subjects"

subsection \<open>The books of the engine\<close>

record Bill = Invoice +
  bl_campus :: string
  bl_year :: string
  bl_structure :: "string option"
  bl_version :: "string option"

record Charge =
  fc_id :: string
  fc_invoice :: string
  fc_rule :: "string option"
  fc_as_of :: string
  fc_amount :: int
  fc_status :: string

record FineBooks =
  fb_bills :: "Bill list"
  fb_charges :: "Charge list"
  fb_rules :: "FineRule list"
  fb_heads :: "string \<Rightarrow> (string \<times> int) list"
  fb_concessions :: "(string \<times> string) list"
  fb_allocs :: "Alloc list"

text \<open>\<open>loadFineSubjects\<close>: \<open>visible\<close> says which students the person asking reaches; the concessions are the approved ones.\<close>

definition subject_of :: "FineBooks \<Rightarrow> Bill \<Rightarrow> FineSubject" where
  "subject_of b v = \<lparr>fs_invoiceId = iv_id v, fs_studentId = iv_student v, fs_campusId = bl_campus v, fs_structureId = bl_structure v,
     fs_dueOn = iv_due_on v, fs_balancePaise = iv_net v - iv_paid v,
     fs_headAmounts = (case bl_version v of Some n \<Rightarrow> fb_heads b n | None \<Rightarrow> []),
     fs_concessionKinds = map snd (filter (\<lambda>x. fst x = iv_student v) (fb_concessions b)), fs_alreadyFinedPaise = 0\<rparr>"

definition fineable :: "string \<Rightarrow> (string \<Rightarrow> bool) \<Rightarrow> string list option \<Rightarrow> Bill \<Rightarrow> bool" where
  "fineable asOf visible only v \<longleftrightarrow> owed v \<and> iv_paid v < iv_net v \<and> (case iv_due_on v of Some d \<Rightarrow> d < asOf | None \<Rightarrow> False)
     \<and> (case only of Some ids \<Rightarrow> iv_id v \<in> set ids | None \<Rightarrow> True) \<and> visible (iv_student v)"

definition loadFineSubjects :: "string \<Rightarrow> (string \<Rightarrow> bool) \<Rightarrow> string list option \<Rightarrow> FineBooks \<Rightarrow> FineSubject list" where
  "loadFineSubjects asOf visible only b =
    map (subject_of b) (sort_key (\<lambda>v. (case iv_due_on v of Some d \<Rightarrow> d | None \<Rightarrow> '''', iv_no v)) (filter (fineable asOf visible only) (fb_bills b)))"

definition rule_of_charge :: "Charge \<Rightarrow> string" where
  "rule_of_charge c = (case fc_rule c of Some r \<Rightarrow> r | None \<Rightarrow> ZERO_UUID)"

definition already :: "Charge list \<Rightarrow> string \<Rightarrow> string \<Rightarrow> int" where
  "already cs i r = (\<Sum>c\<leftarrow>cs. if fc_status c = ''applied'' \<and> fc_invoice c = i \<and> rule_of_charge c = r then fc_amount c else 0)"

definition loadFineRuleSet :: "string option \<Rightarrow> FineBooks \<Rightarrow> FineRule list" where
  "loadFineRuleSet onlyRule b = filter (\<lambda>r. fr_active r \<and> (onlyRule = None \<or> onlyRule = Some (fr_id r))) (fb_rules b)"

definition with_already :: "FineBooks \<Rightarrow> FineRule list \<Rightarrow> FineSubject \<Rightarrow> FineSubject" where
  "with_already b rules s =
    (case bestRuleFor s rules of Some r \<Rightarrow> s\<lparr>fs_alreadyFinedPaise := already (fb_charges b) (fs_invoiceId s) (fr_id r)\<rparr> | None \<Rightarrow> s)"

definition assessDues :: "string \<Rightarrow> (string \<Rightarrow> bool) \<Rightarrow> string option \<Rightarrow> string list option \<Rightarrow> FineBooks \<Rightarrow> FineAssessment list" where
  "assessDues asOf visible onlyRule only b =
    (let rules = loadFineRuleSet onlyRule b
     in evaluateFines (map (with_already b rules) (loadFineSubjects asOf visible only b)) rules asOf)"

subsection \<open>Charging and waiving\<close>

definition finesPreview :: "string \<Rightarrow> (string \<Rightarrow> bool) \<Rightarrow> string option \<Rightarrow> FineBooks \<Rightarrow> nat \<times> nat \<times> nat \<times> int" where
  "finesPreview asOf visible onlyRule b =
    (let out = assessDues asOf visible onlyRule None b; due = filter (\<lambda>a. \<not> fa_exempt a \<and> 0 < fa_delta a) out
     in (length out, length due, length (filter fa_exempt out), \<Sum>a\<leftarrow>due. fa_delta a))"

text \<open>
  The \<open>UPDATE\<close> of an invoice's fine with \<open>NET_SQL\<close> in the same statement, and \<open>syncInvoice\<close>.  SQLite
  reads every right-hand side of an \<open>UPDATE\<close> from the row as it was, so the net is the one of the old fine.
\<close>

definition fine_bill :: "string \<Rightarrow> (int \<Rightarrow> int) \<Rightarrow> Bill list \<Rightarrow> Bill list" where
  "fine_bill i f vs = map (\<lambda>v. if iv_id v = i then v\<lparr>iv_fine := f (iv_fine v), iv_net := iv_gross v - iv_discount v + iv_fine v\<rparr> else v) vs"

definition sync_bill :: "string \<Rightarrow> string \<Rightarrow> FineBooks \<Rightarrow> FineBooks" where
  "sync_bill t i b = b\<lparr>fb_bills := map (\<lambda>v. if iv_id v = i
     then let w = v\<lparr>iv_paid := paid_of (fb_allocs b) i\<rparr> in w\<lparr>iv_status := invoice_status t w\<rparr> else v) (fb_bills b)\<rparr>"

text \<open>The student's last instalment of the invoice's year: no due date sorts last, then the latest date and number.\<close>

definition last_instalment :: "Bill list \<Rightarrow> string \<Rightarrow> string option" where
  "last_instalment vs i =
    (case find (\<lambda>v. iv_id v = i) vs of None \<Rightarrow> None
     | Some v \<Rightarrow>
        case rev (sort_key (\<lambda>w. (iv_due_on w \<noteq> None, case iv_due_on w of Some d \<Rightarrow> d | None \<Rightarrow> '''', iv_no w))
            (filter (\<lambda>w. iv_student w = iv_student v \<and> bl_year w = bl_year v \<and> iv_status w \<noteq> ''cancelled'') vs)) of
          [] \<Rightarrow> None | w # _ \<Rightarrow> Some (iv_id w))"

definition chargeKey :: "string \<Rightarrow> string \<Rightarrow> string" where
  "chargeKey i r = bar i r"

definition today_keys :: "string list \<Rightarrow> string \<Rightarrow> Charge list \<Rightarrow> string list" where
  "today_keys ids asOf cs =
    map (\<lambda>c. chargeKey (fc_invoice c) (rule_of_charge c)) (filter (\<lambda>c. fc_invoice c \<in> set ids \<and> fc_as_of c = asOf \<and> fc_status c = ''applied'') cs)"

text \<open>Which assessments become charges, and on which invoice the money goes.\<close>

definition to_charge :: "string list \<Rightarrow> string \<Rightarrow> FineBooks \<Rightarrow> FineAssessment \<Rightarrow> string option" where
  "to_charge ids asOf b a =
    (if fa_delta a \<le> 0 then None
     else case fa_rule_id a of None \<Rightarrow> None
     | Some r \<Rightarrow> if chargeKey (fa_invoice_id a) r \<in> set (today_keys ids asOf (fb_charges b)) then None else Some r)"

definition charge_on :: "FineRule list \<Rightarrow> Bill list \<Rightarrow> string \<Rightarrow> string \<Rightarrow> string" where
  "charge_on rules vs r i =
    (if r \<in> fr_id ` set (filter (\<lambda>x. fr_applyMode x = ''final_term'') rules)
     then case last_instalment vs i of Some j \<Rightarrow> j | None \<Rightarrow> i else i)"

text \<open>One round of the loop; the reads of \<open>charge_on\<close> are of the books before the batch, \<open>b0\<close>.\<close>

definition apply_one :: "string list \<Rightarrow> string \<Rightarrow> FineRule list \<Rightarrow> FineBooks \<Rightarrow> string \<Rightarrow> FineAssessment
    \<Rightarrow> FineBooks \<times> nat \<times> int \<times> string list \<Rightarrow> FineBooks \<times> nat \<times> int \<times> string list" where
  "apply_one ids asOf rules b0 cid a st =
    (case to_charge ids asOf b0 a of None \<Rightarrow> st
     | Some r \<Rightarrow>
        let (b, applied, total, touched) = st; on = charge_on rules (fb_bills b0) r (fa_invoice_id a)
        in (b\<lparr>fb_charges := fb_charges b @ [\<lparr>fc_id = cid, fc_invoice = fa_invoice_id a, fc_rule = Some r, fc_as_of = asOf,
               fc_amount = fa_delta a, fc_status = ''applied''\<rparr>],
              fb_bills := fine_bill on (\<lambda>n. n + fa_delta a) (fb_bills b)\<rparr>,
            applied + 1, total + fa_delta a, touched @ [on]))"

text \<open>\<open>POST fines/apply\<close>: \<open>cids\<close> are the identifiers of the charges to come; \<open>None\<close> when no invoice is named.\<close>

definition applyFines :: "string \<Rightarrow> string \<Rightarrow> (string \<Rightarrow> bool) \<Rightarrow> string list \<Rightarrow> string option \<Rightarrow> (nat \<Rightarrow> string) \<Rightarrow> FineBooks
    \<Rightarrow> (FineBooks \<times> nat \<times> int) option" where
  "applyFines t asOf visible ids onlyRule cids b =
    (if ids = [] then None
     else let out = assessDues asOf visible onlyRule (Some ids) b; rules = loadFineRuleSet onlyRule b;
              (b1, applied, total, touched) = fold (\<lambda>(k, a). apply_one ids asOf rules b (cids k) a) (enumerate 0 out) (b, 0, 0, [])
          in Some (fold (sync_bill t) touched b1, applied, total))"

text \<open>\<open>POST fines/charges/:id/waive\<close>: \<open>None\<close> is a refusal.\<close>

definition waiveFine :: "string \<Rightarrow> string \<Rightarrow> string \<Rightarrow> FineBooks \<Rightarrow> FineBooks option" where
  "waiveFine t reason cid b =
    (if js_trim reason = '''' then None
     else case find (\<lambda>c. fc_id c = cid \<and> fc_status c = ''applied'') (fb_charges b) of None \<Rightarrow> None
     | Some c \<Rightarrow> Some (sync_bill t (fc_invoice c)
         (b\<lparr>fb_charges := map (\<lambda>x. if fc_id x = cid \<and> fc_status x = ''applied'' then x\<lparr>fc_status := ''waived''\<rparr> else x) (fb_charges b),
            fb_bills := fine_bill (fc_invoice c) (\<lambda>n. max (n - fc_amount c) 0) (fb_bills b)\<rparr>)))"

subsection \<open>The rules the school keeps\<close>

text \<open>What is refused of a new rule; \<open>percent\<close> is the percentage sent.\<close>

definition rule_ok :: "FineRule \<Rightarrow> rat \<Rightarrow> bool" where
  "rule_ok r percent \<longleftrightarrow>
     js_trim (fr_name r) \<noteq> '''' \<and> fr_kind r \<in> {''fixed'', ''per_day'', ''percent''} \<and> 0 \<le> fr_graceDays r
     \<and> (fr_kind r = ''percent'' \<longrightarrow> 0 < percent \<and> percent \<le> 100)
     \<and> (fr_kind r \<noteq> ''percent'' \<longrightarrow> 0 < fr_amountPaise r)
     \<and> fr_compound r \<in> {''none'', ''weekly'', ''monthly''}
     \<and> (fr_kind r = ''per_day'' \<longrightarrow> fr_compound r = ''none'')
     \<and> (case fr_capPaise r of Some n \<Rightarrow> 0 \<le> n | None \<Rightarrow> True)
     \<and> set (fr_exemptKinds r) \<subseteq> {''scholarship'', ''sibling'', ''staff_ward'', ''rte'', ''merit'', ''other''}
     \<and> fr_applyMode r \<in> {''per_invoice'', ''final_term''}"

definition same_target :: "FineRule \<Rightarrow> FineRule \<Rightarrow> bool" where
  "same_target r q \<longleftrightarrow> fr_campusId r = fr_campusId q \<and> fr_structureId r = fr_structureId q \<and> fr_feeHeadId r = fr_feeHeadId q"

text \<open>
  \<open>POST fine-rules\<close>, the defaults of the request filled in; \<open>fresh\<close> is the new identifier,
  an empty \<open>fr_id\<close> asks for one.  The percentage is stored with two decimals.
\<close>

definition saveFineRule :: "string \<Rightarrow> FineRule \<Rightarrow> rat \<Rightarrow> FineBooks \<Rightarrow> FineBooks option" where
  "saveFineRule fresh r0 percent b =
    (let r = r0\<lparr>fr_name := js_trim (fr_name r0), fr_compound := (if fr_compound r0 = '''' then ''none'' else fr_compound r0),
           fr_priority := (if fr_priority r0 = 0 then 100 else fr_priority r0),
           fr_applyMode := (if js_trim (fr_applyMode r0) = '''' then ''per_invoice'' else js_trim (fr_applyMode r0)),
           fr_percentBP := (if fr_kind r0 = ''percent'' then basisPoints (Some (toFixed2 percent)) else basisPoints None)\<rparr>
     in if \<not> rule_ok r percent then None
        else if fr_active r \<and> list_ex (\<lambda>q. fr_active q \<and> same_target r q \<and> fr_id q \<noteq> (if fr_id r = '''' then ZERO_UUID else fr_id r)) (fb_rules b) then None
        else if fr_id r \<noteq> '''' then
          (if list_ex (\<lambda>q. fr_id q = fr_id r) (fb_rules b)
           then Some (b\<lparr>fb_rules := map (\<lambda>q. if fr_id q = fr_id r then r else q) (fb_rules b)\<rparr>) else None)
        else Some (b\<lparr>fb_rules := fb_rules b @ [r\<lparr>fr_id := fresh\<rparr>]\<rparr>))"

definition deleteFineRule :: "string \<Rightarrow> FineBooks \<Rightarrow> FineBooks option" where
  "deleteFineRule i b =
    (if list_ex (\<lambda>q. fr_id q = i) (fb_rules b)
     then Some (b\<lparr>fb_charges := map (\<lambda>c. if fc_rule c = Some i then c\<lparr>fc_rule := None\<rparr> else c) (fb_charges b),
            fb_rules := filter (\<lambda>q. fr_id q \<noteq> i) (fb_rules b)\<rparr>)
     else None)"

subsection \<open>Versions of a fee structure\<close>

record FeeLine =
  fl_head :: string
  fl_instalment :: int
  fl_amount :: int
  fl_due :: "string option"

record Version =
  vs_id :: string
  vs_structure :: string
  vs_no :: int
  vs_status :: string
  vs_effective_from :: string
  vs_effective_to :: "string option"
  vs_supersedes :: "string option"
  vs_lines :: "FeeLine list"

text \<open>The versions, the live lines of the structures, and how many invoices each version has raised.\<close>

record Versions =
  vb_versions :: "Version list"
  vb_structures :: "(string \<times> FeeLine list) list"
  vb_invoices :: "string \<Rightarrow> nat"

definition version :: "string \<Rightarrow> Versions \<Rightarrow> Version option" where
  "version i b = find (\<lambda>v. vs_id v = i) (vb_versions b)"

definition of_structure :: "string \<Rightarrow> Version list \<Rightarrow> Version list" where
  "of_structure s vs = filter (\<lambda>v. vs_structure v = s) vs"

text \<open>\<open>POST versions\<close>: \<open>copy\<close> is the version named to copy from.  \<open>None\<close> is a refusal.\<close>

definition createVersion :: "string \<Rightarrow> string \<Rightarrow> string option \<Rightarrow> string \<Rightarrow> Versions \<Rightarrow> Versions option" where
  "createVersion fresh s copy from0 b =
    (case map_of (vb_structures b) s of None \<Rightarrow> None
     | Some live \<Rightarrow>
        let vs = of_structure s (vb_versions b) in
        if list_ex (\<lambda>v. vs_status v = ''draft'') vs then None
        else let no = foldl max 0 (map vs_no vs) + 1;
                 supersedes = map_option vs_id (find (\<lambda>v. vs_status v = ''active'') vs);
                 copyFrom = (case copy of Some c \<Rightarrow> Some c | None \<Rightarrow> supersedes);
                 lines = (case copyFrom of None \<Rightarrow> live | Some c \<Rightarrow> (case version c b of Some v \<Rightarrow> vs_lines v | None \<Rightarrow> []))
             in Some (b\<lparr>vb_versions := vb_versions b @ [\<lparr>vs_id = fresh, vs_structure = s, vs_no = no, vs_status = ''draft'',
                  vs_effective_from = from0, vs_effective_to = None, vs_supersedes = supersedes, vs_lines = lines\<rparr>]\<rparr>))"

definition set_version :: "string \<Rightarrow> (Version \<Rightarrow> Version) \<Rightarrow> Version list \<Rightarrow> Version list" where
  "set_version i f vs = map (\<lambda>v. if vs_id v = i then f v else v) vs"

text \<open>\<open>PUT versions/:id/items\<close>: an instalment that is not a positive number is the first.\<close>

definition putItems :: "string \<Rightarrow> FeeLine list \<Rightarrow> Versions \<Rightarrow> Versions option" where
  "putItems i lines0 b =
    (let lines = map (\<lambda>l. if fl_instalment l \<le> 0 then l\<lparr>fl_instalment := 1\<rparr> else l) lines0 in
     if list_ex (\<lambda>l. fl_amount l < 0) lines then None
     else if \<not> distinct (map (\<lambda>l. (fl_head l, fl_instalment l)) lines) then None
     else case version i b of None \<Rightarrow> None
     | Some v \<Rightarrow> if vs_status v \<noteq> ''draft'' then None
        else Some (b\<lparr>vb_versions := set_version i (\<lambda>x. x\<lparr>vs_lines := lines\<rparr>) (vb_versions b)\<rparr>))"

definition addDays :: "string \<Rightarrow> int \<Rightarrow> string" where
  "addDays s n = ymd ((date_day s + n) * 86400000)"

definition activateVersion :: "string \<Rightarrow> Versions \<Rightarrow> Versions option" where
  "activateVersion i b =
    (case version i b of None \<Rightarrow> None
     | Some v \<Rightarrow>
        if vs_status v \<noteq> ''draft'' \<or> vs_lines v = [] then None
        else let dayBefore = addDays (vs_effective_from v) (- 1) in
             Some (b\<lparr>vb_versions := set_version i (\<lambda>x. x\<lparr>vs_status := ''active'', vs_effective_to := None\<rparr>)
               (map (\<lambda>x. if vs_structure x = vs_structure v \<and> vs_status x = ''active'' \<and> vs_id x \<noteq> i
                  then x\<lparr>vs_status := ''superseded'', vs_effective_to := Some (case vs_effective_to x of Some d \<Rightarrow> min d dayBefore | None \<Rightarrow> dayBefore)\<rparr>
                  else x) (vb_versions b))\<rparr>))"

definition discardVersion :: "string \<Rightarrow> Versions \<Rightarrow> Versions option" where
  "discardVersion i b =
    (case version i b of None \<Rightarrow> None
     | Some v \<Rightarrow>
        if vs_status v \<noteq> ''draft'' \<or> 0 < vb_invoices b i then None
        else Some (b\<lparr>vb_versions := map (\<lambda>x. if vs_supersedes x = Some i then x\<lparr>vs_supersedes := None\<rparr> else x)
               (filter (\<lambda>x. vs_id x \<noteq> i) (vb_versions b))\<rparr>))"

text \<open>An invoice raised under the version in force, and the editing of versions.\<close>

inductive version_step :: "Versions \<Rightarrow> Versions \<Rightarrow> bool" where
  created: "createVersion fresh s copy from0 b = Some b' \<Longrightarrow> fresh \<notin> vs_id ` set (vb_versions b) \<Longrightarrow> vb_invoices b fresh = 0 \<Longrightarrow> version_step b b'"
| edited: "putItems i lines b = Some b' \<Longrightarrow> version_step b b'"
| activated: "activateVersion i b = Some b' \<Longrightarrow> version_step b b'"
| discarded: "discardVersion i b = Some b' \<Longrightarrow> version_step b b'"
| raised: "version i b = Some v \<Longrightarrow> vs_status v = ''active'' \<Longrightarrow> version_step b (b\<lparr>vb_invoices := (vb_invoices b)(i := vb_invoices b i + 1)\<rparr>)"

subsection \<open>The next receipt of a series\<close>

definition renderPreview :: "string \<Rightarrow> string \<Rightarrow> string \<Rightarrow> nat \<Rightarrow> int \<Rightarrow> string \<Rightarrow> string" where
  "renderPreview format prefix suffix padding next_value fy =
    (let f0 = (if format = '''' then ''{prefix}{fy}/{seq}{suffix}'' else format);
         f1 = (if fy = '''' then fold (\<lambda>d f. replace_all d '''' f) [''{fy}/'', ''{fy}-'', ''/{fy}'', ''-{fy}''] f0 else f0)
     in replace_all ''{suffix}'' suffix (replace_all ''{seq}'' (padStart padding (CHR ''0'') (js_int next_value))
          (replace_all ''{fy}'' fy (replace_all ''{prefix}'' prefix f1))))"

end
