(* ===== verification/FineProps.thy ===== *)
theory FineProps
  imports FineEngine
begin

text \<open>
  What the fine engine and the versions of a fee structure promise: a fine stays under its cap and is
  charged once a day, the rule chosen is the most specific that covers the invoice, and the lines an
  invoice was raised under never change.  Two lemmas show where an applied fine misses the
  bill and where a waiver misses the invoice the fine was put on.
\<close>

subsection \<open>One assessment\<close>

lemma percentOf_exact:
  assumes "0 < bp" "0 < basis" "basis * bp < 2 ^ 51"
  shows "percentOf basis bp = (basis * bp + 5000) div 10000"
proof -
  define x q where "x = basis * bp + 5000" and "q = x div 10000"
  have "0 < basis * bp" using assms by simp
  then have x: "0 \<le> x" "x < 2 ^ 52" using assms(3) unfolding x_def by simp_all
  have q: "10000 * q \<le> x" "x \<le> 10000 * q + 9999" "0 \<le> q" using x unfolding q_def by simp_all
  have "(of_int (10000 * q) :: rat) \<le> of_int x" "(of_int x :: rat) \<le> of_int (10000 * q + 9999)" using q by (simp_all only: of_int_le_iff)
  then have "of_int q / 2 ^ 0 \<le> (of_int x :: rat) / 10000" "(of_int x :: rat) / 10000 \<le> of_int (2 ^ 14 * q + (2 ^ 14 - 1)) / 2 ^ 14"
    by (simp_all add: field_simps)
  then have "of_int q / 2 ^ 0 \<le> fl (of_int x / 10000)" "fl (of_int x / 10000) \<le> of_int (2 ^ 14 * q + (2 ^ 14 - 1)) / 2 ^ 14"
    using q x by (intro fl_ge_grid fl_le_grid; simp)+
  then have "\<lfloor>fl (of_int x / 10000)\<rfloor> = q" by (simp add: floor_eq_iff field_simps)
  then show ?thesis using assms by (simp add: percentOf_def x_def q_def)
qed

lemma percentOf_nonneg: "0 \<le> percentOf basis bp"
proof (cases "bp \<le> 0 \<or> basis \<le> 0")
  case False
  then have "0 \<le> (of_int (basis * bp + 5000) :: rat)" by (simp only: of_int_0_le_iff) simp
  then show ?thesis by (simp add: percentOf_def fl_nonneg)
qed (auto simp: percentOf_def)

lemma capped_facts:
  shows "0 \<le> fa_amount (capped s r a)" "fa_delta (capped s r a) = max 0 (fa_amount (capped s r a) - fs_alreadyFinedPaise s)"
    "fr_capPaise r = Some cap \<Longrightarrow> 0 \<le> cap \<Longrightarrow> fa_amount (capped s r a) \<le> cap"
    "fa_exempt (capped s r a) = fa_exempt a" "fa_days_overdue (capped s r a) = fa_days_overdue a"
    "fa_rule_id (capped s r a) = fa_rule_id a" "fa_invoice_id (capped s r a) = fa_invoice_id a"
  by (auto simp: capped_def Let_def split: option.splits)

text \<open>
  The branches of an assessment: nothing is charged, or the capped steps are.
\<close>
lemma assess_cases:
  obtains (none) "fa_amount (assessFine s r d) = 0" "fa_delta (assessFine s r d) = 0"
  | (charged) a due where "assessFine s r d = capped s r a" "fa_exempt a = False" "fs_dueOn s = Some due" "fr_graceDays r < daysBetween due d" "0 < daysBetween due d"
      "fa_days_overdue a = daysBetween due d" "0 < fs_balancePaise s" "find (\<lambda>h. h \<in> set (fr_exemptKinds r)) (fs_concessionKinds s) = None"
proof (cases "find (\<lambda>h. h \<in> set (fr_exemptKinds r)) (fs_concessionKinds s)")
  case (Some k)
  then show ?thesis using none by (simp add: assessFine_def blank_assessment_def Let_def)
next
  case free: None
  show ?thesis
  proof (cases "fs_dueOn s")
    case None
    then show ?thesis using none free by (simp add: assessFine_def blank_assessment_def Let_def)
  next
    case due: (Some due)
    let ?days = "daysBetween due d"
    let ?basis = "case fr_feeHeadId r of Some h \<Rightarrow> (case map_of (fs_headAmounts s) h of Some n \<Rightarrow> n | None \<Rightarrow> 0) | None \<Rightarrow> fs_balancePaise s"
    let ?cs = "charge_steps r ?basis (?days - fr_graceDays r)"
    note u = assessFine_def blank_assessment_def Let_def free due option.case
    consider (skip) "fs_balancePaise s \<le> 0 \<or> ?days \<le> 0 \<or> ?days \<le> fr_graceDays r \<or> ?basis \<le> 0 \<or> ?cs = None"
      | (go) p st w where "0 < fs_balancePaise s" "0 < ?days" "fr_graceDays r < ?days" "0 < ?basis" "?cs = Some (p, st, w)"
      by (metis not_le not_Some_eq prod_cases3)
    then show ?thesis
    proof cases
      case skip
      then have "fa_amount (assessFine s r d) = 0 \<and> fa_delta (assessFine s r d) = 0" unfolding u by auto
      then show ?thesis using none by blast
    next
      case go
      let ?a = "(blank_assessment s r)\<lparr>fa_days_overdue := ?days, fa_basis := ?basis, fa_periods := p, fa_steps := st, fa_amount := (\<Sum>x\<leftarrow>st. st_amount x), fa_reason := w\<rparr>"
      have "assessFine s r d = capped s r ?a" unfolding assessFine_def Let_def free due option.case go(5) prod.case using go(1-4) by simp
      then show ?thesis using charged [of ?a due] go free due by (simp add: blank_assessment_def)
    qed
  qed
qed

text \<open>
  C30. A late fine stays within its rule: nothing negative, never above the cap, nothing when the family holds an
  exempt concession, owes nothing, or is within the grace days; and what is still to charge, with
  what was charged, never passes the larger of the fine and what was charged.
\<close>
theorem fine_within_rule:
  assumes "0 \<le> fs_alreadyFinedPaise s" "case fr_capPaise r of Some cap \<Rightarrow> 0 \<le> cap | None \<Rightarrow> True"
  shows "let a = assessFine s r asOf in 0 \<le> fa_amount a \<and> 0 \<le> fa_delta a
    \<and> (case fr_capPaise r of Some cap \<Rightarrow> fa_amount a \<le> cap | None \<Rightarrow> True)
    \<and> fa_delta a + fs_alreadyFinedPaise s \<le> max (fa_amount a) (fs_alreadyFinedPaise s)
    \<and> (0 < fa_delta a \<longrightarrow> (\<exists>due. fs_dueOn s = Some due \<and> fr_graceDays r < daysBetween due asOf) \<and> 0 < fs_balancePaise s
        \<and> set (fs_concessionKinds s) \<inter> set (fr_exemptKinds r) = {})"
proof (cases rule: assess_cases [of s r asOf])
  case none
  then show ?thesis using assms by (auto simp: Let_def split: option.splits)
next
  case (charged a due)
  note c = capped_facts [where s = s and r = r and a = a]
  have cap: "case fr_capPaise r of Some cap \<Rightarrow> fa_amount (capped s r a) \<le> cap | None \<Rightarrow> True"
    using c(3) assms(2) by (auto split: option.splits)
  have "set (fs_concessionKinds s) \<inter> set (fr_exemptKinds r) = {}" using charged(8) by (auto simp: find_None_iff)
  then show ?thesis using charged(1,3,4,7) cap c(1,2) assms(1) by (simp add: Let_def)
qed

subsection \<open>The rule chosen\<close>

text \<open>
  The rule an invoice is fined under covers it, and no rule that covers it names more of its targets
  (a fee head before a structure before a campus), nor as many with a lower priority number; there
  is none exactly when no rule covers it.
\<close>
theorem bestRule_most_specific:
  "case bestRuleFor s rules of
     None \<Rightarrow> filter (covers s) rules = []
   | Some r \<Rightarrow> r \<in> set rules \<and> covers s r \<and> {q \<in> set rules. covers s q \<and> rule_key q < rule_key r} = {}"
proof (cases "sort_key rule_key (filter (covers s) rules)")
  case Nil
  then have "filter (covers s) rules = []" by (metis length_0_conv length_sort)
  then show ?thesis by (simp add: bestRuleFor_def)
next
  case (Cons r rest)
  have "set (r # rest) = set (filter (covers s) rules)" using Cons by (metis set_sort)
  moreover have "\<forall>q\<in>set rest. rule_key r \<le> rule_key q"
    using sorted_sort_key [of rule_key "filter (covers s) rules"] Cons by simp
  ultimately show ?thesis using Cons by (fastforce simp: bestRuleFor_def)
qed

subsection \<open>A second click\<close>

text \<open>Bills that only their money tells apart, and lists where only the invoices of \<open>T\<close> were touched.\<close>

definition same_bill :: "Bill \<Rightarrow> Bill \<Rightarrow> bool" where
  "same_bill v w \<longleftrightarrow> iv_id w = iv_id v \<and> iv_student w = iv_student v \<and> iv_due_on w = iv_due_on v \<and> bl_campus w = bl_campus v
     \<and> bl_structure w = bl_structure v \<and> bl_version w = bl_version v"

definition touches :: "string set \<Rightarrow> Bill list \<Rightarrow> Bill list \<Rightarrow> bool" where
  "touches T vs ws \<longleftrightarrow> list_all2 (\<lambda>v w. same_bill v w \<and> (iv_id v \<notin> T \<longrightarrow> w = v)) vs ws"

lemma touches_refl [simp]: "touches T vs vs"
  by (simp add: touches_def same_bill_def list_all2_same)

lemma touches_trans: "touches S us vs \<Longrightarrow> touches T vs ws \<Longrightarrow> touches (S \<union> T) us ws"
  unfolding touches_def list_all2_conv_all_nth same_bill_def by auto

lemma touches_elem:
  assumes "touches T vs ws" "w \<in> set ws"
  shows "\<exists>v\<in>set vs. same_bill v w \<and> (iv_id v \<notin> T \<longrightarrow> w = v)"
proof -
  obtain i where i: "i < length ws" "w = ws ! i" using assms(2) by (metis in_set_conv_nth)
  then have "i < length vs" using assms(1) list_all2_lengthD unfolding touches_def by fastforce
  with list_all2_nthD2 [OF assms(1) [unfolded touches_def] i(1)] i(2) show ?thesis by auto
qed

lemma touches_map:
  assumes "\<And>v. iv_id v = i \<Longrightarrow> same_bill v (f v)"
  shows "touches {i} vs (map (\<lambda>v. if iv_id v = i then f v else v) vs)"
  using assms by (auto simp: touches_def list_all2_map2 list_all2_same same_bill_def)

lemma fine_bill_touches: "touches {i} vs (fine_bill i f vs)"
  unfolding fine_bill_def by (rule touches_map) (simp add: same_bill_def)

lemma sync_bill_touches: "touches {i} (fb_bills b) (fb_bills (sync_bill t i b))"
proof -
  have "fb_bills (sync_bill t i b) = map (\<lambda>v. if iv_id v = i
     then (let w = v\<lparr>iv_paid := paid_of (fb_allocs b) i\<rparr> in w\<lparr>iv_status := invoice_status t w\<rparr>) else v) (fb_bills b)"
    by (simp add: sync_bill_def)
  then show ?thesis by (simp only:) (rule touches_map, simp add: same_bill_def Let_def)
qed

definition same_books :: "FineBooks \<Rightarrow> FineBooks \<Rightarrow> bool" where
  "same_books b c \<longleftrightarrow> fb_rules c = fb_rules b \<and> fb_heads c = fb_heads b \<and> fb_concessions c = fb_concessions b"

lemma fold_sync:
  "touches (set xs) (fb_bills b) (fb_bills (fold (sync_bill t) xs b)) \<and> same_books b (fold (sync_bill t) xs b)
    \<and> fb_charges (fold (sync_bill t) xs b) = fb_charges b"
proof (induction xs arbitrary: b)
  case (Cons i xs)
  have "same_books b (sync_bill t i b)" "fb_charges (sync_bill t i b) = fb_charges b" by (simp_all add: sync_bill_def same_books_def)
  with Cons [of "sync_bill t i b"] touches_trans [OF sync_bill_touches [of i b t]] show ?case by (auto simp: same_books_def)
qed (simp add: same_books_def)

text \<open>What a run of the loop writes, when no rule moves its fine to the last instalment.\<close>

definition writes :: "string list \<Rightarrow> string \<Rightarrow> FineBooks \<Rightarrow> FineAssessment list \<Rightarrow> (string \<times> string) list" where
  "writes ids asOf b0 out = concat (map (\<lambda>a. case to_charge ids asOf b0 a of Some r \<Rightarrow> [(fa_invoice_id a, r)] | None \<Rightarrow> []) out)"

lemma fold_apply:
  assumes "list_all (\<lambda>r. fr_applyMode r \<noteq> ''final_term'') rules"
  shows "fold (\<lambda>(k, a). apply_one ids asOf rules b0 (cids k) a) (enumerate j out) (b, n, tot, tch) = (c, n', tot', tch') \<Longrightarrow>
    same_books b c \<and> touches (fst ` set (writes ids asOf b0 out)) (fb_bills b) (fb_bills c)
    \<and> tch' = tch @ map fst (writes ids asOf b0 out) \<and> n' = n + length (writes ids asOf b0 out)
    \<and> (\<exists>cs. fb_charges c = fb_charges b @ cs \<and> map (\<lambda>x. (fc_invoice x, rule_of_charge x)) cs = writes ids asOf b0 out
         \<and> list_all (\<lambda>x. fc_as_of x = asOf \<and> fc_status x = ''applied'') cs)"
proof (induction out arbitrary: j b n tot tch)
  case Nil
  then show ?case by (simp add: writes_def same_books_def)
next
  case (Cons a out)
  show ?case
  proof (cases "to_charge ids asOf b0 a")
    case None
    then have w: "writes ids asOf b0 (a # out) = writes ids asOf b0 out" by (simp add: writes_def)
    have "apply_one ids asOf rules b0 (cids j) a st = st" for st using None by (simp add: apply_one_def)
    with Cons.prems have "fold (\<lambda>(k, a). apply_one ids asOf rules b0 (cids k) a) (enumerate (Suc j) out) (b, n, tot, tch) = (c, n', tot', tch')"
      by simp
    from Cons.IH [OF this] show ?thesis unfolding w .
  next
    case (Some r)
    let ?i = "fa_invoice_id a"
    let ?x = "\<lparr>fc_id = cids j, fc_invoice = ?i, fc_rule = Some r, fc_as_of = asOf, fc_amount = fa_delta a, fc_status = ''applied''\<rparr>"
    let ?b = "b\<lparr>fb_charges := fb_charges b @ [?x], fb_bills := fine_bill ?i (\<lambda>n. n + fa_delta a) (fb_bills b)\<rparr>"
    have on: "charge_on rules (fb_bills b0) r ?i = ?i" using assms by (auto simp: charge_on_def list_all_iff)
    have w: "writes ids asOf b0 (a # out) = (?i, r) # writes ids asOf b0 out" using Some by (simp add: writes_def)
    have "apply_one ids asOf rules b0 (cids j) a (b, n, tot, tch) = (?b, n + 1, tot + fa_delta a, tch @ [?i])"
      using Some by (simp add: apply_one_def on Let_def)
    with Cons.prems have "fold (\<lambda>(k, a). apply_one ids asOf rules b0 (cids k) a) (enumerate (Suc j) out) (?b, n + 1, tot + fa_delta a, tch @ [?i]) = (c, n', tot', tch')"
      by simp
    from Cons.IH [OF this] obtain cs where IH: "same_books ?b c" "touches (fst ` set (writes ids asOf b0 out)) (fb_bills ?b) (fb_bills c)"
      "tch' = (tch @ [?i]) @ map fst (writes ids asOf b0 out)" "n' = n + 1 + length (writes ids asOf b0 out)"
      "fb_charges c = fb_charges ?b @ cs" "map (\<lambda>x. (fc_invoice x, rule_of_charge x)) cs = writes ids asOf b0 out"
      "list_all (\<lambda>x. fc_as_of x = asOf \<and> fc_status x = ''applied'') cs" by blast
    have "touches ({?i} \<union> fst ` set (writes ids asOf b0 out)) (fb_bills b) (fb_bills c)"
      by (rule touches_trans [OF _ IH(2)]) (simp add: fine_bill_touches)
    moreover have "fb_charges c = fb_charges b @ ?x # cs" "map (\<lambda>x. (fc_invoice x, rule_of_charge x)) (?x # cs) = writes ids asOf b0 (a # out)"
      "list_all (\<lambda>x. fc_as_of x = asOf \<and> fc_status x = ''applied'') (?x # cs)" using IH(5,6,7) by (simp_all add: w rule_of_charge_def)
    ultimately show ?thesis using IH(1,3,4) by (auto simp: w same_books_def)
  qed
qed

lemma best_cong:
  assumes "fs_campusId s = fs_campusId s'" "fs_structureId s = fs_structureId s'" "fs_headAmounts s = fs_headAmounts s'"
  shows "bestRuleFor s rules = bestRuleFor s' rules"
proof -
  have "covers s = covers s'" unfolding covers_def assms ..
  then show ?thesis by (simp add: bestRuleFor_def)
qed

lemma subject_fields:
  "same_bill v w \<Longrightarrow> same_books b c \<Longrightarrow> bestRuleFor (subject_of c w) rules = bestRuleFor (subject_of b v) rules"
  by (rule best_cong) (simp_all add: same_bill_def same_books_def subject_of_def split: option.split)

lemma best_with_already: "bestRuleFor (with_already b rules s) rules' = bestRuleFor s rules'"
  by (rule best_cong) (simp_all add: with_already_def split: option.split)

text \<open>The assessment of one bill, and where one with something to charge comes from.\<close>

definition assess1 :: "FineBooks \<Rightarrow> FineRule list \<Rightarrow> string \<Rightarrow> Bill \<Rightarrow> FineAssessment" where
  "assess1 b rules asOf v = (case bestRuleFor (subject_of b v) rules of None \<Rightarrow> no_rule (subject_of b v)
     | Some r \<Rightarrow> assessFine ((subject_of b v)\<lparr>fs_alreadyFinedPaise := already (fb_charges b) (iv_id v) (fr_id r)\<rparr>) r asOf)"

lemma assess1_alt:
  "(case bestRuleFor (with_already b rules (subject_of b v)) rules of None \<Rightarrow> no_rule (with_already b rules (subject_of b v))
     | Some r \<Rightarrow> assessFine (with_already b rules (subject_of b v)) r asOf) = assess1 b rules asOf v"
proof (cases "bestRuleFor (subject_of b v) rules")
  case None
  then show ?thesis unfolding best_with_already by (simp add: assess1_def with_already_def)
next
  case (Some r)
  have "fs_invoiceId (subject_of b v) = iv_id v" by (simp add: subject_of_def)
  then show ?thesis unfolding best_with_already using Some by (simp add: assess1_def with_already_def)
qed

lemma assessDues_set:
  "set (assessDues asOf visible onlyRule only b) = assess1 b (loadFineRuleSet onlyRule b) asOf ` {v \<in> set (fb_bills b). fineable asOf visible only v}"
  unfolding assessDues_def evaluateFines_def loadFineSubjects_def Let_def set_map image_image assess1_alt set_sort set_filter by (rule refl)

lemma assess1_ids:
  "fa_invoice_id (assess1 b rules asOf v) = iv_id v"
  "fa_rule_id (assess1 b rules asOf v) = (case bestRuleFor (subject_of b v) rules of None \<Rightarrow> None
     | Some r \<Rightarrow> if fr_id r = ZERO_UUID \<or> fr_id r = '''' then None else Some (fr_id r))"
proof -
  have "fa_invoice_id (assessFine s q d) = fs_invoiceId s \<and> fa_rule_id (assessFine s q d) = (if fr_id q = ZERO_UUID \<or> fr_id q = '''' then None else Some (fr_id q))"
    for s q d
    unfolding assessFine_def Let_def by (simp add: blank_assessment_def capped_facts split: option.split)
  then show "fa_invoice_id (assess1 b rules asOf v) = iv_id v"
    "fa_rule_id (assess1 b rules asOf v) = (case bestRuleFor (subject_of b v) rules of None \<Rightarrow> None
     | Some r \<Rightarrow> if fr_id r = ZERO_UUID \<or> fr_id r = '''' then None else Some (fr_id r))"
    by (simp_all add: assess1_def no_rule_def subject_of_def split: option.split)
qed

lemma already_append: "already (cs @ ds) i r = already cs i r + already ds i r"
  by (simp add: already_def)

lemma already_other: "i \<notin> fc_invoice ` set cs \<Longrightarrow> already cs i r = 0"
  unfolding already_def by (induction cs) auto

lemma to_charge_Some:
  "to_charge ids asOf b a = Some k \<longleftrightarrow>
     0 < fa_delta a \<and> fa_rule_id a = Some k \<and> chargeKey (fa_invoice_id a) k \<notin> set (today_keys ids asOf (fb_charges b))"
  by (auto simp: to_charge_def split: option.split)

lemma in_writes: "(i, k) \<in> set (writes ids asOf b out) \<longleftrightarrow> (\<exists>a\<in>set out. fa_invoice_id a = i \<and> to_charge ids asOf b a = Some k)"
  by (force simp: writes_def split: option.splits)

text \<open>
  What the first run has left for a second: a bill it charged is charged for today under its rule, another is as it was.
\<close>
lemma second_assessment:
  fixes visible :: "string \<Rightarrow> bool" and onlyRule :: "string option" and ids :: "string list" and asOf :: string
  defines "out \<equiv> \<lambda>b. assessDues asOf visible onlyRule (Some ids) b"
  assumes T: "touches (fst ` set (writes ids asOf b (out b))) (fb_bills b) (fb_bills c)" and same: "same_books b c"
    and ch: "fb_charges c = fb_charges b @ cs" and cs: "map (\<lambda>x. (fc_invoice x, rule_of_charge x)) cs = writes ids asOf b (out b)"
    and now: "list_all (\<lambda>x. fc_as_of x = asOf \<and> fc_status x = ''applied'') cs" and dist: "distinct (map iv_id (fb_bills b))"
    and a: "a \<in> set (out c)"
  shows "to_charge ids asOf c a = None"
proof (rule ccontr)
  define W rules where "W = writes ids asOf b (out b)" and "rules = loadFineRuleSet onlyRule b"
  have rules': "loadFineRuleSet onlyRule c = rules" using same by (simp add: loadFineRuleSet_def rules_def same_books_def)
  assume "to_charge ids asOf c a \<noteq> None"
  then obtain k where k: "to_charge ids asOf c a = Some k" by blast
  obtain w where w: "w \<in> set (fb_bills c)" "fineable asOf visible (Some ids) w" "a = assess1 c rules asOf w"
    using a unfolding out_def assessDues_set rules' by blast
  obtain v where v: "v \<in> set (fb_bills b)" "same_bill v w" "iv_id v \<notin> fst ` set W \<Longrightarrow> w = v"
    using touches_elem [OF T w(1)] unfolding W_def by blast
  have iw: "iv_id w = iv_id v" "fa_invoice_id a = iv_id v" using v(2) w(3) by (simp_all add: same_bill_def assess1_ids)
  have ida: "fa_rule_id a = fa_rule_id (assess1 b rules asOf v)" unfolding w(3) assess1_ids subject_fields [OF v(2) same] ..
  show False
  proof (cases "iv_id v \<in> fst ` set W")
    case True
    then obtain q where q: "(iv_id v, q) \<in> set W" by auto
    then obtain v0 where v0: "v0 \<in> set (fb_bills b)" "iv_id v0 = iv_id v" "to_charge ids asOf b (assess1 b rules asOf v0) = Some q"
      unfolding W_def in_writes out_def assessDues_set rules_def [symmetric] by (auto simp: assess1_ids)
    have "v0 = v" using v0(1,2) v(1) dist by (metis distinct_map inj_onD)
    then have "q = k" using v0(3) k ida by (simp add: to_charge_Some)
    with q have "(iv_id v, k) \<in> set (map (\<lambda>x. (fc_invoice x, rule_of_charge x)) cs)" unfolding cs W_def by simp
    then obtain x where "x \<in> set cs" "fc_invoice x = iv_id v" "rule_of_charge x = k" by auto
    moreover have "iv_id v \<in> set ids" using w(2) iw by (simp add: fineable_def)
    ultimately have "chargeKey (iv_id v) k \<in> set (today_keys ids asOf (fb_charges c))"
      using now by (auto simp: today_keys_def ch list_all_iff image_iff intro!: bexI [of _ x])
    then show False using k iw by (simp add: to_charge_Some)
  next
    case False
    have "iv_id v \<notin> set (map fc_invoice cs)"
      using False arg_cong [OF cs, of "map fst"] unfolding W_def by (simp add: comp_def flip: set_map)
    then have al: "already (fb_charges c) (iv_id v) r = already (fb_charges b) (iv_id v) r" for r
      by (simp add: ch already_append already_other)
    have "subject_of c v = subject_of b v" using same by (simp add: subject_of_def same_books_def split: option.split)
    then have "a = assess1 b rules asOf v" by (simp only: w(3) v(3) [OF False] assess1_def al)
    moreover from this have "a \<in> set (out b)" using v(1,3) w(2) False unfolding out_def assessDues_set rules_def by blast
    moreover have "to_charge ids asOf b a = Some k" using k by (auto simp: to_charge_Some today_keys_def ch)
    ultimately have "(iv_id v, k) \<in> set W" using iw(2) unfolding W_def in_writes by blast
    then show False using False by force
  qed
qed

lemma fold_apply_none:
  "\<forall>a\<in>set xs. to_charge ids asOf b0 a = None \<Longrightarrow> fold (\<lambda>(k, a). apply_one ids asOf rules b0 (cids k) a) (enumerate j xs) st = st"
  by (induction xs arbitrary: j) (simp_all add: apply_one_def)


subsection \<open>Versions\<close>

definition ver_ok :: "Versions \<Rightarrow> bool" where
  "ver_ok b \<longleftrightarrow> distinct (map vs_id (vb_versions b))
     \<and> (\<forall>v\<in>set (vb_versions b). \<forall>w\<in>set (vb_versions b). vs_structure v = vs_structure w \<and> vs_status v = vs_status w
          \<and> vs_status v \<in> {''draft'', ''active''} \<longrightarrow> v = w)
     \<and> (\<forall>i. 0 < vb_invoices b i \<longrightarrow> (\<exists>v\<in>set (vb_versions b). vs_id v = i \<and> vs_status v \<noteq> ''draft''))"

lemma ver_okD:
  assumes "ver_ok b"
  shows "distinct (map vs_id (vb_versions b))" "0 < vb_invoices b i \<Longrightarrow> \<exists>v\<in>set (vb_versions b). vs_id v = i \<and> vs_status v \<noteq> ''draft''"
    "v \<in> set (vb_versions b) \<Longrightarrow> w \<in> set (vb_versions b) \<Longrightarrow> vs_structure v = vs_structure w \<Longrightarrow> vs_status v = vs_status w
      \<Longrightarrow> vs_status v \<in> {''draft'', ''active''} \<Longrightarrow> v = w"
  using assms unfolding ver_ok_def by blast+

lemma version_in: "version i b = Some v \<Longrightarrow> v \<in> set (vb_versions b) \<and> vs_id v = i"
  by (auto simp: version_def find_Some_iff)

lemma version_Some:
  assumes "distinct (map vs_id (vb_versions b))" "v \<in> set (vb_versions b)" "vs_id v = i"
  shows "version i b = Some v"
proof -
  obtain w where w: "version i b = Some w" using assms(2,3) by (fastforce simp: version_def find_None_iff)
  then have "vs_id w = vs_id v" "w \<in> set (vb_versions b)" using version_in assms(3) by auto
  then have "w = v" using assms(1,2) by (metis distinct_map inj_onD)
  with w show ?thesis by simp
qed

text \<open>Versions kept by a step: each non-draft survives as a non-draft with its lines.\<close>

definition keeps_lines :: "Versions \<Rightarrow> Versions \<Rightarrow> bool" where
  "keeps_lines b c \<longleftrightarrow> (\<forall>v\<in>set (vb_versions b). vs_status v \<noteq> ''draft'' \<longrightarrow>
     (\<exists>w\<in>set (vb_versions c). vs_id w = vs_id v \<and> vs_lines w = vs_lines v \<and> vs_status w \<noteq> ''draft''))"

lemma keeps_lines_trans: "keeps_lines a b \<Longrightarrow> keeps_lines b c \<Longrightarrow> keeps_lines a c"
  unfolding keeps_lines_def by metis

text \<open>
  A change made version by version, that leaves identifiers and structures alone.
\<close>
lemma mapped_versions:
  assumes ok: "ver_ok b" and c: "vb_versions c = map f (vb_versions b)" "vb_invoices c = vb_invoices b"
    and ids: "\<And>v. vs_id (f v) = vs_id v" "\<And>v. vs_structure (f v) = vs_structure v"
    and live: "\<And>v. v \<in> set (vb_versions b) \<Longrightarrow> vs_status v \<noteq> ''draft'' \<Longrightarrow> vs_status (f v) \<noteq> ''draft'' \<and> vs_lines (f v) = vs_lines v"
    and one: "\<And>v w. v \<in> set (vb_versions b) \<Longrightarrow> w \<in> set (vb_versions b) \<Longrightarrow> vs_structure v = vs_structure w \<Longrightarrow> vs_status (f v) = vs_status (f w)
      \<Longrightarrow> vs_status (f v) \<in> {''draft'', ''active''} \<Longrightarrow> v = w"
  shows "ver_ok c \<and> keeps_lines b c"
proof -
  have "map vs_id (vb_versions c) = map vs_id (vb_versions b)" unfolding c by (simp add: ids)
  then have "distinct (map vs_id (vb_versions c))" using ok unfolding ver_ok_def by metis
  moreover have "v' = w'" if m: "v' \<in> set (vb_versions c)" "w' \<in> set (vb_versions c)" "vs_structure v' = vs_structure w'" "vs_status v' = vs_status w'"
    "vs_status v' \<in> {''draft'', ''active''}" for v' w'
  proof -
    obtain v w where "v \<in> set (vb_versions b)" "w \<in> set (vb_versions b)" "v' = f v" "w' = f w" using m(1,2) unfolding c(1) by auto
    with one [of v w] m(3-5) ids(2) show ?thesis by simp
  qed
  moreover have "\<exists>v\<in>set (vb_versions c). vs_id v = i \<and> vs_status v \<noteq> ''draft''" if "0 < vb_invoices c i" for i
  proof -
    have "0 < vb_invoices b i" using that by (simp only: c)
    from ver_okD(2) [OF ok this] obtain v where "v \<in> set (vb_versions b)" "vs_id v = i" "vs_status v \<noteq> ''draft''" by blast
    then show ?thesis using ids(1) live unfolding c by (auto intro!: bexI [of _ v])
  qed
  moreover have "keeps_lines b c" using live ids(1) unfolding keeps_lines_def c by auto
  ultimately show ?thesis unfolding ver_ok_def by blast
qed

lemma create_ok:
  assumes "createVersion fresh s copy from0 b = Some c" "fresh \<notin> vs_id ` set (vb_versions b)" "ver_ok b"
  shows "ver_ok c \<and> keeps_lines b c"
proof -
  obtain x where c: "vb_versions c = vb_versions b @ [x]" "vb_invoices c = vb_invoices b" and x: "vs_id x = fresh" "vs_structure x = s" "vs_status x = ''draft''"
    and nodraft: "\<forall>v\<in>set (vb_versions b). vs_structure v = s \<longrightarrow> vs_status v \<noteq> ''draft''"
    using assms(1) by (auto simp: createVersion_def Let_def of_structure_def list_ex_iff split: option.splits if_splits)
  have "ver_ok c"
    unfolding ver_ok_def
  proof (intro conjI ballI allI impI)
    show "distinct (map vs_id (vb_versions c))" using assms(2,3) c x by (simp add: ver_ok_def)
    fix v w assume "v \<in> set (vb_versions c)" "w \<in> set (vb_versions c)"
      "vs_structure v = vs_structure w \<and> vs_status v = vs_status w \<and> vs_status v \<in> {''draft'', ''active''}"
    then show "v = w" using assms(3) c x nodraft by (auto simp: ver_ok_def)
  next
    fix i assume "0 < vb_invoices c i"
    then show "\<exists>v\<in>set (vb_versions c). vs_id v = i \<and> vs_status v \<noteq> ''draft''" using assms(3) c by (auto simp: ver_ok_def)
  qed
  then show ?thesis using c by (auto simp: keeps_lines_def)
qed

lemma put_ok:
  assumes "putItems i lines b = Some c" "ver_ok b"
  shows "ver_ok c \<and> keeps_lines b c"
proof -
  obtain v l where v: "version i b = Some v" "vs_status v = ''draft''" and c: "c = b\<lparr>vb_versions := set_version i (\<lambda>x. x\<lparr>vs_lines := l\<rparr>) (vb_versions b)\<rparr>"
    using assms(1) by (auto simp: putItems_def Let_def split: option.splits if_splits)
  have draft: "vs_status x = ''draft''" if "x \<in> set (vb_versions b)" "vs_id x = i" for x
    using version_Some [OF _ that] assms(2) v by (simp add: ver_ok_def)
  show ?thesis
    by (rule mapped_versions [OF assms(2), where f = "\<lambda>x. if vs_id x = i then x\<lparr>vs_lines := l\<rparr> else x"])
      (use assms(2) draft in \<open>auto simp: c set_version_def ver_ok_def split: if_splits\<close>)
qed

lemma activate_ok:
  assumes "activateVersion i b = Some c" "ver_ok b"
  shows "ver_ok c \<and> keeps_lines b c"
proof -
  obtain v where v: "version i b = Some v" "vs_status v = ''draft''" using assms(1) by (auto simp: activateVersion_def split: option.splits if_splits)
  define close where "close = (\<lambda>x. if vs_structure x = vs_structure v \<and> vs_status x = ''active'' \<and> vs_id x \<noteq> i
     then x\<lparr>vs_status := ''superseded'', vs_effective_to := Some (case vs_effective_to x of Some d \<Rightarrow> min d (addDays (vs_effective_from v) (- 1))
       | None \<Rightarrow> addDays (vs_effective_from v) (- 1))\<rparr> else x :: Version)"
  define f where "f = (\<lambda>x. if vs_id (close x) = i then (close x)\<lparr>vs_status := ''active'', vs_effective_to := None\<rparr> else close x)"
  have n: "\<not> (vs_status v \<noteq> ''draft'' \<or> vs_lines v = [])" using assms(1) v by (auto simp: activateVersion_def split: if_splits)
  have "activateVersion i b = Some (b\<lparr>vb_versions := map f (vb_versions b)\<rparr>)"
    unfolding activateVersion_def v(1) option.case if_not_P [OF n] Let_def set_version_def map_map comp_def f_def close_def by (rule refl)
  then have c: "c = b\<lparr>vb_versions := map f (vb_versions b)\<rparr>" using assms(1) by simp
  have me: "x = v" if "x \<in> set (vb_versions b)" "vs_id x = i" for x using version_Some [OF _ that] assms(2) v by (simp add: ver_ok_def)
  have f: "vs_id (f x) = vs_id x" "vs_structure (f x) = vs_structure x" "vs_lines (f x) = vs_lines x"
    "vs_status (f x) = (if vs_id x = i then ''active'' else if vs_structure x = vs_structure v \<and> vs_status x = ''active'' then ''superseded'' else vs_status x)" for x
    by (auto simp: f_def close_def)
  have iv: "v \<in> set (vb_versions b)" "vs_id v = i" using version_in [OF v(1)] by auto
  have only: "y = v" if y: "y \<in> set (vb_versions b)" "vs_structure y = vs_structure v" "vs_status (f y) = ''active''" for y
  proof (rule ccontr)
    assume "y \<noteq> v"
    then have "vs_id y \<noteq> i" using me [OF y(1)] by blast
    with y f(4) [of y] show False by (cases "vs_status y = ''active''") simp_all
  qed
  have fv: "vs_status (f v) = ''active''" using f(4) [of v] iv by simp
  show ?thesis
  proof (rule mapped_versions [OF assms(2), where f = f])
    fix x y assume a: "x \<in> set (vb_versions b)" "y \<in> set (vb_versions b)" "vs_structure x = vs_structure y" "vs_status (f x) = vs_status (f y)"
      "vs_status (f x) \<in> {''draft'', ''active''}"
    show "x = y"
    proof (cases "vs_id x = i \<or> vs_id y = i")
      case True
      then have "x = v \<or> y = v" using me a(1,2) by blast
      then show ?thesis using only [OF a(1)] only [OF a(2)] a(3,4) fv by auto
    next
      case False
      then have "vs_status x = vs_status y \<and> vs_status x \<in> {''draft'', ''active''}" using a(4,5) by (auto simp: f split: if_splits)
      then show ?thesis using assms(2) a(1-3) by (auto simp: ver_ok_def)
    qed
  qed (auto simp: c f)
qed

lemma discard_ok:
  assumes "discardVersion i b = Some c" "ver_ok b"
  shows "ver_ok c \<and> keeps_lines b c"
proof -
  obtain v where v: "version i b = Some v" "vs_status v = ''draft''" "vb_invoices b i = 0"
    using assms(1) by (auto simp: discardVersion_def split: option.splits if_splits)
  define b1 where "b1 = b\<lparr>vb_versions := filter (\<lambda>x. vs_id x \<noteq> i) (vb_versions b)\<rparr>"
  have c: "vb_versions c = map (\<lambda>x. if vs_supersedes x = Some i then x\<lparr>vs_supersedes := None\<rparr> else x) (vb_versions b1)" "vb_invoices c = vb_invoices b1"
    using assms(1) v by (auto simp: discardVersion_def b1_def)
  have gone: "vs_status x = ''draft''" if "x \<in> set (vb_versions b)" "vs_id x = i" for x
    using version_Some [OF _ that] assms(2) v by (simp add: ver_ok_def)
  have kept: "\<exists>x\<in>set (vb_versions b1). vs_id x = j \<and> vs_status x \<noteq> ''draft''" if "0 < vb_invoices b1 j" for j
  proof -
    have j: "0 < vb_invoices b j" using that by (simp add: b1_def)
    then have "j \<noteq> i" using v(3) by auto
    moreover obtain x where "x \<in> set (vb_versions b)" "vs_id x = j" "vs_status x \<noteq> ''draft''" using ver_okD(2) [OF assms(2) j] by blast
    ultimately show ?thesis by (auto simp: b1_def)
  qed
  have "distinct (map vs_id (vb_versions b1))" using assms(2) by (simp add: b1_def ver_ok_def distinct_map_filter)
  moreover have "set (vb_versions b1) \<subseteq> set (vb_versions b)" by (auto simp: b1_def)
  ultimately have "ver_ok b1" using assms(2) kept unfolding ver_ok_def by blast
  moreover have "keeps_lines b b1" using gone by (auto simp: keeps_lines_def b1_def)
  moreover have "ver_ok c \<and> keeps_lines b1 c"
    by (rule mapped_versions [OF \<open>ver_ok b1\<close> c]) (use \<open>ver_ok b1\<close> in \<open>auto simp: ver_ok_def split: if_splits\<close>)
  ultimately show ?thesis using keeps_lines_trans by blast
qed

lemma version_step_ok:
  assumes "version_step b c" "ver_ok b"
  shows "ver_ok c \<and> keeps_lines b c"
  using assms
proof (induction rule: version_step.induct)
  case (raised i b v)
  then have "\<exists>w\<in>set (vb_versions b). vs_id w = i \<and> vs_status w \<noteq> ''draft''" using version_in by force
  with raised show ?case by (auto simp: ver_ok_def keeps_lines_def)
qed (simp_all add: create_ok put_ok activate_ok discard_ok)

lemma version_steps_ok: "version_step\<^sup>*\<^sup>* b c \<Longrightarrow> ver_ok b \<Longrightarrow> ver_ok c \<and> keeps_lines b c"
proof (induction rule: rtranclp_induct)
  case base
  then show ?case by (auto simp: keeps_lines_def)
next
  case (step c d)
  then show ?case using version_step_ok keeps_lines_trans by blast
qed

definition no_versions :: "(string \<times> FeeLine list) list \<Rightarrow> Versions" where
  "no_versions live = \<lparr>vb_versions = [], vb_structures = live, vb_invoices = (\<lambda>_. 0)\<rparr>"

lemma no_versions_ok: "ver_ok (no_versions live)"
  by (simp add: ver_ok_def no_versions_def)

lemma one_elem:
  assumes "distinct xs" "\<forall>x\<in>set xs. \<forall>y\<in>set xs. x = y"
  shows "length xs \<le> 1"
proof -
  have "card (set xs) \<le> 1" using assms(2) by (intro card_le_Suc0_iff_eq [THEN iffD2, simplified One_nat_def [symmetric]]) simp_all
  then show ?thesis using assms(1) by (simp add: distinct_card)
qed


subsection \<open>Applied to one school\<close>

definition demo_line :: FeeLine where
  "demo_line = \<lparr>fl_head = ''TUITION'', fl_instalment = 1, fl_amount = 500000, fl_due = None\<rparr>"

definition demo_draft :: Versions where
  "demo_draft = the (createVersion ''V1'' ''S'' None ''2026-04-01'' (no_versions [(''S'', [demo_line])]))"

definition demo_active :: Versions where "demo_active = the (activateVersion ''V1'' demo_draft)"

definition demo_billed :: Versions where
  "demo_billed = demo_active\<lparr>vb_invoices := (vb_invoices demo_active)(''V1'' := vb_invoices demo_active ''V1'' + 1)\<rparr>"

lemma demo_versions:
  "\<not> Option.is_none (createVersion ''V1'' ''S'' None ''2026-04-01'' (no_versions [(''S'', [demo_line])]))"
  "\<not> Option.is_none (activateVersion ''V1'' demo_draft)"
  "map_option vs_status (version ''V1'' demo_active) = Some ''active''" "0 < vb_invoices demo_billed ''V1''"
  "\<not> Option.is_none (createVersion ''V2'' ''S'' None ''2027-04-01'' demo_billed)" "''V2'' \<notin> vs_id ` set (vb_versions demo_billed)"
  "vb_invoices demo_billed ''V2'' = 0"
  by (simp_all add: demo_billed_def demo_active_def demo_draft_def createVersion_def activateVersion_def set_version_def version_def
    of_structure_def no_versions_def demo_line_def Let_def)

lemma some_the: "\<not> Option.is_none x \<Longrightarrow> x = Some (the x)"
  by (cases x) simp_all


text \<open>Two late invoices of one student, and a rule of two percent charged once.\<close>

definition demo_rule :: FineRule where
  "demo_rule = \<lparr>fr_id = ''R'', fr_name = ''Late fee'', fr_campusId = None, fr_structureId = None, fr_feeHeadId = None, fr_kind = ''percent'',
     fr_graceDays = 5, fr_amountPaise = 0, fr_percentBP = basisPoints (Some 2), fr_capPaise = None, fr_compound = ''none'', fr_applyMode = ''per_invoice'',
     fr_exemptKinds = [''rte''], fr_priority = 100, fr_active = True\<rparr>"

definition demo_bill :: "string \<Rightarrow> string \<Rightarrow> Bill" where
  "demo_bill i due = \<lparr>iv_id = i, iv_no = i, iv_student = ''S1'', iv_issued_on = ''2026-04-01'', iv_due_on = Some due, iv_gross = 1000000,
     iv_discount = 0, iv_fine = 0, iv_net = 1000000, iv_paid = 0, iv_status = ''unpaid'', bl_campus = ''C'', bl_year = ''Y'', bl_structure = None, bl_version = None\<rparr>"

definition demo_fines :: "FineRule \<Rightarrow> FineBooks" where
  "demo_fines r = \<lparr>fb_bills = [demo_bill ''I1'' ''2026-04-10'', demo_bill ''I2'' ''2026-10-10''], fb_charges = [], fb_rules = [r],
     fb_heads = (\<lambda>_. []), fb_concessions = [], fb_allocs = []\<rparr>"

definition apply_on :: "string \<Rightarrow> string \<Rightarrow> FineBooks \<Rightarrow> FineBooks" where
  "apply_on day cid b = (case applyFines day day (\<lambda>_. True) [''I1''] None (\<lambda>_. cid) b of Some (c, _, _) \<Rightarrow> c | None \<Rightarrow> b)"

definition fines_of :: "FineBooks \<Rightarrow> (string \<times> int) list" where
  "fines_of b = map (\<lambda>v. (iv_id v, iv_fine v)) (fb_bills b)"

text \<open>
  A fine that has been applied does not reach the bill: the statement that adds it computes the net
  from the fine as it was, so 200 rupees stand in the fine column, the family is told they were
  added, and the invoice still asks for its 10,000, that day and at every later assessment.
\<close>
theorem applied_fine_misses_the_net:
  "let b = apply_on ''2026-04-20'' ''F1'' (demo_fines demo_rule); c = apply_on ''2026-04-21'' ''F2'' b
   in fines_of b = [(''I1'', 20000), (''I2'', 0)] \<and> map iv_net (fb_bills b) = [1000000, 1000000]
    \<and> map iv_net (fb_bills c) = [1000000, 1000000] \<and> fines_of c = fines_of b"
  by code_simp

text \<open>
  Waiving a fine that a final-term rule put on the year's last instalment takes nothing off that
  instalment: the charge says waived, and the family still owes it.
\<close>
theorem waiver_misses_the_last_instalment:
  "let b = apply_on ''2026-04-20'' ''F1'' (demo_fines (demo_rule\<lparr>fr_applyMode := ''final_term''\<rparr>)); c = the (waiveFine ''2026-04-22'' ''mistake'' ''F1'' b)
   in fines_of b = [(''I1'', 0), (''I2'', 20000)] \<and> map fc_status (fb_charges c) = [''waived''] \<and> fines_of c = [(''I1'', 0), (''I2'', 20000)]"
  by code_simp

lemma fine_within_rule_witness:
  "0 \<le> fa_delta (assessFine (subject_of (demo_fines demo_rule) (demo_bill ''I1'' ''2026-04-10'')) demo_rule ''2026-04-20'')"
  using fine_within_rule [of "subject_of (demo_fines demo_rule) (demo_bill ''I1'' ''2026-04-10'')" demo_rule "''2026-04-20''"]
  by (simp add: subject_of_def demo_rule_def Let_def)

lemma demo_applied: "Option.is_none (applyFines ''2026-04-20'' ''2026-04-20'' (\<lambda>_. True) [''I1''] None (\<lambda>_. ''F1'') (demo_fines demo_rule)) = False"
  by code_simp


end
