(* ===== verification/FileFormats.thy ===== *)
theory FileFormats
  imports Money
begin

text \<open>
  The file formats of the finance routes, \<open>worker/src/routes/fees/fileformats.ts\<close>: amounts and dates
  as banks write them, CSV read and written, bank statements and scholarship files row by row,
  payout and claim files, Tally's XML.  A JavaScript string is here what it is there, a list of UTF-16
  code units; \<open>U\<close> turns a literal into one.  \<open>lower\<close>, \<open>upper\<close> (the engine's case tables, on text that
  is only hashed or written out) and \<open>sha\<close> (SHA-256) are parameters.
\<close>

subsection \<open>Strings\<close>

type_synonym units = "nat list"

definition U :: "string \<Rightarrow> units" where
  "U s = map of_char s"

definition go_space :: "nat \<Rightarrow> bool" where
  "go_space n \<longleftrightarrow> int n \<in> {9, 10, 11, 12, 13, 32, 133, 160, 5760, 8232, 8233, 8239, 8287, 12288} \<or> (8192 \<le> int n \<and> int n \<le> 8202)"

definition strip :: "('a \<Rightarrow> bool) \<Rightarrow> 'a list \<Rightarrow> 'a list" where
  "strip p s = rev (dropWhile p (rev (dropWhile p s)))"

definition goTrimSpace :: "units \<Rightarrow> units" where
  "goTrimSpace s = strip go_space s"

fun split_on :: "('a \<Rightarrow> bool) \<Rightarrow> 'a list \<Rightarrow> 'a list list" where
  "split_on p [] = [[]]"
| "split_on p (c # s) = (if p c then [] # split_on p s else case split_on p s of w # ws \<Rightarrow> (c # w) # ws | [] \<Rightarrow> [[c]])"

definition goFields :: "units \<Rightarrow> units list" where
  "goFields s = filter (\<lambda>w. w \<noteq> []) (split_on go_space (goTrimSpace s))"

fun join_with :: "'a list \<Rightarrow> 'a list list \<Rightarrow> 'a list" where
  "join_with sep [] = []"
| "join_with sep [x] = x"
| "join_with sep (x # y # xs) = x @ sep @ join_with sep (y # xs)"

definition goTrim :: "units \<Rightarrow> string \<Rightarrow> units" where
  "goTrim s cutset = strip (\<lambda>c. c \<in> set (U cutset)) s"

fun has_prefix :: "'a list \<Rightarrow> 'a list \<Rightarrow> bool" where
  "has_prefix s [] = True"
| "has_prefix [] (c # p) = False"
| "has_prefix (d # s) (c # p) = (c = d \<and> has_prefix s p)"

text \<open>The code points of a string; a surrogate without its partner stands for itself.\<close>

fun code_points :: "units \<Rightarrow> nat list" where
  "code_points (a # b # s) =
    (if 55296 \<le> a \<and> a \<le> 56319 \<and> 56320 \<le> b \<and> b \<le> 57343 then (65536 + (a - 55296) * 1024 + (b - 56320)) # code_points s
     else a # code_points (b # s))"
| "code_points s = s"

definition of_code_point :: "nat \<Rightarrow> units" where
  "of_code_point c = (if c < 65536 then [c] else [55296 + (c - 65536) div 1024, 56320 + (c - 65536) mod 1024])"

definition is_surrogate :: "nat \<Rightarrow> bool" where
  "is_surrogate c \<longleftrightarrow> 55296 \<le> c \<and> c \<le> 57343"

text \<open>UTF-8: \<open>TextEncoder\<close> writes a lone surrogate as the three bytes of U+FFFD.\<close>

definition utf8_len :: "nat \<Rightarrow> nat" where
  "utf8_len c = (if c < 128 then 1 else if c < 2048 then 2 else if c < 65536 then 3 else 4)"

definition byteLen :: "units \<Rightarrow> nat" where
  "byteLen s = (\<Sum>c\<leftarrow>code_points s. utf8_len c)"

text \<open>
  For evaluation: comparisons with large characters on binary numbers.
\<close>
lemma utf8_len_code [code]:
  "utf8_len c = (let i = int c in if i < 128 then 1 else if i < 2048 then 2 else if i < 65536 then 3 else 4)"
  by (simp add: utf8_len_def Let_def)

lemma code_points_code [code]:
  "code_points [] = []" "code_points [a] = [a]"
  "code_points (a # b # s) =
    (let i = int a; j = int b in
     if 55296 \<le> i \<and> i \<le> 56319 \<and> 56320 \<le> j \<and> j \<le> 57343 then nat (65536 + (i - 55296) * 1024 + (j - 56320)) # code_points s
     else a # code_points (b # s))"
  by (auto simp: Let_def nat_add_distrib nat_mult_distrib nat_diff_distrib)

fun clip_points :: "nat \<Rightarrow> nat list \<Rightarrow> nat list" where
  "clip_points n [] = []"
| "clip_points n (c # cs) = (if utf8_len c \<le> n then c # clip_points (n - utf8_len c) cs else [])"

definition clipRaw :: "units \<Rightarrow> nat \<Rightarrow> units" where
  "clipRaw s n = (if byteLen s \<le> n then s
     else concat (map (\<lambda>c. if is_surrogate c then [65533] else of_code_point c) (clip_points n (code_points s))))"

subsection \<open>Money\<close>

definition rupeeString :: "int \<Rightarrow> units" where
  "rupeeString p = (if p < 0 then U ''-'' else []) @ U (js_int (\<bar>p\<bar> div 100)) @ U ''.'' @ U (padStart 2 (CHR ''0'') (js_int (\<bar>p\<bar> mod 100)))"

datatype AmountError = AmountUnparseable | AmountTooPrecise

definition all_digits :: "units \<Rightarrow> bool" where
  "all_digits s \<longleftrightarrow> s \<noteq> [] \<and> list_all (\<lambda>c. 48 \<le> c \<and> c \<le> 57) s"

definition digit_units_value :: "units \<Rightarrow> int" where
  "digit_units_value s = foldl (\<lambda>n c. 10 * n + (int c - 48)) 0 s"

text \<open>\<open>up.endsWith ('DR')\<close>: only \<open>d\<close> and \<open>r\<close> have these capitals.\<close>

definition ends_ci :: "units \<Rightarrow> nat \<Rightarrow> nat \<Rightarrow> bool" where
  "ends_ci s a b = (case rev s of y # x # _ \<Rightarrow> (x = a \<or> x = a + 32) \<and> (y = b \<or> y = b + 32) | _ \<Rightarrow> False)"

definition drop_prefix :: "string \<Rightarrow> units \<Rightarrow> units" where
  "drop_prefix p s = (if has_prefix s (U p) then drop (length p) s else s)"

text \<open>The digits that are left: whole and fraction, and the guard that keeps paise below \<open>2 ^ 53\<close>.\<close>

definition paise_of_digits :: "bool \<Rightarrow> units \<Rightarrow> AmountError + int" where
  "paise_of_digits neg s =
    (let whole0 = takeWhile (\<lambda>c. c \<noteq> 46) s; frac0 = (case dropWhile (\<lambda>c. c \<noteq> 46) s of [] \<Rightarrow> [] | _ # f \<Rightarrow> f) in
     if whole0 = [] \<and> frac0 = [] then Inl AmountUnparseable
     else let whole = (if whole0 = [] then [48] else whole0) in
     if \<not> all_digits whole \<or> (frac0 \<noteq> [] \<and> \<not> all_digits frac0) then Inl AmountUnparseable
     else if 2 < length frac0 \<and> goTrim (drop 2 frac0) ''0'' \<noteq> [] then Inl AmountTooPrecise
     else let frac = (if frac0 = [] then [48, 48] else if length frac0 = 1 then frac0 @ [48] else take 2 frac0);
              rupees = digit_units_value whole in
     if 19 < length whole \<or> MAX_SAFE div 100 - 1 < rupees then Inl AmountUnparseable
     else let v = rupees * 100 + digit_units_value frac in Inr (if neg then - v else v))"

definition paiseFromDecimal :: "units \<Rightarrow> AmountError + int" where
  "paiseFromDecimal raw =
    (let s0 = goTrimSpace raw in
     if s0 = [] then Inl AmountUnparseable
     else let paren = (hd s0 = 40 \<and> last s0 = 41);
              s1 = (if paren then goTrimSpace (butlast (tl s0)) else s0);
              dr = ends_ci s1 68 82;
              s2 = (if dr \<or> ends_ci s1 67 82 then goTrimSpace (take (length s1 - 2) s1) else s1);
              s3 = filter (\<lambda>c. int c \<notin> {44, 32, 160, 8377}) s2;
              s4 = fold drop_prefix [''INR'', ''inr'', ''Rs.'', ''RS.'', ''rs.'', ''Rs'', ''RS'', ''rs''] s3;
              neg = (paren \<or> dr)
          in case s4 of
               [] \<Rightarrow> Inl AmountUnparseable
             | c # r \<Rightarrow>
                 if c = 45 then (if r = [] then Inl AmountUnparseable else paise_of_digits (\<not> neg) r)
                 else if c = 43 then (if r = [] then Inl AmountUnparseable else paise_of_digits neg r)
                 else paise_of_digits neg s4)"

subsection \<open>Dates\<close>

definition SHORT_MONTHS :: "string list" where
  "SHORT_MONTHS = [''jan'', ''feb'', ''mar'', ''apr'', ''may'', ''jun'', ''jul'', ''aug'', ''sep'', ''oct'', ''nov'', ''dec'']"

definition STATEMENT_DATE_LAYOUTS :: "string list" where
  "STATEMENT_DATE_LAYOUTS = [''2006-01-02'', ''02/01/2006'', ''02-01-2006'', ''02.01.2006'', ''02/01/06'', ''02-01-06'', ''02-Jan-2006'',
     ''02 Jan 2006'', ''02-Jan-06'', ''2006/01/02'', ''20060102'']"

text \<open>\<open>Date.UTC\<close> takes the years 0 to 99 for 1900 to 1999.\<close>

definition daysIn :: "int \<Rightarrow> int \<Rightarrow> int" where
  "daysIn y0 m = (let y = (if 0 \<le> y0 \<and> y0 \<le> 99 then 1900 + y0 else y0)
     in (if m = 12 then days_of_civil (y + 1) 1 1 else days_of_civil y (m + 1) 1) - days_of_civil y m 1)"

text \<open>
  Case does not matter to a comparison with an ASCII word beyond the letters A to Z and the two
  characters whose small letters are or begin with ASCII ones, U+212A and U+0130.
\<close>

definition lower_units :: "units \<Rightarrow> units" where
  "lower_units s = concat (map (\<lambda>c. if 65 \<le> c \<and> c \<le> 90 then [c + 32] else if c = 8490 then [107] else if c = 304 then [105, 775] else [c]) s)"

lemma lower_units_code [code]:
  "lower_units s = concat (map (\<lambda>c. let i = int c in if 65 \<le> i \<and> i \<le> 90 then [c + 32] else if i = 8490 then [107] else if i = 304 then [105, 775] else [c]) s)"
proof -
  have eq: "int c = 8490 \<longleftrightarrow> c = 8490" "int c = 304 \<longleftrightarrow> c = 304" for c :: nat by presburger+
  show ?thesis unfolding lower_units_def Let_def eq by simp
qed

definition month_index :: "units \<Rightarrow> int option" where
  "month_index p = map_option (\<lambda>i. int i + 1) (find (\<lambda>i. U (SHORT_MONTHS ! i) = p) [0..<12])"

definition two_digits :: "units \<Rightarrow> int option" where
  "two_digits v = (if 2 \<le> length v \<and> all_digits (take 2 v) then Some (digit_units_value (take 2 v)) else None)"

function time_loop :: "units \<Rightarrow> units \<Rightarrow> int \<times> int \<times> int \<Rightarrow> (int \<times> int \<times> int) option" where
  "time_loop layout v (y, m, d) =
    (if layout = [] then (if v = [] then Some (y, m, d) else None)
     else if has_prefix layout (U ''2006'') then
       (if 4 \<le> length v \<and> all_digits (take 4 v) then time_loop (drop 4 layout) (drop 4 v) (digit_units_value (take 4 v), m, d) else None)
     else if has_prefix layout (U ''Jan'') then
       (case month_index (lower_units (take 3 v)) of Some k \<Rightarrow> time_loop (drop 3 layout) (drop 3 v) (y, k, d) | None \<Rightarrow> None)
     else if has_prefix layout (U ''01'') then
       (case two_digits v of Some n \<Rightarrow> if n < 1 \<or> 12 < n then None else time_loop (drop 2 layout) (drop 2 v) (y, n, d) | None \<Rightarrow> None)
     else if has_prefix layout (U ''02'') then
       (case two_digits v of Some n \<Rightarrow> if n < 1 \<or> 31 < n then None else time_loop (drop 2 layout) (drop 2 v) (y, m, n) | None \<Rightarrow> None)
     else if has_prefix layout (U ''06'') then
       (case two_digits v of Some n \<Rightarrow> time_loop (drop 2 layout) (drop 2 v) (if 69 \<le> n then n + 1900 else n + 2000, m, d) | None \<Rightarrow> None)
     else case v of [] \<Rightarrow> None | c # r \<Rightarrow> if c = hd layout then time_loop (tl layout) r (y, m, d) else None)"
  by pat_completeness auto
termination by (relation "measure (\<lambda>(l, _, _). length l)") (auto simp: U_def dest!: neq_Nil_conv [THEN iffD1] split: if_splits)

declare time_loop.simps [simp del]

definition iso_units :: "int \<Rightarrow> int \<Rightarrow> int \<Rightarrow> units" where
  "iso_units y m d = U (padStart 4 (CHR ''0'') (js_int y) @ ''-'' @ padStart 2 (CHR ''0'') (js_int m) @ ''-'' @ padStart 2 (CHR ''0'') (js_int d))"

definition goTimeParse :: "string \<Rightarrow> units \<Rightarrow> units option" where
  "goTimeParse layout value =
    (case time_loop (U layout) value (-1, -1, -1) of None \<Rightarrow> None
     | Some (y, m, d) \<Rightarrow> if daysIn y m < d then None else Some (iso_units y m d))"

fun first_some :: "('a \<Rightarrow> 'b option) \<Rightarrow> 'a list \<Rightarrow> 'b option" where
  "first_some f [] = None"
| "first_some f (x # xs) = (case f x of Some y \<Rightarrow> Some y | None \<Rightarrow> first_some f xs)"

definition parse_layouts :: "units \<Rightarrow> units option" where
  "parse_layouts s = first_some (\<lambda>l. goTimeParse l s) STATEMENT_DATE_LAYOUTS"

text \<open>The part before the first blank or \<open>T\<close> has neither, so the call on it goes no further.\<close>

definition parseStatementDate :: "units \<Rightarrow> units option" where
  "parseStatementDate raw =
    (let s = goTrimSpace raw; day = takeWhile (\<lambda>c. c \<noteq> 32 \<and> c \<noteq> 84) s in
     if s = [] then None
     else case (if day \<noteq> [] \<and> day \<noteq> s \<and> 10 < byteLen s \<and> goTrimSpace day \<noteq> [] then parse_layouts (goTrimSpace day) else None) of
       Some t \<Rightarrow> Some t | None \<Rightarrow> parse_layouts s)"

subsection \<open>CSV\<close>

text \<open>The rest of a quoted field: what it holds, and what follows its comma (\<open>None\<close> at the end of the line).\<close>

fun quoted :: "units \<Rightarrow> (units \<times> units option) option" where
  "quoted [] = None"
| "quoted (c # s) =
    (if c = 34 then
       (case s of [] \<Rightarrow> Some ([], None)
        | d # r \<Rightarrow> if d = 34 then map_option (\<lambda>(f, t). (34 # f, t)) (quoted r) else if d = 44 then Some ([], Some r) else None)
     else map_option (\<lambda>(f, t). (c # f, t)) (quoted s))"

lemma quoted_shorter: "quoted s = Some (f, Some t) \<Longrightarrow> length t < length s"
proof (induction s arbitrary: f rule: quoted.induct)
  case (2 c s)
  then show ?case by (force split: if_splits list.splits)
qed simp

function read_fields :: "units \<Rightarrow> units list option" where
  "read_fields line =
    (if line \<noteq> [] \<and> hd line = 34 then
       (case quoted (tl line) of None \<Rightarrow> None
        | Some (f, None) \<Rightarrow> Some [f]
        | Some (f, Some t) \<Rightarrow> map_option (Cons f) (read_fields t))
     else let f = takeWhile (\<lambda>c. c \<noteq> 44) line in
       if 34 \<in> set f then None
       else case dropWhile (\<lambda>c. c \<noteq> 44) line of [] \<Rightarrow> Some [f] | _ # t \<Rightarrow> map_option (Cons f) (read_fields t))"
  by auto
termination
proof (relation "measure length", goal_cases)
  case (2 line x y t)
  then show ?case using quoted_shorter by (fastforce simp: less_Suc_eq neq_Nil_conv)
next
  case (3 line f c t)
  then have "length (c # t) \<le> length line" by (metis length_dropWhile_le)
  then show ?case by simp
qed simp

declare read_fields.simps [simp del]

definition goCsvReadLine :: "units \<Rightarrow> units list option" where
  "goCsvReadLine line0 =
    (let line = (if line0 \<noteq> [] \<and> last line0 = 13 then butlast line0 else line0)
     in if line = [] then None else read_fields line)"

definition needs :: "units \<Rightarrow> bool" where
  "needs f \<longleftrightarrow> f \<noteq> [] \<and> (f = [92, 46] \<or> set f \<inter> {10, 13, 34, 44} \<noteq> {} \<or> go_space (hd f))"

definition write_field :: "units \<Rightarrow> units" where
  "write_field f = (if needs f then [34] @ concat (map (\<lambda>c. if c = 34 then [34, 34] else [c]) f) @ [34] else f)"

definition write_row :: "units list \<Rightarrow> units" where
  "write_row r = join_with [44] (map write_field r)"

definition goCsvWrite :: "units list list \<Rightarrow> units" where
  "goCsvWrite rows = concat (map (\<lambda>r. write_row r @ [10]) rows)"

subsection \<open>Bank statements\<close>

type_synonym aliases = "(string \<times> string list) list"

type_synonym cols = "(string \<times> nat) list"

definition HEADER_ALIASES :: aliases where
  "HEADER_ALIASES =
    [(''date'', [''date'', ''txn date'', ''transaction date'', ''tran date'', ''txndate'', ''posting date'', ''date of transaction'']),
     (''valuedate'', [''value date'', ''value dt'', ''valuedate'']),
     (''narration'', [''narration'', ''description'', ''particulars'', ''details'', ''remarks'', ''transaction remarks'']),
     (''reference'', [''ref'', ''reference'', ''reference no'', ''ref no'', ''chq no'', ''cheque no'', ''chq/ref no'', ''cheque/reference no'', ''utr'',
        ''transaction id'', ''txn id'']),
     (''debit'', [''debit'', ''withdrawal'', ''withdrawal amt'', ''withdrawal amount'', ''withdrawal amt.'', ''dr'', ''debit amount'', ''paid out'']),
     (''credit'', [''credit'', ''deposit'', ''deposit amt'', ''deposit amount'', ''deposit amt.'', ''cr'', ''credit amount'', ''paid in'']),
     (''amount'', [''amount'', ''txn amount'', ''transaction amount'']),
     (''balance'', [''balance'', ''closing balance'', ''running balance'', ''balance amt''])]"

text \<open>A cell of the header, already normalised: each field takes the first column that names it.\<close>

definition map_cell :: "aliases \<Rightarrow> nat \<times> units \<Rightarrow> cols \<Rightarrow> cols" where
  "map_cell al ic cols = fold (\<lambda>(f, names) cs. if snd ic \<in> U ` set names \<and> map_of cs f = None then cs @ [(f, fst ic)] else cs) al cols"

definition has_col :: "cols \<Rightarrow> string \<Rightarrow> bool" where
  "has_col cols f \<longleftrightarrow> map_of cols f \<noteq> None"

definition header_norm :: "units \<Rightarrow> units" where
  "header_norm cell = join_with [32] (goFields (goTrim (lower_units (goTrimSpace cell)) ''.:''))"

definition mapStatementHeader :: "units list \<Rightarrow> cols option" where
  "mapStatementHeader rec =
    (let cols = fold (map_cell HEADER_ALIASES) (filter (\<lambda>ic. snd ic \<noteq> []) (enumerate 0 (map header_norm rec))) []
     in if has_col cols ''date'' \<and> (has_col cols ''amount'' \<or> has_col cols ''debit'' \<or> has_col cols ''credit'') then Some cols else None)"

definition cellAt :: "units list \<Rightarrow> cols \<Rightarrow> string \<Rightarrow> units" where
  "cellAt rec cols f = (case map_of cols f of None \<Rightarrow> [] | Some i \<Rightarrow> if length rec \<le> i then [] else goTrimSpace (rec ! i))"

record 'h ImportedLine =
  il_txnDate :: units
  il_valueDate :: "units option"
  il_narration :: units
  il_reference :: units
  il_amount :: int
  il_balance :: "int option"
  il_raw :: units
  il_lineNo :: nat
  il_hash :: "'h option"

text \<open>Why a row is rejected; the code puts the same into words.\<close>

datatype RowError = NotCsv | BadDate units | BothAmounts | BadAmount string units AmountError | NoAmount | ZeroAmount

definition amount_cell :: "string \<Rightarrow> (int \<Rightarrow> int) \<Rightarrow> units \<Rightarrow> RowError + int" where
  "amount_cell label f cell = (case paiseFromDecimal cell of Inl e \<Rightarrow> Inl (BadAmount label cell e) | Inr n \<Rightarrow> Inr (f n))"

definition parseStatementRow :: "units list \<Rightarrow> cols \<Rightarrow> nat \<Rightarrow> units \<Rightarrow> RowError + 'h ImportedLine" where
  "parseStatementRow rec cols lineNo raw =
    (let at0 = cellAt rec cols; debit = at0 ''debit''; credit = at0 ''credit'' in
     case parseStatementDate (at0 ''date'') of
       None \<Rightarrow> Inl (BadDate (at0 ''date''))
     | Some txn \<Rightarrow>
        let amount = (if debit \<noteq> [] \<and> credit \<noteq> [] then Inl BothAmounts
              else if debit \<noteq> [] then amount_cell ''debit'' (\<lambda>n. - \<bar>n\<bar>) debit
              else if credit \<noteq> [] then amount_cell ''credit'' abs credit
              else if at0 ''amount'' = [] then Inl NoAmount else amount_cell ''amount'' id (at0 ''amount''))
        in case amount of
             Inl e \<Rightarrow> Inl e
           | Inr n \<Rightarrow> if n = 0 then Inl ZeroAmount
              else Inr \<lparr>il_txnDate = txn, il_valueDate = parseStatementDate (at0 ''valuedate''), il_narration = at0 ''narration'',
                il_reference = at0 ''reference'', il_amount = n,
                il_balance = (if at0 ''balance'' = [] then None else case paiseFromDecimal (at0 ''balance'') of Inr b \<Rightarrow> Some b | Inl _ \<Rightarrow> None),
                il_raw = clipRaw raw 4000, il_lineNo = lineNo, il_hash = None\<rparr>)"

record tables =
  lower :: "units \<Rightarrow> units"
  upper :: "units \<Rightarrow> units"

text \<open>The text that is hashed.\<close>

definition hash_text :: "tables \<Rightarrow> units \<Rightarrow> int \<Rightarrow> units \<Rightarrow> units \<Rightarrow> nat \<Rightarrow> units" where
  "hash_text t txnDate amount narration reference ordinal =
    txnDate @ [124] @ U (js_int amount) @ [124] @ lower t (join_with [32] (goFields narration)) @ [124] @ upper t (goTrimSpace reference) @ [124]
      @ U (js_int (int ordinal))"

definition statementLineHash :: "(units \<Rightarrow> 'h) \<Rightarrow> tables \<Rightarrow> 'h ImportedLine \<Rightarrow> nat \<Rightarrow> 'h" where
  "statementLineHash sha t l ordinal = sha (hash_text t (il_txnDate l) (il_amount l) (il_narration l) (il_reference l) ordinal)"

fun newlines :: "units \<Rightarrow> units" where
  "newlines (a # b # s) = (if a = 13 \<and> b = 10 then 10 # newlines s else (if a = 13 then 10 else a) # newlines (b # s))"
| "newlines s = map (\<lambda>c. if c = 13 then 10 else c) s"

definition physical_lines :: "units \<Rightarrow> units list" where
  "physical_lines text0 = split_on (\<lambda>c. c = 10) (newlines text0)"

record 'h Reading =
  rd_cols :: "cols option"
  rd_rowsRead :: nat
  rd_parsed :: "'h ImportedLine list"
  rd_rejects :: "(nat \<times> RowError \<times> units) list"
  rd_seen :: "('h \<times> nat) list"

definition seen_count :: "('h \<times> nat) list \<Rightarrow> 'h \<Rightarrow> nat" where
  "seen_count seen k = (case map_of seen k of Some n \<Rightarrow> n | None \<Rightarrow> 0)"

text \<open>One round of the loop of \<open>parseStatement\<close>; \<open>i\<close> counts the physical lines from 0.\<close>

definition statement_line :: "(units \<Rightarrow> 'h) \<Rightarrow> tables \<Rightarrow> nat \<times> units \<Rightarrow> 'h Reading \<Rightarrow> 'h Reading" where
  "statement_line sha t il s =
    (let (i, line) = il in
     if goTrimSpace line = [] then s
     else case goCsvReadLine line of
       None \<Rightarrow> s\<lparr>rd_rejects := rd_rejects s @ [(i + 1, NotCsv, clipRaw line 500)]\<rparr>
     | Some rec \<Rightarrow>
        (case rd_cols s of
           None \<Rightarrow> s\<lparr>rd_cols := mapStatementHeader rec\<rparr>
         | Some cols \<Rightarrow>
            let s1 = s\<lparr>rd_rowsRead := rd_rowsRead s + 1\<rparr> in
            (case parseStatementRow rec cols (i + 1) line of
               Inl e \<Rightarrow> s1\<lparr>rd_rejects := rd_rejects s1 @ [(i + 1, e, clipRaw line 500)]\<rparr>
             | Inr pl \<Rightarrow>
                let key = statementLineHash sha t pl 0; ordinal = seen_count (rd_seen s1) key
                in s1\<lparr>rd_seen := (key, ordinal + 1) # rd_seen s1,
                     rd_parsed := rd_parsed s1 @ [pl\<lparr>il_hash := Some (statementLineHash sha t pl ordinal)\<rparr>]\<rparr>)))"

definition no_reading :: "'h Reading" where
  "no_reading = \<lparr>rd_cols = None, rd_rowsRead = 0, rd_parsed = [], rd_rejects = [], rd_seen = []\<rparr>"

definition parseStatement :: "(units \<Rightarrow> 'h) \<Rightarrow> tables \<Rightarrow> units \<Rightarrow> 'h Reading" where
  "parseStatement sha t text0 = fold (statement_line sha t) (enumerate 0 (physical_lines text0)) no_reading"

subsection \<open>Payout and claim files\<close>

record PayoutLine =
  pl_beneficiary :: units
  pl_account :: units
  pl_ifsc :: units
  pl_amount :: int
  pl_mode :: units
  pl_narration :: units

definition csvSafe :: "units \<Rightarrow> units" where
  "csvSafe s = map (\<lambda>c. if c = 44 \<or> c = 10 \<or> c = 13 then 32 else c) s"

definition payout_row :: "tables \<Rightarrow> PayoutLine \<Rightarrow> units" where
  "payout_row t l = join_with [44] [csvSafe (pl_beneficiary l), csvSafe (pl_account l), csvSafe (upper t (pl_ifsc l)), rupeeString (pl_amount l),
     csvSafe (upper t (pl_mode l)), csvSafe (pl_narration l)] @ [10]"

definition payoutFile :: "tables \<Rightarrow> units \<Rightarrow> PayoutLine list \<Rightarrow> units \<times> units" where
  "payoutFile t batchNo lines =
    (U ''payout-'' @ map (\<lambda>c. if c = 47 \<or> c = 32 then 45 else c) batchNo @ U ''.csv'',
     U ''Beneficiary Name,Account Number,IFSC,Amount,Mode,Narration'' @ [10] @ concat (map (payout_row t) lines))"

record ClaimFileRow =
  cl_admission :: units
  cl_name :: units
  cl_class :: units
  cl_category :: units
  cl_dob :: units
  cl_months :: int
  cl_rate :: int
  cl_claimed :: int

definition claim_rows :: "tables \<Rightarrow> ClaimFileRow list \<Rightarrow> units list list" where
  "claim_rows t rows =
    [map U [''S.No'', ''Admission No'', ''Student Name'', ''Class'', ''Category'', ''Date of Birth'', ''Months Claimed'', ''Annual Rate (INR)'', ''Amount Claimed (INR)'']]
    @ map (\<lambda>(i, v). [U (js_int (int i + 1)), cl_admission v, cl_name v, cl_class v, upper t (cl_category v), cl_dob v, U (js_int (cl_months v)),
         rupeeString (cl_rate v), rupeeString (cl_claimed v)]) (enumerate 0 rows)
    @ [[[], [], [], [], [], [], [], U ''Total'', rupeeString (\<Sum>v\<leftarrow>rows. cl_claimed v)]]"

definition claimFile :: "tables \<Rightarrow> units \<Rightarrow> units \<Rightarrow> ClaimFileRow list \<Rightarrow> units \<times> units" where
  "claimFile t claimNo periodStart rows =
    (U ''claim-'' @ map (\<lambda>c. if c \<in> {47, 32, 92, 34} then 45 else c) claimNo @ U ''-'' @ periodStart @ U ''.csv'', goCsvWrite (claim_rows t rows))"

subsection \<open>Scholarship disbursements\<close>

definition DISBURSEMENT_ALIASES :: aliases where
  "DISBURSEMENT_ALIASES =
    [(''application_ref'', [''application id'', ''application no'', ''application number'', ''applicationid'', ''app id'', ''nsp application id'', ''reference id'', ''application ref'']),
     (''student_name'', [''student name'', ''name of student'', ''beneficiary name'', ''name'', ''applicant name'', ''student'']),
     (''admission_no'', [''admission no'', ''admission number'', ''adm no'', ''enrolment no'', ''enrollment no'', ''roll no'', ''student id'']),
     (''amount'', [''amount'', ''amount disbursed'', ''disbursed amount'', ''scholarship amount'', ''credit amount'', ''amount (inr)'', ''amount in rs'', ''sanctioned amount'']),
     (''credited_on'', [''disbursement date'', ''credit date'', ''date of credit'', ''transaction date'', ''payment date'', ''date'']),
     (''bank_reference'', [''utr'', ''utr no'', ''utr number'', ''bank reference'', ''reference no'', ''transaction id'', ''txn id'', ''drt no'']),
     (''account_no'', [''account no'', ''account number'', ''bank account'', ''beneficiary account'', ''a/c no'', ''account'']),
     (''portal_status'', [''status'', ''payment status'', ''disbursement status'', ''remarks''])]"

definition mapDisbursementHeader :: "units list \<Rightarrow> cols option" where
  "mapDisbursementHeader rec =
    (let cols = fold (map_cell DISBURSEMENT_ALIASES) (enumerate 0 (map (\<lambda>c. goTrim (lower_units (goTrimSpace c)) ''*:# '') rec)) []
     in if has_col cols ''amount'' \<and> (has_col cols ''application_ref'' \<or> has_col cols ''admission_no'') then Some cols else None)"

record DisbursementLine =
  dl_lineNo :: nat
  dl_appRef :: units
  dl_name :: units
  dl_admission :: units
  dl_bankRef :: units
  dl_last4 :: units
  dl_stat :: units
  dl_amount :: int
  dl_credited :: "units option"
  dl_rawLine :: units

datatype DisbursementError = LineNotCsv | AmountUnread units | Negative | NamesNobody

definition alnum :: "nat \<Rightarrow> bool" where
  "alnum c \<longleftrightarrow> (48 \<le> c \<and> c \<le> 57) \<or> (65 \<le> c \<and> c \<le> 90) \<or> (97 \<le> c \<and> c \<le> 122)"

definition last4 :: "units \<Rightarrow> units" where
  "last4 acct = (let t = strip (\<lambda>c. \<not> alnum c) acct in if 4 \<le> byteLen t then (if length t \<le> 4 then t else drop (length t - 4) t) else [])"

text \<open>\<open>None\<close>: a row without an amount is passed over.\<close>

definition disbursement_row :: "units list \<Rightarrow> cols \<Rightarrow> nat \<Rightarrow> units \<Rightarrow> (DisbursementError + DisbursementLine) option" where
  "disbursement_row rec cols lineNo line =
    (let at0 = cellAt rec cols; raw = at0 ''amount'' in
     if raw = [] then None
     else Some (case paiseFromDecimal raw of
       Inl _ \<Rightarrow> Inl (AmountUnread raw)
     | Inr amt \<Rightarrow>
         if amt < 0 then Inl Negative
         else if at0 ''application_ref'' = [] \<and> at0 ''admission_no'' = [] then Inl NamesNobody
         else Inr \<lparr>dl_lineNo = lineNo, dl_appRef = at0 ''application_ref'', dl_name = at0 ''student_name'', dl_admission = at0 ''admission_no'',
           dl_bankRef = at0 ''bank_reference'', dl_last4 = (if at0 ''account_no'' = [] then [] else last4 (at0 ''account_no'')),
           dl_stat = at0 ''portal_status'', dl_amount = amt,
           dl_credited = (if at0 ''credited_on'' = [] then None else parseStatementDate (at0 ''credited_on'')), dl_rawLine = clipRaw line 800\<rparr>))"

definition disbursement_line :: "nat \<times> units \<Rightarrow> cols option \<times> DisbursementLine list \<times> (nat \<times> DisbursementError \<times> units) list
    \<Rightarrow> cols option \<times> DisbursementLine list \<times> (nat \<times> DisbursementError \<times> units) list" where
  "disbursement_line il s =
    (let (i, line) = il; (cols, parsed, rejects) = s in
     if goTrimSpace line = [] then s
     else case goCsvReadLine line of
       None \<Rightarrow> (cols, parsed, rejects @ [(i + 1, LineNotCsv, clipRaw line 300)])
     | Some rec \<Rightarrow>
        (case cols of None \<Rightarrow> (mapDisbursementHeader rec, parsed, rejects)
         | Some cs \<Rightarrow>
            (case disbursement_row rec cs (i + 1) line of
               None \<Rightarrow> s
             | Some (Inl e) \<Rightarrow> (cols, parsed, rejects @ [(i + 1, e, clipRaw line 800)])
             | Some (Inr p) \<Rightarrow> (cols, parsed @ [p], rejects))))"

definition parseDisbursements :: "units \<Rightarrow> cols option \<times> DisbursementLine list \<times> (nat \<times> DisbursementError \<times> units) list" where
  "parseDisbursements text0 = fold disbursement_line (enumerate 0 (physical_lines text0)) (None, [], [])"

subsection \<open>Tally\<close>

record TallyEntry =
  te_ledger :: units
  te_amount :: int

record TallyVoucher =
  tv_date :: units
  tv_type :: units
  tv_number :: units
  tv_narration :: units
  tv_entries :: "TallyEntry list"

datatype TallyError = NoCompany | NothingToExport | NoVoucherType units | TooFewEntries units nat | NoLedger units | ZeroLine units units | OutBy units int

text \<open>The first of the entries' faults, in order; then the balance.\<close>

fun entries_fault :: "units \<Rightarrow> TallyEntry list \<Rightarrow> TallyError option" where
  "entries_fault n [] = None"
| "entries_fault n (e # es) =
    (if goTrimSpace (te_ledger e) = [] then Some (NoLedger n) else if te_amount e = 0 then Some (ZeroLine n (te_ledger e)) else entries_fault n es)"

definition validateTallyVoucher :: "TallyVoucher \<Rightarrow> TallyError option" where
  "validateTallyVoucher v =
    (if goTrimSpace (tv_type v) = [] then Some (NoVoucherType (tv_number v))
     else if length (tv_entries v) < 2 then Some (TooFewEntries (tv_number v) (length (tv_entries v)))
     else case entries_fault (tv_number v) (tv_entries v) of
       Some e \<Rightarrow> Some e
     | None \<Rightarrow> (let b = (\<Sum>e\<leftarrow>tv_entries v. te_amount e) in if b \<noteq> 0 then Some (OutBy (tv_number v) b) else None))"

definition escape_point :: "nat \<Rightarrow> units" where
  "escape_point r =
    (if r = 34 then U ''&#34;'' else if r = 39 then U ''&#39;'' else if r = 38 then U ''&amp;'' else if r = 60 then U ''&lt;'' else if r = 62 then U ''&gt;''
     else if r = 9 then U ''&#x9;'' else if r = 10 then U ''&#xA;'' else if r = 13 then U ''&#xD;''
     else if (32 \<le> r \<and> r \<le> 55295) \<or> (57344 \<le> r \<and> r \<le> 65533) \<or> (65536 \<le> r \<and> r \<le> 1114111) then of_code_point r else [65533])"

definition xmlEscape :: "units \<Rightarrow> units" where
  "xmlEscape s = concat (map escape_point (code_points s))"

definition xml_el :: "nat \<Rightarrow> string \<Rightarrow> units \<Rightarrow> units" where
  "xml_el ind tag text0 = [10] @ replicate ind 32 @ U (''<'' @ tag @ ''>'') @ xmlEscape text0 @ U (''</'' @ tag @ ''>'')"

definition tally_entry :: "TallyEntry \<Rightarrow> units" where
  "tally_entry e = [10] @ U ''      <ALLLEDGERENTRIES.LIST>'' @ xml_el 7 ''LEDGERNAME'' (te_ledger e)
     @ xml_el 7 ''ISDEEMEDPOSITIVE'' (U (if te_amount e < 0 then ''Yes'' else ''No'')) @ xml_el 7 ''LEDGERFROMITEM'' (U ''No'')
     @ xml_el 7 ''REMOVEZEROENTRIES'' (U ''No'') @ xml_el 7 ''ISPARTYLEDGER'' (U ''No'') @ xml_el 7 ''AMOUNT'' (rupeeString (te_amount e))
     @ [10] @ U ''      </ALLLEDGERENTRIES.LIST>''"

definition tally_voucher :: "TallyVoucher \<Rightarrow> units" where
  "tally_voucher v =
    (let td = filter (\<lambda>c. c \<noteq> 45) (take 10 (tv_date v)) in
     [10] @ U ''    <TALLYMESSAGE xmlns:UDF='' @ [34] @ U ''TallyUDF'' @ [34] @ U ''>''
     @ [10] @ U ''     <VOUCHER VCHTYPE='' @ [34] @ xmlEscape (tv_type v) @ [34] @ U '' ACTION='' @ [34] @ U ''Create'' @ [34] @ U '' OBJVIEW='' @ [34]
     @ U ''Accounting Voucher View'' @ [34] @ U ''>''
     @ xml_el 6 ''DATE'' td @ xml_el 6 ''EFFECTIVEDATE'' td @ xml_el 6 ''VOUCHERTYPENAME'' (tv_type v) @ xml_el 6 ''VOUCHERNUMBER'' (tv_number v)
     @ (if tv_narration v \<noteq> [] then xml_el 6 ''NARRATION'' (tv_narration v) else [])
     @ concat (map tally_entry (tv_entries v))
     @ [10] @ U ''     </VOUCHER>'' @ [10] @ U ''    </TALLYMESSAGE>'')"

fun tally_messages :: "TallyVoucher list \<Rightarrow> TallyError + units" where
  "tally_messages [] = Inr []"
| "tally_messages (v # vs) =
    (case validateTallyVoucher v of Some e \<Rightarrow> Inl e
     | None \<Rightarrow> (case tally_messages vs of Inl e \<Rightarrow> Inl e | Inr m \<Rightarrow> Inr (tally_voucher v @ m)))"

definition renderTally :: "units \<Rightarrow> TallyVoucher list \<Rightarrow> TallyError + units" where
  "renderTally company vouchers =
    (if goTrimSpace company = [] then Inl NoCompany
     else if vouchers = [] then Inl NothingToExport
     else case tally_messages vouchers of
       Inl e \<Rightarrow> Inl e
     | Inr msgs \<Rightarrow> Inr (U ''<?xml version='' @ [34] @ U ''1.0'' @ [34] @ U '' encoding='' @ [34] @ U ''UTF-8'' @ [34] @ U ''?>'' @ [10] @ U ''<ENVELOPE>''
         @ [10] @ U '' <HEADER>'' @ xml_el 2 ''TALLYREQUEST'' (U ''Import Data'') @ [10] @ U '' </HEADER>'' @ [10] @ U '' <BODY>'' @ [10] @ U ''  <IMPORTDATA>''
         @ [10] @ U ''   <REQUESTDESC>'' @ xml_el 4 ''REPORTNAME'' (U ''Vouchers'') @ [10] @ U ''    <STATICVARIABLES>''
         @ xml_el 5 ''SVCURRENTCOMPANY'' company @ [10] @ U ''    </STATICVARIABLES>'' @ [10] @ U ''   </REQUESTDESC>'' @ [10] @ U ''   <REQUESTDATA>''
         @ msgs @ [10] @ U ''   </REQUESTDATA>'' @ [10] @ U ''  </IMPORTDATA>'' @ [10] @ U '' </BODY>'' @ [10] @ U ''</ENVELOPE>''))"

subsection \<open>Chunks of JSON\<close>

text \<open>\<open>jsonChunks\<close> on the rows already serialised: the groups they go in, and the text of one.\<close>

fun chunk_loop :: "nat \<Rightarrow> units list \<Rightarrow> nat \<Rightarrow> units list \<Rightarrow> units list list" where
  "chunk_loop maxBytes cur sz [] = (if cur \<noteq> [] then [cur] else [])"
| "chunk_loop maxBytes cur sz (s # rows) =
    (let n = byteLen s + 1 in
     if cur \<noteq> [] \<and> maxBytes < sz + n then cur # chunk_loop maxBytes [s] (2 + n) rows
     else chunk_loop maxBytes (cur @ [s]) (sz + n) rows)"

definition chunk_text :: "units list \<Rightarrow> units" where
  "chunk_text cur = [91] @ join_with [44] cur @ [93]"

definition jsonChunks :: "nat \<Rightarrow> units list \<Rightarrow> units list" where
  "jsonChunks maxBytes rows = map chunk_text (chunk_loop maxBytes [] 2 rows)"

end
