(* ===== verification/FormatProps.thy ===== *)
theory FormatProps
  imports FileFormats
begin

text \<open>
  What the formats promise: amounts and CSV rows read back as they were written, a bank statement
  accounts for every row and never repeats a hash, escaped XML holds no markup and reads back, a
  Tally file is written exactly when every voucher balances, chunks stay under their bytes.
\<close>

subsection \<open>Digits\<close>

lemma U_simps [simp]: "U [] = []" "U (c # s) = of_char c # U s" "U (s @ t) = U s @ U t" "length (U s) = length s"
  by (simp_all add: U_def)

lemma U_digit: "d < 10 \<Longrightarrow> U [digit_char d] = [48 + d]"
  by (simp add: U_def digit_char_def)

lemma digits_append: "digit_units_value (s @ [c]) = 10 * digit_units_value s + (int c - 48)"
  by (simp add: digit_units_value_def)

lemma tens_int: "10 * int (n div 10) + int (n mod 10) = int n"
  by (metis mult_div_mod_eq of_nat_add of_nat_mult of_nat_numeral)

lemma js_nat_units: "all_digits (U (js_nat n)) \<and> digit_units_value (U (js_nat n)) = int n"
proof (induction n rule: js_nat.induct)
  case (1 n)
  show ?case
  proof (cases "n < 10")
    case True
    then show ?thesis using U_digit [OF True] by (simp add: js_nat.simps [of n] all_digits_def digit_units_value_def)
  next
    case False
    have d: "n mod 10 < 10" by simp
    have e: "U (js_nat n) = U (js_nat (n div 10)) @ [48 + n mod 10]"
      using False U_digit [OF d] by (simp add: js_nat.simps [of n] del: U_simps(2))
    have IH: "all_digits (U (js_nat (n div 10)))" "digit_units_value (U (js_nat (n div 10))) = int (n div 10)" using "1.IH" False by auto
    have "digit_units_value (U (js_nat n)) = int n" unfolding e digits_append IH(2) using tens_int [of n] by simp
    moreover have "all_digits (U (js_nat n))" using IH(1) unfolding e all_digits_def by (simp add: less_Suc_eq_le)
    ultimately show ?thesis by blast
  qed
qed

lemma js_int_units: "0 \<le> i \<Longrightarrow> all_digits (U (js_int i)) \<and> digit_units_value (U (js_int i)) = i"
  using js_nat_units [of "nat i"] by (simp add: js_int_def)

lemma two_digit_units:
  assumes "0 \<le> i" "i < 100"
  obtains a b where "U (padStart 2 (CHR ''0'') (js_int i)) = [a, b]" "48 \<le> a" "a \<le> 57" "48 \<le> b" "b \<le> 57" "10 * (int a - 48) + (int b - 48) = i"
proof -
  define n where "n = nat i"
  have n: "i = int n" "n < 100" using assms by (simp_all add: n_def)
  have d: "n mod 10 < 10" "n div 10 < 10" using n by auto
  have "U (padStart 2 (CHR ''0'') (js_int i)) = [48 + n div 10, 48 + n mod 10]"
  proof (cases "n < 10")
    case True
    then show ?thesis using U_digit [of n] n by (simp add: js_int_def js_nat.simps [of n] padStart_def)
  next
    case False
    then have "js_nat n = [digit_char (n div 10), digit_char (n mod 10)]" using d by (simp add: js_nat.simps [of n] js_nat.simps [of "n div 10"])
    then show ?thesis using U_digit [OF d(1)] U_digit [OF d(2)] n by (simp add: js_int_def padStart_def)
  qed
  moreover have "10 * (int (48 + n div 10) - 48) + (int (48 + n mod 10) - 48) = i" unfolding n(1) using tens_int [of n] by simp
  ultimately show ?thesis using that d by simp
qed

lemma js_nat_length: "n < 10 ^ k \<Longrightarrow> 0 < k \<Longrightarrow> length (js_nat n) \<le> k"
proof (induction k arbitrary: n)
  case (Suc k)
  show ?case
  proof (cases "n < 10")
    case True
    then show ?thesis by (simp add: js_nat.simps [of n])
  next
    case False
    then have "0 < k" using Suc.prems(1) by (cases k) simp_all
    moreover have "n div 10 < 10 ^ k" using Suc.prems(1) by simp
    ultimately have "length (js_nat (n div 10)) \<le> k" using Suc.IH by blast
    with False show ?thesis by (simp add: js_nat.simps [of n])
  qed
qed simp

subsection \<open>Amounts\<close>

lemma strip_id: "s \<noteq> [] \<Longrightarrow> \<not> p (hd s) \<Longrightarrow> \<not> p (last s) \<Longrightarrow> strip p s = s"
proof -
  assume a: "s \<noteq> []" "\<not> p (hd s)" "\<not> p (last s)"
  then have "dropWhile p s = s" "dropWhile p (rev s) = rev s" by (simp_all add: dropWhile_eq_self_iff hd_rev)
  then show "strip p s = s" by (simp add: strip_def)
qed

text \<open>
  A whole part in digits and two decimals, which no clause of the reader but the last touches.
\<close>
lemma paise_of_digits_plain:
  assumes "all_digits w" "length w \<le> 19" "digit_units_value w \<le> MAX_SAFE div 100 - 1" "48 \<le> a" "a \<le> 57" "48 \<le> b" "b \<le> 57"
  shows "paise_of_digits neg (w @ [46, a, b]) =
    Inr ((if neg then - 1 else 1) * (digit_units_value w * 100 + (10 * (int a - 48) + (int b - 48))))"
proof -
  have w: "\<forall>c\<in>set w. c \<noteq> 46" "w \<noteq> []" using assms(1) by (auto simp: all_digits_def list_all_iff)
  have t: "takeWhile (\<lambda>c. c \<noteq> 46) (w @ [46, a, b]) = w" "dropWhile (\<lambda>c. c \<noteq> 46) (w @ [46, a, b]) = [46, a, b]"
    using w by (simp_all add: takeWhile_append2 dropWhile_append2)
  have ab: "all_digits [a, b]" "digit_units_value [a, b] = 10 * (int a - 48) + (int b - 48)"
    using assms(4-7) by (simp_all add: all_digits_def digit_units_value_def)
  show ?thesis unfolding paise_of_digits_def t using w(2) assms(1-3) ab by (simp add: Let_def)
qed

lemma prefixes_pass:
  assumes "48 \<le> hd s" "hd s \<le> 57" "s \<noteq> []"
  shows "fold drop_prefix [''INR'', ''inr'', ''Rs.'', ''RS.'', ''rs.'', ''Rs'', ''RS'', ''rs''] s = s"
    "fold drop_prefix [''INR'', ''inr'', ''Rs.'', ''RS.'', ''rs.'', ''Rs'', ''RS'', ''rs''] (45 # s) = 45 # s"
  using assms by (cases s; simp add: drop_prefix_def)+

lemma plain_reading:
  assumes "goTrimSpace s = s" "s = c # r" "c \<noteq> 40" "ends_ci s 68 82 = False" "ends_ci s 67 82 = False" "filter (\<lambda>c. int c \<notin> {44, 32, 160, 8377}) s = s"
    "fold drop_prefix [''INR'', ''inr'', ''Rs.'', ''RS.'', ''rs.'', ''Rs'', ''RS'', ''rs''] s = s"
  shows "paiseFromDecimal s = (if c = 45 then if r = [] then Inl AmountUnparseable else paise_of_digits True r
    else if c = 43 then if r = [] then Inl AmountUnparseable else paise_of_digits False r else paise_of_digits False s)"
proof -
  have h: "(hd s = 40 \<and> last s = 41) = False" "(s = []) = False" using assms(2,3) by auto
  have k: "\<And>f g. (case s of [] \<Rightarrow> f | x # y \<Rightarrow> g x y) = g c r" using assms(2) by simp
  show ?thesis
    unfolding paiseFromDecimal_def Let_def assms(1) h if_False assms(4,5) simp_thms assms(6,7) k ..
qed

lemma plain_amount:
  assumes "all_digits w" "length w \<le> 19" "digit_units_value w \<le> MAX_SAFE div 100 - 1" "48 \<le> a" "a \<le> 57" "48 \<le> b" "b \<le> 57"
  shows "paiseFromDecimal (w @ [46, a, b]) = Inr (digit_units_value w * 100 + (10 * (int a - 48) + (int b - 48)))"
    "paiseFromDecimal (45 # w @ [46, a, b]) = Inr (- (digit_units_value w * 100 + (10 * (int a - 48) + (int b - 48))))"
proof -
  obtain c v where w: "w = c # v" "48 \<le> c" "c \<le> 57" using assms(1) by (cases w) (auto simp: all_digits_def)
  have nsp: "\<not> go_space n" if "n = 45 \<or> (48 \<le> n \<and> n \<le> 57)" for n using that by (auto simp: go_space_def)
  let ?s = "w @ [46, a, b]"
  have dig: "\<forall>x\<in>set w. 48 \<le> x \<and> x \<le> 57" using assms(1) by (simp add: all_digits_def list_all_iff)
  have f: "filter (\<lambda>c. int c \<notin> {44, 32, 160, 8377}) ?s = ?s" using dig assms(4-7) by (intro filter_True) auto
  have ci: "ends_ci ?s 68 82 = False" "ends_ci ?s 67 82 = False" "ends_ci (45 # ?s) 68 82 = False" "ends_ci (45 # ?s) 67 82 = False"
    using assms(6,7) by (simp_all add: ends_ci_def)
  have ts: "goTrimSpace ?s = ?s" "goTrimSpace (45 # ?s) = 45 # ?s"
    unfolding goTrimSpace_def using w(2,3) assms(6,7) by (intro strip_id nsp; simp add: w(1))+
  note P = paise_of_digits_plain [OF assms]
  have fd: "fold drop_prefix [''INR'', ''inr'', ''Rs.'', ''RS.'', ''rs.'', ''Rs'', ''RS'', ''rs''] ?s = ?s"
    "fold drop_prefix [''INR'', ''inr'', ''Rs.'', ''RS.'', ''rs.'', ''Rs'', ''RS'', ''rs''] (45 # ?s) = 45 # ?s"
    using prefixes_pass [of ?s] w by simp_all
  have f': "filter (\<lambda>c. int c \<notin> {44, 32, 160, 8377}) (45 # ?s) = 45 # ?s" using f by simp
  obtain h t where ht: "?s = h # t" "h \<noteq> 40" "h \<noteq> 45" "h \<noteq> 43" using w by (cases ?s) auto
  show "paiseFromDecimal ?s = Inr (digit_units_value w * 100 + (10 * (int a - 48) + (int b - 48)))"
    using plain_reading [OF ts(1) ht(1,2) ci(1,2) f fd(1)] ht(3,4) P [of False] by simp
  show "paiseFromDecimal (45 # ?s) = Inr (- (digit_units_value w * 100 + (10 * (int a - 48) + (int b - 48))))"
    using plain_reading [OF ts(2) refl _ ci(3,4) f' fd(2)] P [of True] by simp
qed

text \<open>
  C33. An amount written into a payout or Tally file reads back as itself: every amount of paise, of
  either sign, up to the reader's own bound of ninety thousand billion rupees.
\<close>
theorem amount_roundtrip:
  assumes "\<bar>p\<bar> div 100 \<le> MAX_SAFE div 100 - 1"
  shows "paiseFromDecimal (rupeeString p) = Inr p"
proof -
  let ?w = "U (js_int (\<bar>p\<bar> div 100))"
  obtain a b where ab: "U (padStart 2 (CHR ''0'') (js_int (\<bar>p\<bar> mod 100))) = [a, b]" "48 \<le> a" "a \<le> 57" "48 \<le> b" "b \<le> 57"
    "10 * (int a - 48) + (int b - 48) = \<bar>p\<bar> mod 100" by (rule two_digit_units [of "\<bar>p\<bar> mod 100"]) auto
  have w: "all_digits ?w" "digit_units_value ?w = \<bar>p\<bar> div 100" using js_int_units [of "\<bar>p\<bar> div 100"] by (simp_all add: pos_imp_zdiv_nonneg_iff)
  have "nat (\<bar>p\<bar> div 100) < 10 ^ 19" using assms by (simp add: MAX_SAFE_def)
  then have len: "length ?w \<le> 19" using js_nat_length [of "nat (\<bar>p\<bar> div 100)" 19] by (simp add: js_int_def pos_imp_zdiv_nonneg_iff)
  have v: "digit_units_value ?w * 100 + (10 * (int a - 48) + (int b - 48)) = \<bar>p\<bar>" unfolding w(2) ab(6) by simp
  have r: "rupeeString p = (if p < 0 then [45] else []) @ ?w @ [46, a, b]" by (simp add: rupeeString_def ab(1))
  show ?thesis
    using plain_amount [OF w(1) len _ ab(2-5), unfolded v] assms unfolding r w(2) by (cases "p < 0") simp_all
qed

lemma amount_roundtrip_witness: "paiseFromDecimal (rupeeString (- 123405)) = Inr (- 123405)"
  by (rule amount_roundtrip) (simp add: MAX_SAFE_def)

subsection \<open>CSV\<close>

lemma sep_while:
  "c \<notin> set f \<Longrightarrow> takeWhile (\<lambda>x. x \<noteq> c) (f @ c # t) = f" "c \<notin> set f \<Longrightarrow> dropWhile (\<lambda>x. x \<noteq> c) (f @ c # t) = c # t"
  by (induction f) auto

lemma quoted_field:
  "quoted (concat (map (\<lambda>c. if c = 34 then [34, 34] else [c]) f) @ [34]) = Some (f, None)"
  "quoted (concat (map (\<lambda>c. if c = 34 then [34, 34] else [c]) f) @ 34 # 44 # t) = Some (f, Some t)"
  by (induction f) auto

text \<open>
  A field written alone, and one that others follow.
\<close>
lemma read_written:
  "read_fields (write_field f) = Some [f]"
  "read_fields (write_field f @ 44 # t) = map_option (Cons f) (read_fields t)"
proof -
  have "read_fields (write_field f) = Some [f] \<and> read_fields (write_field f @ 44 # t) = map_option (Cons f) (read_fields t)"
  proof (cases "needs f")
    case True
    then show ?thesis using quoted_field by (simp add: write_field_def read_fields.simps [of "34 # _"])
  next
    case False
    have plain: "34 \<notin> set f" "44 \<notin> set f" if "f \<noteq> []" using False that by (auto simp: needs_def)
    have p: "34 \<notin> set f" "44 \<notin> set f" using plain by (cases "f = []"; simp)+
    have hd: "\<not> (f \<noteq> [] \<and> hd f = 34)" "\<not> (f @ 44 # t \<noteq> [] \<and> hd (f @ 44 # t) = 34)" using p by (cases f; auto)+
    have t: "takeWhile (\<lambda>c. c \<noteq> 44) f = f" "dropWhile (\<lambda>c. c \<noteq> 44) f = []" using p(2) by (auto simp: takeWhile_eq_all_conv dropWhile_eq_Nil_conv)
    have t': "takeWhile (\<lambda>c. c \<noteq> 44) (f @ 44 # t) = f" "dropWhile (\<lambda>c. c \<noteq> 44) (f @ 44 # t) = 44 # t"
      using sep_while [OF p(2)] by simp_all
    have w: "write_field f = f" using False by (simp add: write_field_def)
    show ?thesis
      unfolding w using read_fields.simps [of f] read_fields.simps [of "f @ 44 # t"] p(1)
      by (simp only: hd t t' if_False Let_def list.case simp_thms)
  qed
  then show "read_fields (write_field f) = Some [f]" "read_fields (write_field f @ 44 # t) = map_option (Cons f) (read_fields t)" by auto
qed

lemma read_row: "row \<noteq> [] \<Longrightarrow> read_fields (write_row row) = Some row"
proof (induction row)
  case (Cons f row)
  then show ?case by (cases row) (simp_all add: write_row_def read_written)
qed simp

lemma write_row_chars: "c \<in> set (write_row row) \<Longrightarrow> c = 44 \<or> c = 34 \<or> (\<exists>f\<in>set row. c \<in> set f)"
proof (induction row)
  case (Cons f row)
  have "x \<in> set (write_field f) \<Longrightarrow> x = 34 \<or> x \<in> set f" for x by (auto simp: write_field_def split: if_splits)
  with Cons show ?case by (cases row) (auto simp: write_row_def)
qed (simp add: write_row_def)

lemma write_row_empty: "write_row row = [] \<Longrightarrow> row = [] \<or> row = [[]]"
  by (cases row; cases "tl row") (auto simp: write_row_def write_field_def split: if_splits)

text \<open>
  C32. A row of a CSV file reads back as the row that was written, quotes, commas, blanks and empty
  fields included, as long as no field holds a line break and the row is not one empty field (which
  is written as an empty line, and a reader skips those).
\<close>
theorem csv_roundtrip:
  assumes "row \<noteq> []" "row \<noteq> [[]]" "list_all (\<lambda>f. 10 \<notin> set f \<and> 13 \<notin> set f) row"
  shows "goCsvReadLine (write_row row) = Some row \<and> 10 \<notin> set (write_row row)"
proof -
  have n: "10 \<notin> set (write_row row)" "13 \<notin> set (write_row row)"
    using write_row_chars assms(3) by (fastforce simp: list_all_iff)+
  have e: "write_row row \<noteq> []" using write_row_empty assms(1,2) by blast
  then have "last (write_row row) \<noteq> 13" using n(2) last_in_set by metis
  then show ?thesis using e n(1) read_row [OF assms(1)] by (simp add: goCsvReadLine_def)
qed

lemma csv_roundtrip_witness: "goCsvReadLine (write_row [U ''a,b'', [34], [], U '' c'']) = Some [U ''a,b'', [34], [], U '' c'']"
  using csv_roundtrip [of "[U ''a,b'', [34], [], U '' c'']"] by (simp add: U_def)

subsection \<open>Statements\<close>

lemma hash_text_split: "hash_text t d a n r k = hash_text t d' a' n' r' k' \<Longrightarrow> k = k' \<and> hash_text t d a n r 0 = hash_text t d' a' n' r' 0"
proof -
  have bar: "124 \<notin> set (U (js_int (int j)))" for j
    using js_int_units [of "int j"] by (auto simp: all_digits_def list_all_iff)
  have tail: "takeWhile (\<lambda>c. c \<noteq> 124) (rev (p @ 124 # U (js_int (int j)))) = rev (U (js_int (int j)))" for p j
    using sep_while(1) [of 124 "rev (U (js_int (int j)))"] bar [of j] by simp
  have split: "hash_text t d a n r k = (d @ [124] @ U (js_int a) @ [124] @ lower t (join_with [32] (goFields n)) @ [124] @ upper t (goTrimSpace r)) @ 124 # U (js_int (int k))"
    for d a n r k by (simp add: hash_text_def)
  assume e: "hash_text t d a n r k = hash_text t d' a' n' r' k'"
  have "rev (U (js_int (int k))) = rev (U (js_int (int k')))"
    using arg_cong [OF e, of "\<lambda>x. takeWhile (\<lambda>c. c \<noteq> 124) (rev x)"] unfolding split tail .
  then have "digit_units_value (U (js_int (int k))) = digit_units_value (U (js_int (int k')))" by (simp only: rev_is_rev_conv)
  then have "int k = int k'" unfolding conjunct2 [OF js_int_units [OF of_nat_0_le_iff]] .
  then have k: "k = k'" by simp
  show ?thesis using e unfolding split k by (simp only: append_same_eq simp_thms)
qed

text \<open>
  The counts of the loop: every parsed line carries the hash with its ordinal, the ordinals of one key run
  from 0 to its count, and every row read was parsed or rejected.
\<close>

definition reading_ok :: "(units \<Rightarrow> 'h) \<Rightarrow> tables \<Rightarrow> 'h Reading \<Rightarrow> bool" where
  "reading_ok sha t s \<longleftrightarrow>
     (\<exists>ks. length ks = length (rd_parsed s)
       \<and> (\<forall>i<length ks. il_hash (rd_parsed s ! i) = Some (statementLineHash sha t (rd_parsed s ! i) (ks ! i))
            \<and> ks ! i < seen_count (rd_seen s) (statementLineHash sha t (rd_parsed s ! i) 0))
       \<and> distinct (zip (map (\<lambda>l. statementLineHash sha t l 0) (rd_parsed s)) ks))
   \<and> rd_rowsRead s = length (rd_parsed s) + length (filter (\<lambda>x. fst (snd x) \<noteq> NotCsv) (rd_rejects s))"

lemma row_errors: "parseStatementRow rec cols n raw = Inl e \<Longrightarrow> e \<noteq> NotCsv"
  by (auto simp: parseStatementRow_def amount_cell_def Let_def split: option.splits sum.splits if_splits)

lemma hash_field [simp]: "statementLineHash sha t (l\<lparr>il_hash := h\<rparr>) k = statementLineHash sha t l k"
  by (simp add: statementLineHash_def)

lemma reading_parsed:
  assumes "reading_ok sha t s"
  defines "key \<equiv> \<lambda>l. statementLineHash sha t l 0"
  shows "reading_ok sha t (s\<lparr>rd_rowsRead := rd_rowsRead s + 1, rd_seen := (key pl, seen_count (rd_seen s) (key pl) + 1) # rd_seen s,
    rd_parsed := rd_parsed s @ [pl\<lparr>il_hash := Some (statementLineHash sha t pl (seen_count (rd_seen s) (key pl)))\<rparr>]\<rparr>)"
proof -
  obtain ks where ks: "length ks = length (rd_parsed s)"
    "\<forall>i<length ks. il_hash (rd_parsed s ! i) = Some (statementLineHash sha t (rd_parsed s ! i) (ks ! i)) \<and> ks ! i < seen_count (rd_seen s) (key (rd_parsed s ! i))"
    "distinct (zip (map key (rd_parsed s)) ks)"
    "rd_rowsRead s = length (rd_parsed s) + length (filter (\<lambda>x. fst (snd x) \<noteq> NotCsv) (rd_rejects s))"
    using assms(1) unfolding reading_ok_def key_def by blast
  let ?n = "seen_count (rd_seen s) (key pl)"
  let ?pl = "pl\<lparr>il_hash := Some (statementLineHash sha t pl ?n)\<rparr>"
  have kp: "key ?pl = key pl" by (simp add: key_def)
  have new: "(key pl, ?n) \<notin> set (zip (map key (rd_parsed s)) ks)"
  proof
    assume "(key pl, ?n) \<in> set (zip (map key (rd_parsed s)) ks)"
    then obtain i where "i < length ks" "key (rd_parsed s ! i) = key pl" "ks ! i = ?n" using ks(1) by (auto simp: in_set_zip)
    with ks(2) show False by (metis less_irrefl_nat)
  qed
  have more: "seen_count ((key pl, ?n + 1) # rd_seen s) k = (if k = key pl then ?n + 1 else seen_count (rd_seen s) k)" for k
    by (simp add: seen_count_def)
  have "distinct (zip (map key (rd_parsed s @ [?pl])) (ks @ [?n]))" using ks(1,3) new by (simp add: kp)
  moreover have "il_hash ((rd_parsed s @ [?pl]) ! i) = Some (statementLineHash sha t ((rd_parsed s @ [?pl]) ! i) ((ks @ [?n]) ! i))
      \<and> (ks @ [?n]) ! i < seen_count ((key pl, ?n + 1) # rd_seen s) (key ((rd_parsed s @ [?pl]) ! i))" if "i < length (ks @ [?n])" for i
  proof (cases "i < length ks")
    case True
    then show ?thesis using ks(1,2) unfolding more by (auto simp: nth_append less_SucI)
  next
    case False
    then have "i = length ks" using that by simp
    then show ?thesis unfolding more using ks(1) by (simp add: nth_append kp)
  qed
  ultimately show ?thesis
    unfolding reading_ok_def using ks(1,4) unfolding key_def by (intro conjI exI [of _ "ks @ [?n]"]) (simp_all add: key_def)
qed

lemma reading_ok_same:
  "reading_ok sha t s \<Longrightarrow> rd_parsed s' = rd_parsed s \<Longrightarrow> rd_seen s' = rd_seen s
    \<Longrightarrow> rd_rowsRead s' = rd_rowsRead s + length (filter (\<lambda>x. fst (snd x) \<noteq> NotCsv) d)
    \<Longrightarrow> rd_rejects s' = rd_rejects s @ d \<Longrightarrow> reading_ok sha t s'"
  unfolding reading_ok_def by simp

lemma statement_line_ok:
  assumes "reading_ok sha t s"
  shows "reading_ok sha t (statement_line sha t il s)"
proof -
  obtain i line where il: "il = (i, line)" by fastforce
  note u = statement_line_def il prod.case Let_def
  show ?thesis
  proof (cases "goTrimSpace line = []")
    case True
    then show ?thesis using assms by (simp add: u)
  next
    case t: False
    show ?thesis
    proof (cases "goCsvReadLine line")
      case None
      have "statement_line sha t il s = s\<lparr>rd_rejects := rd_rejects s @ [(i + 1, NotCsv, clipRaw line 500)]\<rparr>"
        using t None by (simp add: u)
      then show ?thesis using reading_ok_same [OF assms, where d = "[(i + 1, NotCsv, clipRaw line 500)]"] by simp
    next
      case r: (Some rec)
      show ?thesis
      proof (cases "rd_cols s")
        case None
        have "statement_line sha t il s = s\<lparr>rd_cols := mapStatementHeader rec\<rparr>" using t r None by (simp add: u)
        then show ?thesis using reading_ok_same [OF assms, where d = "[]"] by simp
      next
        case c: (Some cols)
        show ?thesis
        proof (cases "parseStatementRow rec cols (i + 1) line :: RowError + 'a ImportedLine")
          case (Inl e)
          have "statement_line sha t il s = s\<lparr>rd_rowsRead := rd_rowsRead s + 1, rd_rejects := rd_rejects s @ [(i + 1, e, clipRaw line 500)]\<rparr>"
            using t r c Inl by (simp add: u)
          then show ?thesis using reading_ok_same [OF assms, where d = "[(i + 1, e, clipRaw line 500)]"] row_errors [OF Inl] by simp
        next
          case (Inr pl)
          then show ?thesis using reading_parsed [OF assms, of pl] t r c by (simp add: u)
        qed
      qed
    qed
  qed
qed

text \<open>
  C34. A bank statement is read without loss and without repeats: every row under the header is parsed
  or rejected with a reason, and (SHA-256 having no collision) no two parsed lines carry the same hash,
  identical lines and lines whose fields run together at the bars included.
\<close>
theorem statement_hashes_distinct:
  assumes "inj sha"
  shows "let s = parseStatement sha t text0 in distinct (map il_hash (rd_parsed s))
    \<and> rd_rowsRead s = length (rd_parsed s) + length (filter (\<lambda>x. fst (snd x) \<noteq> NotCsv) (rd_rejects s))"
proof -
  define s where "s = parseStatement sha t text0"
  have "reading_ok sha t (fold (statement_line sha t) xs s0)" if "reading_ok sha t s0" for xs s0
    using that by (induction xs arbitrary: s0) (simp_all add: statement_line_ok)
  moreover have "reading_ok sha t no_reading" by (simp add: reading_ok_def no_reading_def)
  ultimately have "reading_ok sha t s" by (simp add: s_def parseStatement_def)
  then obtain ks where ks: "length ks = length (rd_parsed s)"
    "\<forall>i<length ks. il_hash (rd_parsed s ! i) = Some (statementLineHash sha t (rd_parsed s ! i) (ks ! i))"
    "distinct (zip (map (\<lambda>l. statementLineHash sha t l 0) (rd_parsed s)) ks)"
    and rows: "rd_rowsRead s = length (rd_parsed s) + length (filter (\<lambda>x. fst (snd x) \<noteq> NotCsv) (rd_rejects s))"
    unfolding reading_ok_def by blast
  have "i = j" if ij: "i < length (rd_parsed s)" "j < length (rd_parsed s)" "il_hash (rd_parsed s ! i) = il_hash (rd_parsed s ! j)" for i j
  proof -
    let ?z = "zip (map (\<lambda>l. statementLineHash sha t l 0) (rd_parsed s)) ks"
    have "sha (hash_text t (il_txnDate (rd_parsed s ! i)) (il_amount (rd_parsed s ! i)) (il_narration (rd_parsed s ! i)) (il_reference (rd_parsed s ! i)) (ks ! i))
      = sha (hash_text t (il_txnDate (rd_parsed s ! j)) (il_amount (rd_parsed s ! j)) (il_narration (rd_parsed s ! j)) (il_reference (rd_parsed s ! j)) (ks ! j))"
      using ij ks(1,2) by (simp add: statementLineHash_def)
    from hash_text_split [OF injD [OF assms this]] have "ks ! i = ks ! j"
      "statementLineHash sha t (rd_parsed s ! i) 0 = statementLineHash sha t (rd_parsed s ! j) 0" by (simp_all add: statementLineHash_def)
    then have "?z ! i = ?z ! j" using ij(1,2) ks(1) by simp
    then show ?thesis using ks(1,3) ij(1,2) by (simp add: nth_eq_iff_index_eq del: nth_zip)
  qed
  then have "distinct (map il_hash (rd_parsed s))" by (auto simp: distinct_conv_nth)
  then show ?thesis using rows by (simp add: s_def [symmetric] Let_def)
qed

definition demo_tables :: tables where
  "demo_tables = \<lparr>lower = lower_units, upper = id\<rparr>"

lemma statement_hashes_distinct_witness:
  "distinct (map il_hash (rd_parsed (parseStatement id demo_tables (U ''Date,Narration,Amount'' @ [10] @ U ''2026-04-01,Fee,10'' @ [10] @ U ''2026-04-01,Fee,10''))))"
  using statement_hashes_distinct [of id demo_tables "U ''Date,Narration,Amount'' @ [10] @ U ''2026-04-01,Fee,10'' @ [10] @ U ''2026-04-01,Fee,10''"]
  by (simp only: inj_on_id Let_def simp_thms)

subsection \<open>XML\<close>

text \<open>Reading escaped text back: the entities the writer uses, anything else as it stands.\<close>

definition ENTITIES :: "(units \<times> nat) list" where
  "ENTITIES = [(U ''&#34;'', 34), (U ''&#39;'', 39), (U ''&amp;'', 38), (U ''&lt;'', 60), (U ''&gt;'', 62), (U ''&#x9;'', 9), (U ''&#xA;'', 10), (U ''&#xD;'', 13)]"

function xml_read :: "units \<Rightarrow> units" where
  "xml_read s =
    (case s of [] \<Rightarrow> []
     | c # r \<Rightarrow> (case find (\<lambda>(e, _). has_prefix s e) ENTITIES of
         Some (e, k) \<Rightarrow> if e = [] then [] else k # xml_read (drop (length e) s)
       | None \<Rightarrow> c # xml_read r))"
  by auto
termination by (relation "measure length") auto

declare xml_read.simps [simp del]

lemma has_prefix_append [simp]: "has_prefix (p @ s) p"
  by (induction p) auto

lemma xml_read_plain:
  assumes "38 \<notin> set p"
  shows "xml_read (p @ s) = p @ xml_read s"
  using assms
proof (induction p)
  case (Cons c p)
  then have "find (\<lambda>(e, _). has_prefix (c # p @ s) e) ENTITIES = None" by (simp add: ENTITIES_def)
  then show ?case using Cons by (simp add: xml_read.simps [of "c # p @ s"])
qed simp

lemma xml_read_entity: "r \<in> {34, 39, 38, 60, 62, 9, 10, 13} \<Longrightarrow> xml_read (escape_point r @ s) = r # xml_read s"
  by (auto simp: escape_point_def xml_read.simps [of "38 # _"] ENTITIES_def)

definition xml_char :: "nat \<Rightarrow> bool" where
  "xml_char r \<longleftrightarrow> r \<in> {9, 10, 13} \<or> (32 \<le> r \<and> r \<le> 55295) \<or> (57344 \<le> r \<and> r \<le> 65533) \<or> (65536 \<le> r \<and> r \<le> 1114111)"

lemma escape_plain:
  assumes "xml_char r" "r \<notin> {34, 39, 38, 60, 62, 9, 10, 13}"
  shows "escape_point r = of_code_point r" "38 \<notin> set (of_code_point r)"
proof -
  show "escape_point r = of_code_point r" using assms by (auto simp: escape_point_def xml_char_def)
  show "38 \<notin> set (of_code_point r)" using assms by (auto simp: of_code_point_def)
qed

lemma xml_read_points: "list_all xml_char cs \<Longrightarrow> xml_read (concat (map escape_point cs)) = concat (map of_code_point cs)"
proof (induction cs)
  case Nil
  then show ?case by (simp add: xml_read.simps [of "[]"])
next
  case (Cons r cs)
  show ?case
  proof (cases "r \<in> {34, 39, 38, 60, 62, 9, 10, 13}")
    case True
    moreover have "of_code_point r = [r]" using True by (auto simp: of_code_point_def)
    ultimately show ?thesis using Cons xml_read_entity [OF True] by simp
  next
    case False
    from escape_plain [OF _ this] Cons show ?thesis by (simp add: xml_read_plain)
  qed
qed

lemma points_back: "list_all (\<lambda>c. c < 65536) s \<Longrightarrow> concat (map of_code_point (code_points s)) = s"
proof (induction s rule: code_points.induct)
  case (1 a b s)
  show ?case
  proof (cases "55296 \<le> a \<and> a \<le> 56319 \<and> 56320 \<le> b \<and> b \<le> 57343")
    case True
    then obtain x y where ab: "a = 55296 + x" "b = 56320 + y" by (metis le_Suc_ex)
    with True have "x < 1024" "y < 1024" by simp_all
    with ab show ?thesis using 1 by (simp add: of_code_point_def)
  next
    case False
    then have "code_points (a # b # s) = a # code_points (b # s)" by (simp only: code_points.simps if_False)
    moreover have "of_code_point a = [a]" using 1(3) by (simp add: of_code_point_def)
    moreover have "list_all (\<lambda>c. c < 65536) (b # s)" using 1(3) by simp
    ultimately show ?thesis using 1(2) [OF False] by simp
  qed
qed (simp_all add: of_code_point_def)

text \<open>
  Text put into a Tally file can break neither out of an element nor out of an attribute, and loses
  nothing: the escaped text holds no angle bracket, quote, tab or line break, and for text of XML
  characters, reading the entities back gives the text.
\<close>
theorem xml_escape_roundtrip:
  assumes "list_all (\<lambda>c. c < 65536) s" "list_all xml_char (code_points s)"
  shows "xml_read (xmlEscape s) = s \<and> set (xmlEscape s) \<inter> {60, 62, 34, 39, 9, 10, 13} = {}"
proof -
  have "set (escape_point r) \<inter> {60, 62, 34, 39, 9, 10, 13} = {}" for r
    by (auto simp: escape_point_def of_code_point_def split: if_splits)
  then have "set (xmlEscape s) \<inter> {60, 62, 34, 39, 9, 10, 13} = {}" by (auto simp: xmlEscape_def)
  then show ?thesis using xml_read_points [OF assms(2)] points_back [OF assms(1)] by (simp add: xmlEscape_def)
qed

lemma xml_escape_roundtrip_witness: "xml_read (xmlEscape (U ''A & B <'' @ [55357, 56832])) = U ''A & B <'' @ [55357, 56832]"
  using xml_escape_roundtrip [of "U ''A & B <'' @ [55357, 56832]"] by (simp add: xml_char_def)

subsection \<open>Tally\<close>

definition voucher_ok :: "TallyVoucher \<Rightarrow> bool" where
  "voucher_ok v \<longleftrightarrow> goTrimSpace (tv_type v) \<noteq> [] \<and> 2 \<le> length (tv_entries v)
     \<and> list_all (\<lambda>e. goTrimSpace (te_ledger e) \<noteq> [] \<and> te_amount e \<noteq> 0) (tv_entries v) \<and> (\<Sum>e\<leftarrow>tv_entries v. te_amount e) = 0"

lemma entries_fault_None: "entries_fault n es = None \<longleftrightarrow> list_all (\<lambda>e. goTrimSpace (te_ledger e) \<noteq> [] \<and> te_amount e \<noteq> 0) es"
  by (induction es) auto

lemma validate_None: "validateTallyVoucher v = None \<longleftrightarrow> voucher_ok v"
  unfolding voucher_ok_def entries_fault_None [symmetric, of _ "tv_number v"]
  by (auto simp: validateTallyVoucher_def Let_def split: option.splits if_splits)

lemma tally_messages_ok:
  "case tally_messages vs of
     Inr m \<Rightarrow> list_all voucher_ok vs \<and> m = concat (map tally_voucher vs)
   | Inl e \<Rightarrow> \<not> list_all voucher_ok vs \<and> (\<exists>v\<in>set vs. validateTallyVoucher v = Some e)"
proof (induction vs)
  case (Cons v vs)
  then show ?case by (cases "validateTallyVoucher v"; cases "tally_messages vs") (auto simp: validate_None [symmetric])
qed simp

text \<open>
  C35. A Tally file is written exactly when there is a company, something to export, and every voucher has
  a type, at least two entries each with a ledger and an amount, and entries that add up to nothing;
  otherwise no file is written at all.
\<close>
theorem tally_writes_iff_balanced:
  "(case renderTally company vouchers of Inr _ \<Rightarrow> True | Inl _ \<Rightarrow> False)
    \<longleftrightarrow> goTrimSpace company \<noteq> [] \<and> vouchers \<noteq> [] \<and> list_all voucher_ok vouchers"
  using tally_messages_ok [of vouchers] by (auto simp: renderTally_def split: sum.splits)

subsection \<open>Chunks\<close>

definition chunk_bytes :: "units list \<Rightarrow> nat" where
  "chunk_bytes cur = 2 + (\<Sum>s\<leftarrow>cur. byteLen s + 1)"

lemma chunk_loop_ok:
  assumes "sz = chunk_bytes cur" "cur \<noteq> [] \<longrightarrow> length cur = 1 \<or> chunk_bytes cur \<le> maxBytes"
  shows "concat (chunk_loop maxBytes cur sz rows) = cur @ rows
    \<and> list_all (\<lambda>g. g \<noteq> [] \<and> (length g = 1 \<or> chunk_bytes g \<le> maxBytes)) (chunk_loop maxBytes cur sz rows)"
  using assms
proof (induction rows arbitrary: cur sz)
  case (Cons s rows)
  show ?case
  proof (cases "cur \<noteq> [] \<and> maxBytes < sz + (byteLen s + 1)")
    case True
    have "concat (chunk_loop maxBytes [s] (2 + (byteLen s + 1)) rows) = [s] @ rows
      \<and> list_all (\<lambda>g. g \<noteq> [] \<and> (length g = 1 \<or> chunk_bytes g \<le> maxBytes)) (chunk_loop maxBytes [s] (2 + (byteLen s + 1)) rows)"
      by (rule Cons.IH) (simp_all add: chunk_bytes_def)
    then show ?thesis using True Cons.prems(2) by (simp add: Let_def)
  next
    case False
    have "concat (chunk_loop maxBytes (cur @ [s]) (sz + (byteLen s + 1)) rows) = (cur @ [s]) @ rows
      \<and> list_all (\<lambda>g. g \<noteq> [] \<and> (length g = 1 \<or> chunk_bytes g \<le> maxBytes)) (chunk_loop maxBytes (cur @ [s]) (sz + (byteLen s + 1)) rows)"
    proof (rule Cons.IH)
      show "sz + (byteLen s + 1) = chunk_bytes (cur @ [s])" using Cons.prems(1) by (simp add: chunk_bytes_def)
      then show "cur @ [s] \<noteq> [] \<longrightarrow> length (cur @ [s]) = 1 \<or> chunk_bytes (cur @ [s]) \<le> maxBytes" using False by (cases "cur = []") simp_all
    qed
    moreover have "chunk_loop maxBytes cur sz (s # rows) = chunk_loop maxBytes (cur @ [s]) (sz + (byteLen s + 1)) rows"
      using False by (simp only: chunk_loop.simps Let_def if_False)
    ultimately show ?thesis by simp
  qed
qed (auto split: if_splits)

text \<open>
  Splitting rows for the database keeps every row, once and in order, in chunks that are never empty
  and, counting a byte for each separator, stay within the limit, save where one row alone exceeds it.
\<close>
theorem json_chunks_bounded:
  "\<exists>groups. jsonChunks maxBytes rows = map chunk_text groups \<and> concat groups = rows
    \<and> list_all (\<lambda>g. g \<noteq> [] \<and> (length g = 1 \<or> chunk_bytes g \<le> maxBytes)) groups"
  using chunk_loop_ok [of 2 "[]" maxBytes rows] by (intro exI [of _ "chunk_loop maxBytes [] 2 rows"]) (simp add: jsonChunks_def chunk_bytes_def)

end
