(* ===== verification/Outbox.thy ===== *)
theory Outbox
  imports Prelude
begin

text \<open>
  Writes that outlive the connection: the queue on the device (\<open>web/src/lib/outbox.ts\<close>), which writes
  may wait in it (\<open>offline-policy.ts\<close>) and what a press does when nothing answers (\<open>send\<close> in
  \<open>api.ts\<close>).  \<open>localStorage\<close> is a map from its keys; a value that does not parse is \<open>Corrupt\<close>, and
  \<open>dv_full\<close> says that it takes no more.  While a request is out the page goes on: a \<open>Wait\<close> holds what
  the person and the session layer do in that time, and what comes back.  Times are milliseconds;
  the identifiers \<open>crypto.randomUUID\<close> makes are given.  The listeners that redraw screens are left out.
\<close>

subsection \<open>Which writes may wait\<close>

fun js_includes :: "string \<Rightarrow> string \<Rightarrow> bool" where
  "js_includes w [] = (w = [])"
| "js_includes w (c # s) = (startsWith (c # s) w \<or> js_includes w s)"

definition NEVER_WORDS :: "string list" where
  "NEVER_WORDS = [''pay'', ''payment'', ''fee'', ''invoice'', ''receipt'', ''refund'', ''payroll'', ''salary'', ''wallet'', ''upi'',
     ''login'', ''password'', ''credential'', ''session'', ''otp'', ''invite'', ''access'',
     ''publish'', ''result'', ''report-card'', ''marksheet'', ''admission'', ''enrol'', ''enquir'', ''application'']"

definition word_char :: "char \<Rightarrow> bool" where
  "word_char c \<longleftrightarrow> is_digit c \<or> c = CHR ''_'' \<or> (CHR ''a'' \<le> lower_char c \<and> lower_char c \<le> CHR ''z'')"

text \<open>A prefix with what may follow it: nothing, or a character of the given kind.\<close>

definition begins :: "string \<Rightarrow> (char \<Rightarrow> bool) \<Rightarrow> string \<Rightarrow> bool" where
  "begins p next0 s \<longleftrightarrow> startsWith s p \<and> (case drop (length p) s of [] \<Rightarrow> True | c # _ \<Rightarrow> next0 c)"

definition never :: "string \<Rightarrow> bool" where
  "never p \<longleftrightarrow> list_ex (\<lambda>w. js_includes w (to_lower p)) NEVER_WORDS
     \<or> list_ex (\<lambda>w. begins w (\<lambda>c. \<not> word_char c) p) [''/admin'', ''/seller'', ''/users'']"

text \<open>\<open>[^/]+\<close> between two fixed parts.\<close>

definition around_segment :: "string \<Rightarrow> string \<Rightarrow> string \<Rightarrow> bool" where
  "around_segment p q s \<longleftrightarrow> startsWith s p \<and>
    (let r = drop (length p) s; seg = takeWhile (\<lambda>c. c \<noteq> CHR ''/'') r in seg \<noteq> [] \<and> drop (length seg) r = q)"

definition allowed_path :: "string \<Rightarrow> bool" where
  "allowed_path p \<longleftrightarrow>
     list_ex (\<lambda>w. begins w (\<lambda>c. c = CHR ''/'' \<or> c = CHR ''?'') p) [''/attendance'', ''/classroom/attendance'', ''/homework'', ''/portal/messages'']
   \<or> list_ex (\<lambda>w. begins w (\<lambda>c. c = CHR ''/'') p)
       [''/teaching/remarks'', ''/teaching/ptm-notes'', ''/students/notes'', ''/portal/diary'', ''/status/posts'', ''/portal/leave'', ''/portal/preferences'',
        ''/me/preferences'', ''/me/settings'', ''/me/appearance'']
   \<or> list_ex (\<lambda>(a, b). around_segment a b p)
       [(''/lms/assignments/'', ''/grade''), (''/lms/assignments/'', ''/return''), (''/portal/lms/assignments/'', ''/submit''),
        (''/comms/counselor/threads/'', ''/messages''), (''/portal/lms/lessons/'', ''/complete'')]
   \<or> startsWith p ''/chat/'' \<or> p = ''/workflow/leave''"

definition drop_origin :: "string \<Rightarrow> string" where
  "drop_origin path =
    (let r = (if startsWith path ''https://'' then drop 8 path else if startsWith path ''http://'' then drop 7 path else [])
     in if r \<noteq> [] \<and> hd r \<noteq> CHR ''/'' then dropWhile (\<lambda>c. c \<noteq> CHR ''/'') r else path)"

definition apiPath :: "string \<Rightarrow> string" where
  "apiPath path = (let p = takeWhile (\<lambda>c. c \<noteq> CHR ''?'') (drop_origin path) in if startsWith p ''/api/v1'' then drop 7 p else p)"

definition is_read :: "string \<Rightarrow> bool" where
  "is_read m \<longleftrightarrow> m = ''GET'' \<or> m = ''HEAD''"

definition mayQueue :: "string \<Rightarrow> string \<Rightarrow> bool" where
  "mayQueue meth path \<longleftrightarrow> \<not> is_read (map upper_char meth) \<and> \<not> never (apiPath path) \<and> allowed_path (apiPath path)"

subsection \<open>Rows\<close>

definition KEY_PREFIX :: string where "KEY_PREFIX = ''erp-outbox''"

definition keyFor :: "string option \<Rightarrow> string" where
  "keyFor u = (case u of Some v \<Rightarrow> if v = '''' then KEY_PREFIX else KEY_PREFIX @ '':'' @ v | None \<Rightarrow> KEY_PREFIX)"

definition BACKOFF_BASE_MS :: int where "BACKOFF_BASE_MS = 5000"
definition BACKOFF_MAX_MS :: int where "BACKOFF_MAX_MS = 300000"
definition GIVE_UP_AFTER_MS :: int where "GIVE_UP_AFTER_MS = 7 * 24 * 60 * 60 * 1000"
definition SENT_KEEP_MS :: int where "SENT_KEEP_MS = 120000"

datatype OutboxState = Pending | Sent | Failed | Conflict

record Queued =
  q_id :: string
  q_key :: string
  q_method :: string
  q_path :: string
  q_body :: "string option"
  q_label :: "string option"
  q_queued_at :: int
  q_attempts :: nat
  q_next_at :: "int option"
  q_last_error :: "string option"
  q_sent_at :: "int option"
  q_status :: "int option"

text \<open>A number that is absent or 0 is false.\<close>

definition truthy :: "int option \<Rightarrow> bool" where
  "truthy v \<longleftrightarrow> (case v of None \<Rightarrow> False | Some n \<Rightarrow> n \<noteq> 0)"

definition stateOf :: "int \<Rightarrow> Queued \<Rightarrow> OutboxState" where
  "stateOf now r =
    (if \<not> truthy (q_sent_at r) then (if GIVE_UP_AFTER_MS < now - q_queued_at r then Failed else Pending)
     else if q_status r = Some 409 then Conflict
     else if truthy (q_status r) \<and> 400 \<le> the (q_status r) then Failed
     else Sent)"

definition backoff :: "nat \<Rightarrow> int" where
  "backoff attempts = min BACKOFF_MAX_MS (BACKOFF_BASE_MS * 2 ^ (attempts - 1))"

subsection \<open>The queue on the device\<close>

datatype Stored = Rows "Queued list" | Corrupt string

record Device =
  dv_user :: "string option"
  dv_store :: "string \<rightharpoonup> Stored"
  dv_full :: bool

definition read_box :: "Device \<Rightarrow> Queued list" where
  "read_box d = (case dv_store d (keyFor (dv_user d)) of Some (Rows q) \<Rightarrow> q | _ \<Rightarrow> [])"

text \<open>What \<open>read\<close> does besides: a value that does not parse is kept under a second key.\<close>

definition keep_corrupt :: "Device \<Rightarrow> Device" where
  "keep_corrupt d =
    (case dv_store d (keyFor (dv_user d)) of
       Some (Corrupt s) \<Rightarrow> if dv_full d then d else d\<lparr>dv_store := (dv_store d)(keyFor (dv_user d) @ '':corrupt'' \<mapsto> Corrupt s)\<rparr>
     | _ \<Rightarrow> d)"

definition kept :: "int \<Rightarrow> Queued \<Rightarrow> bool" where
  "kept now r \<longleftrightarrow> stateOf now r \<noteq> Sent \<or> now - (case q_sent_at r of None \<Rightarrow> 0 | Some t \<Rightarrow> t) < SENT_KEEP_MS"

definition write_box :: "int \<Rightarrow> Queued list \<Rightarrow> Device \<Rightarrow> Device" where
  "write_box now q d = (if dv_full d then d else d\<lparr>dv_store := (dv_store d)(keyFor (dv_user d) \<mapsto> Rows (filter (kept now) q))\<rparr>)"

definition pending_rows :: "int \<Rightarrow> Device \<Rightarrow> Queued list" where
  "pending_rows now d = filter (\<lambda>r. stateOf now r = Pending) (read_box d)"

text \<open>Changing the row \<open>q.find (x => x.id === id)\<close> in place.\<close>

fun upd_row :: "string \<Rightarrow> (Queued \<Rightarrow> Queued) \<Rightarrow> Queued list \<Rightarrow> Queued list" where
  "upd_row rid f [] = []"
| "upd_row rid f (r # q) = (if q_id r = rid then f r # q else r # upd_row rid f q)"

definition change_row :: "int \<Rightarrow> string \<Rightarrow> (Queued \<Rightarrow> Queued) \<Rightarrow> Device \<Rightarrow> Device" where
  "change_row now rid f d =
    (let q = read_box d; d = keep_corrupt d in if list_ex (\<lambda>r. q_id r = rid) q then write_box now (upd_row rid f q) d else d)"

record Entry =
  en_key :: string
  en_method :: string
  en_path :: string
  en_body :: "string option"
  en_label :: "string option"

definition row_of :: "int \<Rightarrow> string \<Rightarrow> Entry \<Rightarrow> Queued" where
  "row_of now rid e = \<lparr>q_id = rid, q_key = en_key e, q_method = en_method e, q_path = en_path e, q_body = en_body e, q_label = en_label e,
     q_queued_at = now, q_attempts = 0, q_next_at = None, q_last_error = None, q_sent_at = None, q_status = None\<rparr>"

definition enqueue :: "int \<Rightarrow> string \<Rightarrow> Entry \<Rightarrow> Device \<Rightarrow> Device" where
  "enqueue now rid e d =
    (let q = read_box d; d = keep_corrupt d in if list_ex (\<lambda>r. q_key r = en_key e) q then d else write_box now (q @ [row_of now rid e]) d)"

definition discard :: "int \<Rightarrow> string \<Rightarrow> Device \<Rightarrow> Device" where
  "discard now rid d = (let q = read_box d; d = keep_corrupt d in write_box now (filter (\<lambda>r. q_id r \<noteq> rid) q) d)"

definition renew :: "int \<Rightarrow> string \<Rightarrow> Queued \<Rightarrow> Queued" where
  "renew now new_key r = (r\<lparr>q_key := (if truthy (q_sent_at r) then new_key else q_key r), q_sent_at := None, q_status := None, q_next_at := None,
     q_queued_at := now, q_attempts := 0\<rparr>)"

definition retry :: "int \<Rightarrow> string \<Rightarrow> string \<Rightarrow> Device \<Rightarrow> Device" where
  "retry now new_key rid d = change_row now rid (renew now new_key) d"

definition wipeOutbox :: "Device \<Rightarrow> Device" where
  "wipeOutbox d = d\<lparr>dv_store := (\<lambda>k. if startsWith k KEY_PREFIX then None else dv_store d k)\<rparr>"

definition setOutboxUser :: "string option \<Rightarrow> Device \<Rightarrow> Device" where
  "setOutboxUser u d = (if u = dv_user d then d else d\<lparr>dv_user := u\<rparr>)"

subsection \<open>Sending\<close>

datatype Event = Enqueue int string Entry | Discard int string | Retry int string string | Wipe | SignIn "string option"

fun happen :: "Event \<Rightarrow> Device \<Rightarrow> Device" where
  "happen (Enqueue now rid e) d = enqueue now rid e d"
| "happen (Discard now rid) d = discard now rid d"
| "happen (Retry now new_key rid) d = retry now new_key rid d"
| "happen Wipe d = wipeOutbox d"
| "happen (SignIn u) d = setOutboxUser u d"

text \<open>What \<open>fetch\<close> gives: nothing, or a status and what \<open>serverMessage\<close> makes of the text.\<close>

datatype Outcome = NoAnswer | Answered int string

record Wait =
  wt_asked :: int
  wt_events :: "Event list"
  wt_back :: int
  wt_outcome :: Outcome

text \<open>A request that went out: under whose session, and the row it was for.\<close>

type_synonym Post = "string option \<times> Queued"

definition later :: "int \<Rightarrow> string \<Rightarrow> string \<Rightarrow> Device \<Rightarrow> Device" where
  "later now rid why d = change_row now rid
    (\<lambda>r. r\<lparr>q_attempts := q_attempts r + 1, q_next_at := Some (now + backoff (q_attempts r + 1)), q_last_error := Some why\<rparr>) d"

definition answer_row :: "int \<Rightarrow> int \<Rightarrow> string \<Rightarrow> Queued \<Rightarrow> Queued" where
  "answer_row now st msg r =
    r\<lparr>q_sent_at := Some now, q_status := Some st, q_last_error := (if 200 \<le> st \<and> st \<le> 299 then None else Some msg)\<rparr>"

definition too_early :: "bool \<Rightarrow> Queued \<Rightarrow> Wait \<Rightarrow> bool" where
  "too_early force row w \<longleftrightarrow> \<not> force \<and> truthy (q_next_at row) \<and> wt_asked w < the (q_next_at row)"

text \<open>The loop of \<open>run\<close> over the rows that were pending when it began; it is still waiting where the list of waits ends.\<close>

fun run_rows :: "bool \<Rightarrow> Queued list \<Rightarrow> Wait list \<Rightarrow> Device \<Rightarrow> Post list \<times> Device" where
  "run_rows force [] ws d = ([], d)"
| "run_rows force (row # rows) [] d = ([], d)"
| "run_rows force (row # rows) (w # ws) d =
    (if too_early force row w then ([], d)
     else let post = (dv_user d, row); d1 = fold happen (wt_events w) d in
       case wt_outcome w of
         NoAnswer \<Rightarrow> ([post], later (wt_back w) (q_id row) ''No connection'' d1)
       | Answered st msg \<Rightarrow>
           if 500 \<le> st then ([post], later (wt_back w) (q_id row) ''The server could not take it just now'' d1)
           else let (posts, d2) = run_rows force rows ws (change_row (wt_back w) (q_id row) (answer_row (wt_back w) st msg) d1)
             in (post # posts, d2))"

definition flush :: "bool \<Rightarrow> int \<Rightarrow> Wait list \<Rightarrow> Device \<Rightarrow> Post list \<times> Device" where
  "flush force now ws d = run_rows force (pending_rows now d) ws (keep_corrupt d)"

text \<open>The request a post makes, for the middleware: its session is that of the page at that moment.\<close>

definition content_type :: "Queued \<Rightarrow> string option" where
  "content_type row = (case q_body row of Some b \<Rightarrow> if b = '''' then None else Some ''application/json'' | None \<Rightarrow> None)"

subsection \<open>A press with no connection\<close>

datatype Body = NoBody | Text string | Form

definition takeOffline :: "int \<Rightarrow> string \<Rightarrow> (string \<Rightarrow> string \<Rightarrow> bool) \<Rightarrow> string \<Rightarrow> string \<Rightarrow> Body \<Rightarrow> string \<Rightarrow> string option \<Rightarrow> Device \<Rightarrow> bool \<times> Device" where
  "takeOffline now rid allowed meth path body key label d =
    (if is_read meth then (False, d)
     else if body = Form then (False, d)
     else if \<not> allowed meth path then (False, d)
     else (True, enqueue now rid \<lparr>en_key = key, en_method = meth, en_path = path,
       en_body = (case body of Text s \<Rightarrow> Some s | _ \<Rightarrow> None), en_label = label\<rparr> d))"

datatype Told = Served int | QueuedOffline | NeedsInternet | NoConnection

text \<open>\<open>send\<close>: \<open>key\<close> is minted before the first try; the answer of \<open>fetch\<close> is \<open>None\<close> when it rejects.\<close>

definition send_request :: "int \<Rightarrow> string \<Rightarrow> string \<Rightarrow> string \<Rightarrow> string \<Rightarrow> Body \<Rightarrow> int option \<Rightarrow> Device \<Rightarrow> Told \<times> Device" where
  "send_request now rid key meth0 path body answer d =
    (let meth = map upper_char meth0 in
     case answer of
       Some st \<Rightarrow> (Served st, d)
     | None \<Rightarrow>
         if is_read meth then (NoConnection, d)
         else let (taken, d1) = takeOffline now rid mayQueue meth path body key None d in
           if taken then (QueuedOffline, d1) else (NeedsInternet, d1))"

end
