(* ===== verification/Idempotency.thy ===== *)
theory Idempotency
  imports Prelude
begin

text \<open>
  Writes that run once, \<open>worker/src/idempotency.ts\<close>: the claim of a key (\<open>INSERT .. ON CONFLICT DO
  NOTHING\<close> behind the removal of a stale claim), the answer to a repeat, and the settling of the
  receipt.  The table \<open>idempotency_keys\<close> is a map from its primary key.  Requests of one school run
  at the same time, so the middleware is a step relation: each database call and the handler is a
  step of its own, and any number of requests are under way.  The handler is not modelled: it answers
  with any status and body.  \<open>sha\<close> is the digest of the body.
\<close>

subsection \<open>Requests and receipts\<close>

record Asked =
  rq_key :: string
  rq_method :: string
  rq_ctype :: "string option"
  rq_inst :: "string option"
  rq_user :: string
  rq_path :: string
  rq_body :: string

record 'h Receipt =
  rc_user :: string
  rc_method :: string
  rc_path :: string
  rc_hash :: 'h
  rc_created :: int
  rc_settled :: "(int \<times> string) option"

type_synonym slot_key = "string \<times> string"

type_synonym 'h Receipts = "slot_key \<rightharpoonup> 'h Receipt"

datatype Answer = Fresh int string | Replay int string | OtherSignIn | OtherRequest | InFlight | TooLarge

text \<open>What the client sees of an answer: its HTTP status.\<close>

fun answer_status :: "Answer \<Rightarrow> int" where
  "answer_status (Fresh st b) = st"
| "answer_status (Replay st b) = st"
| "answer_status OtherSignIn = 409"
| "answer_status OtherRequest = 409"
| "answer_status InFlight = 409"
| "answer_status TooLarge = 400"

definition passes_through :: "Asked \<Rightarrow> bool" where
  "passes_through rq \<longleftrightarrow>
    (let key = js_trim (rq_key rq) in
     key = '''' \<or> 200 < int (length key) \<or> rq_method rq \<in> {''GET'', ''HEAD'', ''OPTIONS''}
     \<or> (case rq_ctype rq of None \<Rightarrow> False | Some ct \<Rightarrow> ct \<noteq> '''' \<and> \<not> startsWith (to_lower ct) ''application/json'')
     \<or> rq_inst rq = None)"

definition MAX_BODY :: int where "MAX_BODY = 8388608"

definition slot_of :: "Asked \<Rightarrow> slot_key" where
  "slot_of rq = (the (rq_inst rq), js_trim (rq_key rq))"

definition STALE_AFTER :: int where "STALE_AFTER = 120000"

definition drop_stale :: "int \<Rightarrow> slot_key \<Rightarrow> 'h Receipts \<Rightarrow> 'h Receipts" where
  "drop_stale now k t =
    (case t k of None \<Rightarrow> t
     | Some r \<Rightarrow> if rc_settled r = None \<and> rc_created r < now - STALE_AFTER then t(k := None) else t)"

text \<open>The batch: whether this request is the first of its key, and the table after it.\<close>

definition claim :: "(string \<Rightarrow> 'h) \<Rightarrow> int \<Rightarrow> Asked \<Rightarrow> 'h Receipts \<Rightarrow> bool \<times> 'h Receipts" where
  "claim sha now rq t0 =
    (let k = slot_of rq; t = drop_stale now k t0 in
     case t k of
       Some _ \<Rightarrow> (False, t)
     | None \<Rightarrow> (True, t(k \<mapsto> \<lparr>rc_user = rq_user rq, rc_method = rq_method rq, rc_path = rq_path rq, rc_hash = sha (rq_body rq),
                  rc_created = now, rc_settled = None\<rparr>)))"

definition answer_from :: "(string \<Rightarrow> 'h) \<Rightarrow> Asked \<Rightarrow> 'h Receipts \<Rightarrow> Answer" where
  "answer_from sha rq t =
    (case t (slot_of rq) of None \<Rightarrow> OtherSignIn
     | Some prev \<Rightarrow>
         if rc_user prev \<noteq> rq_user rq then OtherSignIn
         else if rc_method prev \<noteq> rq_method rq \<or> rc_path prev \<noteq> rq_path rq \<or> rc_hash prev \<noteq> sha (rq_body rq) then OtherRequest
         else case rc_settled prev of None \<Rightarrow> InFlight | Some (st, b) \<Rightarrow> Replay st b)"

definition settle :: "slot_key \<Rightarrow> int \<Rightarrow> string \<Rightarrow> 'h Receipts \<Rightarrow> 'h Receipts" where
  "settle k st b t =
    (if 500 \<le> st then t(k := None)
     else case t k of None \<Rightarrow> t | Some r \<Rightarrow> t(k \<mapsto> r\<lparr>rc_settled := Some (st, b)\<rparr>))"

text \<open>Housekeeping keeps receipts for a fortnight (\<open>services/background/housekeeping.ts\<close>).\<close>

definition purge :: "int \<Rightarrow> 'h Receipts \<Rightarrow> 'h Receipts" where
  "purge now t = (\<lambda>k. case t k of None \<Rightarrow> None | Some r \<Rightarrow> if rc_created r < now - 14 * 86400000 then None else Some r)"

subsection \<open>Many requests at once\<close>

datatype Stage = Looking | Claimed int | Handled int int string

record 'h World =
  wd_now :: int
  wd_table :: "'h Receipts"
  wd_flights :: "nat \<rightharpoonup> Asked \<times> Stage"
  wd_ran :: "(slot_key \<times> int \<times> string) list"
  wd_answers :: "(Asked \<times> Answer) list"

text \<open>Only a request with a key of its own, for a school, is claimed.\<close>

definition keyed :: "Asked \<Rightarrow> bool" where
  "keyed rq \<longleftrightarrow> \<not> passes_through rq \<and> int (length (rq_body rq)) \<le> MAX_BODY"

text \<open>The claims that are held are no older than what the code calls stale.\<close>

fun claimed_at :: "Stage \<Rightarrow> int" where
  "claimed_at (Claimed c) = c"
| "claimed_at (Handled c st b) = c"
| "claimed_at Looking = 0"

definition timely :: "int \<Rightarrow> (nat \<rightharpoonup> Asked \<times> Stage) \<Rightarrow> bool" where
  "timely now fl \<longleftrightarrow> (\<forall>i rq s. fl i = Some (rq, s) \<and> s \<noteq> Looking \<longrightarrow> now - claimed_at s \<le> STALE_AFTER)"

text \<open>The middleware as it is meant to go: handlers answer within two minutes and receipts are written.\<close>

inductive served :: "(string \<Rightarrow> 'h) \<Rightarrow> 'h World \<Rightarrow> 'h World \<Rightarrow> bool" for sha where
  first: "wd_flights w i = None \<Longrightarrow> keyed rq \<Longrightarrow> claim sha (wd_now w) rq (wd_table w) = (True, t) \<Longrightarrow>
    served sha w (w\<lparr>wd_table := t, wd_flights := (wd_flights w)(i \<mapsto> (rq, Claimed (wd_now w)))\<rparr>)"
| again: "wd_flights w i = None \<Longrightarrow> keyed rq \<Longrightarrow> claim sha (wd_now w) rq (wd_table w) = (False, t) \<Longrightarrow>
    served sha w (w\<lparr>wd_table := t, wd_flights := (wd_flights w)(i \<mapsto> (rq, Looking))\<rparr>)"
| look: "wd_flights w i = Some (rq, Looking) \<Longrightarrow>
    served sha w (w\<lparr>wd_flights := (wd_flights w)(i := None), wd_answers := wd_answers w @ [(rq, answer_from sha rq (wd_table w))]\<rparr>)"
| handle: "wd_flights w i = Some (rq, Claimed c) \<Longrightarrow>
    served sha w (w\<lparr>wd_flights := (wd_flights w)(i \<mapsto> (rq, Handled c st b)), wd_ran := wd_ran w @ [(slot_of rq, st, b)]\<rparr>)"
| settled: "wd_flights w i = Some (rq, Handled c st b) \<Longrightarrow>
    served sha w (w\<lparr>wd_table := settle (slot_of rq) st b (wd_table w), wd_flights := (wd_flights w)(i := None),
      wd_answers := wd_answers w @ [(rq, Fresh st b)]\<rparr>)"
| gone: "wd_flights w i = Some (rq, Looking) \<Longrightarrow> served sha w (w\<lparr>wd_flights := (wd_flights w)(i := None)\<rparr>)"
| tick: "wd_now w \<le> t \<Longrightarrow> timely t (wd_flights w) \<Longrightarrow> served sha w (w\<lparr>wd_now := t\<rparr>)"

text \<open>What may go wrong besides: a receipt that cannot be written, a request killed, a handler that takes its time, an old receipt removed.\<close>

inductive mishap :: "'h World \<Rightarrow> 'h World \<Rightarrow> bool" where
  unsettled: "wd_flights w i = Some (rq, Handled c st b) \<Longrightarrow>
    mishap w (w\<lparr>wd_flights := (wd_flights w)(i := None), wd_answers := wd_answers w @ [(rq, Fresh st b)]\<rparr>)"
| killed: "mishap w (w\<lparr>wd_flights := (wd_flights w)(i := None)\<rparr>)"
| late: "wd_now w \<le> t \<Longrightarrow> mishap w (w\<lparr>wd_now := t\<rparr>)"
| purged: "mishap w (w\<lparr>wd_table := purge (wd_now w) (wd_table w)\<rparr>)"

inductive_cases served_cases: "served sha w w'"

inductive serves :: "(string \<Rightarrow> 'h) \<Rightarrow> 'h World \<Rightarrow> 'h World \<Rightarrow> bool" for sha where
  start: "serves sha w w"
| more: "serves sha w w' \<Longrightarrow> served sha w' w'' \<Longrightarrow> serves sha w w''"

definition idle :: "int \<Rightarrow> 'h World" where
  "idle now = \<lparr>wd_now = now, wd_table = Map.empty, wd_flights = Map.empty, wd_ran = [], wd_answers = []\<rparr>"

end
