(* ===== verification/IdempotencyProps.thy ===== *)
theory IdempotencyProps
  imports Idempotency
begin

text \<open>
  What the receipts promise.  \<open>key_ok\<close> is the invariant of one key: no receipt and nothing done; a
  settled receipt of the one thing done; or an unsettled receipt held by exactly one request.  From it:
  the middleware refines the service that runs each key once, and what breaks it.
\<close>

subsection \<open>One key\<close>

definition holders :: "'h World \<Rightarrow> slot_key \<Rightarrow> nat set" where
  "holders w k = {i. \<exists>rq s. wd_flights w i = Some (rq, s) \<and> s \<noteq> Looking \<and> slot_of rq = k}"

text \<open>What was done under a key: the handler's runs that did not end in a server error.\<close>

definition effects :: "'h World \<Rightarrow> slot_key \<Rightarrow> (int \<times> string) list" where
  "effects w k = map snd (filter (\<lambda>e. fst e = k \<and> fst (snd e) < 500) (wd_ran w))"

fun result_of :: "Stage \<Rightarrow> (int \<times> string) list" where
  "result_of (Handled c st b) = (if st < 500 then [(st, b)] else [])"
| "result_of _ = []"

definition held_by_one :: "'h World \<Rightarrow> slot_key \<Rightarrow> int \<Rightarrow> bool" where
  "held_by_one w k c \<longleftrightarrow> (\<exists>i rq s. holders w k = {i} \<and> wd_flights w i = Some (rq, s) \<and> claimed_at s = c \<and> effects w k = result_of s)"

definition key_ok :: "'h World \<Rightarrow> slot_key \<Rightarrow> bool" where
  "key_ok w k \<longleftrightarrow>
    (case wd_table w k of
       None \<Rightarrow> holders w k = {} \<and> effects w k = []
     | Some r \<Rightarrow>
        (case rc_settled r of Some v \<Rightarrow> holders w k = {} \<and> effects w k = [v] | None \<Rightarrow> held_by_one w k (rc_created r)))"

definition answers_true :: "'h World \<Rightarrow> bool" where
  "answers_true w \<longleftrightarrow> (\<forall>rq a st b. (rq, a) \<in> set (wd_answers w) \<and> (a = Fresh st b \<or> a = Replay st b) \<and> st < 500
     \<longrightarrow> (st, b) \<in> set (effects w (slot_of rq)))"

definition world_ok :: "'h World \<Rightarrow> bool" where
  "world_ok w \<longleftrightarrow> (\<forall>k. key_ok w k) \<and> timely (wd_now w) (wd_flights w) \<and> answers_true w"

lemma world_okD:
  assumes "world_ok w"
  shows "key_ok w k" "timely (wd_now w) (wd_flights w)" "answers_true w"
  using assms unfolding world_ok_def by blast+

lemma key_ok_cong:
  assumes "key_ok w k" "wd_table w' k = wd_table w k" "holders w' k = holders w k" "effects w' k = effects w k"
    "\<forall>i\<in>holders w k. wd_flights w' i = wd_flights w i"
  shows "key_ok w' k"
proof (cases "wd_table w k")
  case (Some r)
  have "held_by_one w' k c" if h: "held_by_one w k c" for c
  proof -
    from h obtain i rq s where "holders w k = {i}" "wd_flights w i = Some (rq, s)" "claimed_at s = c" "effects w k = result_of s"
      unfolding held_by_one_def by blast
    then show ?thesis unfolding held_by_one_def using assms(3,4,5)
      by (intro exI [of _ i] exI [of _ rq] exI [of _ s]) simp
  qed
  then show ?thesis using assms(1-4) Some by (auto simp: key_ok_def split: option.splits)
qed (use assms in \<open>simp add: key_ok_def\<close>)

lemma holder: "wd_flights w i = Some (rq, s) \<Longrightarrow> s \<noteq> Looking \<Longrightarrow> i \<in> holders w (slot_of rq)"
  by (auto simp: holders_def)

lemma holder_stays:
  "wd_flights w i = Some (rq, s) \<Longrightarrow> s \<noteq> Looking \<Longrightarrow> key_ok w (slot_of rq) \<Longrightarrow>
    \<exists>r. wd_table w (slot_of rq) = Some r \<and> rc_settled r = None \<and> rc_created r = claimed_at s
      \<and> holders w (slot_of rq) = {i} \<and> effects w (slot_of rq) = result_of s"
  using holder [of w i rq s] by (auto simp: key_ok_def held_by_one_def split: option.splits)

lemma effects_le_one: "key_ok w k \<Longrightarrow> length (effects w k) \<le> 1"
proof -
  have "length (result_of s) \<le> 1" for s by (cases s) auto
  then show "key_ok w k \<Longrightarrow> length (effects w k) \<le> 1"
    by (auto simp: key_ok_def held_by_one_def split: option.splits)
qed

text \<open>
  No claim is stale while its holder is at work, so removing stale claims changes nothing.
\<close>
lemma drop_stale_ok:
  assumes "world_ok w"
  shows "drop_stale (wd_now w) k (wd_table w) = wd_table w"
proof (cases "wd_table w k")
  case (Some r)
  show ?thesis
  proof (cases "rc_settled r")
    case None
    note ok = world_okD [OF assms]
    from ok(1) [of k] Some None obtain i rq s where i: "holders w k = {i}" "wd_flights w i = Some (rq, s)" "claimed_at s = rc_created r"
      by (auto simp: key_ok_def held_by_one_def)
    from i(1) have "i \<in> holders w k" by simp
    then have "s \<noteq> Looking" using i(2) by (auto simp: holders_def)
    then have "wd_now w - claimed_at s \<le> STALE_AFTER"
      using i(2,3) ok(2) unfolding timely_def by blast
    then show ?thesis using Some None i(3) by (simp add: drop_stale_def)
  qed (use Some in \<open>simp add: drop_stale_def\<close>)
qed (simp add: drop_stale_def)

lemma claim_True:
  assumes "world_ok w" "claim sha (wd_now w) rq (wd_table w) = (True, t)"
  shows "wd_table w (slot_of rq) = None" "t = (wd_table w)(slot_of rq \<mapsto> \<lparr>rc_user = rq_user rq, rc_method = rq_method rq,
    rc_path = rq_path rq, rc_hash = sha (rq_body rq), rc_created = wd_now w, rc_settled = None\<rparr>)"
  using assms by (auto simp: claim_def Let_def drop_stale_ok split: option.splits)

lemma claim_False:
  assumes "world_ok w" "claim sha (wd_now w) rq (wd_table w) = (False, t)"
  shows "t = wd_table w"
  using assms by (auto simp: claim_def Let_def drop_stale_ok split: option.splits)

subsection \<open>Every step\<close>

lemma key_ok_other:
  assumes "key_ok w k" "wd_flights w' = (wd_flights w)(i := x)"
    "\<And>rq s. wd_flights w i = Some (rq, s) \<Longrightarrow> s \<noteq> Looking \<Longrightarrow> slot_of rq \<noteq> k"
    "\<And>rq s. x = Some (rq, s) \<Longrightarrow> s \<noteq> Looking \<Longrightarrow> slot_of rq \<noteq> k"
    "wd_table w' k = wd_table w k" "effects w' k = effects w k"
  shows "key_ok w' k"
proof (rule key_ok_cong [OF assms(1,5) _ assms(6)])
  have mem: "j \<in> holders w' k \<longleftrightarrow> j \<in> holders w k" for j
    using assms(2-4) by (cases "j = i") (auto simp: holders_def)
  then show "holders w' k = holders w k" by blast
  have "i \<notin> holders w k" using assms(3) by (auto simp: holders_def)
  then show "\<forall>j\<in>holders w k. wd_flights w' j = wd_flights w j" using assms(2) by auto
qed

lemma effects_more:
  "effects (w\<lparr>wd_flights := fl, wd_ran := wd_ran w @ [(k0, st, b)]\<rparr>) k = effects w k @ (if k = k0 \<and> st < 500 then [(st, b)] else [])"
  by (simp add: effects_def)

lemma answers_true_more:
  assumes "answers_true w" "wd_answers w' = wd_answers w @ [(rq, a)]" "\<And>k. effects w' k = effects w k"
    "\<And>st b. a = Fresh st b \<or> a = Replay st b \<Longrightarrow> st < 500 \<Longrightarrow> (st, b) \<in> set (effects w (slot_of rq))"
  shows "answers_true w'"
  unfolding answers_true_def
proof (intro allI impI, elim conjE)
  fix rq' a' st b
  assume "(rq', a') \<in> set (wd_answers w')" and v: "a' = Fresh st b \<or> a' = Replay st b" "st < 500"
  then consider "(rq', a') \<in> set (wd_answers w)" | "rq' = rq" "a' = a" using assms(2) by auto
  then show "(st, b) \<in> set (effects w' (slot_of rq'))"
  proof cases
    case 1
    then show ?thesis using assms(1,3) v unfolding answers_true_def by auto
  next
    case 2
    then show ?thesis using assms(3,4) v by simp
  qed
qed

lemma first_ok:
  assumes "world_ok w" "wd_flights w i = None" "claim sha (wd_now w) rq (wd_table w) = (True, t)"
  shows "world_ok (w\<lparr>wd_table := t, wd_flights := (wd_flights w)(i \<mapsto> (rq, Claimed (wd_now w)))\<rparr>)" (is "world_ok ?w")
proof -
  note free = claim_True [OF assms(1,3)]
  have eff: "effects ?w k = effects w k" for k by (simp add: effects_def)
  have "key_ok ?w k" for k
  proof (cases "k = slot_of rq")
    case True
    from world_okD(1) [OF assms(1), of k] free(1) True have "holders w k = {}" "effects w k = []" by (simp_all add: key_ok_def)
    then have "holders ?w k = {i}" using True by (auto simp: holders_def split: if_splits)
    then have "held_by_one ?w k (wd_now w)" using \<open>effects w k = []\<close> eff unfolding held_by_one_def
      by (intro exI [of _ i] exI [of _ rq] exI [of _ "Claimed (wd_now w)"]) simp
    then show ?thesis using True free(2) by (simp add: key_ok_def)
  next
    case False
    show ?thesis by (rule key_ok_other [OF world_okD(1) [OF assms(1)], where i = i and x = "Some (rq, Claimed (wd_now w))"])
      (use False assms(2) free(2) eff in auto)
  qed
  moreover have "timely (wd_now ?w) (wd_flights ?w)"
    using world_okD(2) [OF assms(1)] by (auto simp: timely_def STALE_AFTER_def)
  moreover have "answers_true ?w" using world_okD(3) [OF assms(1)] by (simp add: answers_true_def eff)
  ultimately show ?thesis by (simp add: world_ok_def)
qed

lemma again_ok:
  assumes "world_ok w" "wd_flights w i = None"
  shows "world_ok (w\<lparr>wd_flights := (wd_flights w)(i \<mapsto> (rq, Looking))\<rparr>)" (is "world_ok ?w")
proof -
  have eff: "effects ?w k = effects w k" for k by (simp add: effects_def)
  have "key_ok ?w k" for k
    by (rule key_ok_other [OF world_okD(1) [OF assms(1)], where i = i and x = "Some (rq, Looking)"]) (use assms(2) eff in auto)
  moreover have "timely (wd_now ?w) (wd_flights ?w)" using world_okD(2) [OF assms(1)] by (auto simp: timely_def)
  moreover have "answers_true ?w" using world_okD(3) [OF assms(1)] by (simp add: answers_true_def eff)
  ultimately show ?thesis by (simp add: world_ok_def)
qed

lemma leave_ok:
  assumes "world_ok w" "wd_flights w i = Some (rq, Looking)"
  shows "world_ok (w\<lparr>wd_flights := (wd_flights w)(i := None)\<rparr>)" (is "world_ok ?w")
proof -
  have eff: "effects ?w k = effects w k" for k by (simp add: effects_def)
  have "key_ok ?w k" for k
    by (rule key_ok_other [OF world_okD(1) [OF assms(1)], where i = i and x = None]) (use assms(2) eff in auto)
  moreover have "timely (wd_now ?w) (wd_flights ?w)" using world_okD(2) [OF assms(1)] by (auto simp: timely_def)
  moreover have "answers_true ?w" using world_okD(3) [OF assms(1)] by (simp add: answers_true_def eff)
  ultimately show ?thesis by (simp add: world_ok_def)
qed

lemma answer_ok:
  assumes "world_ok w" "\<And>st b. a = Fresh st b \<or> a = Replay st b \<Longrightarrow> st < 500 \<Longrightarrow> (st, b) \<in> set (effects w (slot_of rq))"
  shows "world_ok (w\<lparr>wd_answers := wd_answers w @ [(rq, a)]\<rparr>)" (is "world_ok ?w")
proof -
  have eff: "effects ?w k = effects w k" for k by (simp add: effects_def)
  have "key_ok ?w k" for k
    by (rule key_ok_cong [OF world_okD(1) [OF assms(1)]]) (simp_all add: eff holders_def)
  moreover have "answers_true ?w" by (rule answers_true_more [OF world_okD(3) [OF assms(1)] _ eff]) (simp, rule assms(2))
  ultimately show ?thesis using world_okD(2) [OF assms(1)] by (simp add: world_ok_def)
qed

lemma handle_ok:
  assumes "world_ok w" "wd_flights w i = Some (rq, Claimed c)"
  shows "world_ok (w\<lparr>wd_flights := (wd_flights w)(i \<mapsto> (rq, Handled c st b)), wd_ran := wd_ran w @ [(slot_of rq, st, b)]\<rparr>)" (is "world_ok ?w")
proof -
  from holder_stays [OF assms(2) _ world_okD(1) [OF assms(1)]] obtain r where r: "wd_table w (slot_of rq) = Some r"
    "rc_settled r = None" "rc_created r = c" "holders w (slot_of rq) = {i}" "effects w (slot_of rq) = []" by auto
  have "key_ok ?w k" for k
  proof (cases "k = slot_of rq")
    case True
    have "holders ?w k = holders w k" using assms(2) by (auto simp: holders_def)
    then have "held_by_one ?w k c" using True r unfolding held_by_one_def
      by (intro exI [of _ i] exI [of _ rq] exI [of _ "Handled c st b"]) (simp add: effects_more)
    then show ?thesis using True r by (simp add: key_ok_def)
  next
    case False
    show ?thesis
      by (rule key_ok_other [OF world_okD(1) [OF assms(1)], where i = i and x = "Some (rq, Handled c st b)"])
        (use False assms(2) in \<open>auto simp: effects_more\<close>)
  qed
  moreover have "timely (wd_now ?w) (wd_flights ?w)"
    using world_okD(2) [OF assms(1)] assms(2) unfolding timely_def by (fastforce split: if_splits)
  moreover have "answers_true ?w"
    unfolding answers_true_def
  proof (intro allI impI, elim conjE)
    fix rq' a st' b'
    assume "(rq', a) \<in> set (wd_answers ?w)" "a = Fresh st' b' \<or> a = Replay st' b'" "st' < 500"
    then have "(st', b') \<in> set (effects w (slot_of rq'))" using world_okD(3) [OF assms(1)] unfolding answers_true_def by auto
    then show "(st', b') \<in> set (effects ?w (slot_of rq'))" by (simp add: effects_more)
  qed
  ultimately show ?thesis by (simp add: world_ok_def)
qed

lemma settled_ok:
  assumes "world_ok w" "wd_flights w i = Some (rq, Handled c st b)"
  shows "world_ok (w\<lparr>wd_table := settle (slot_of rq) st b (wd_table w), wd_flights := (wd_flights w)(i := None)\<rparr>)" (is "world_ok ?w")
proof -
  from holder_stays [OF assms(2) _ world_okD(1) [OF assms(1)]] obtain r where r: "wd_table w (slot_of rq) = Some r"
    "rc_settled r = None" "holders w (slot_of rq) = {i}" "effects w (slot_of rq) = (if st < 500 then [(st, b)] else [])" by auto
  have eff: "effects ?w k = effects w k" for k by (simp add: effects_def)
  have "key_ok ?w k" for k
  proof (cases "k = slot_of rq")
    case True
    have "j \<in> holders ?w k \<longleftrightarrow> j \<in> holders w k \<and> j \<noteq> i" for j by (auto simp: holders_def)
    then have "holders ?w k = {}" using r(3) True by auto
    moreover have "effects ?w k = (if st < 500 then [(st, b)] else [])" using eff r(4) True by simp
    moreover have "wd_table ?w k = (if 500 \<le> st then None else Some (r\<lparr>rc_settled := Some (st, b)\<rparr>))"
      using True r(1) by (simp add: settle_def)
    ultimately show ?thesis unfolding key_ok_def by simp
  next
    case False
    have "settle (slot_of rq) st b (wd_table w) k = wd_table w k" using False by (simp add: settle_def split: option.split)
    then show ?thesis
      by (intro key_ok_other [OF world_okD(1) [OF assms(1)], where i = i and x = None]) (use False assms(2) eff in auto)
  qed
  moreover have "timely (wd_now ?w) (wd_flights ?w)" using world_okD(2) [OF assms(1)] by (auto simp: timely_def)
  moreover have "answers_true ?w" using world_okD(3) [OF assms(1)] by (simp add: answers_true_def eff)
  ultimately show ?thesis by (simp add: world_ok_def)
qed

lemma replay_true:
  assumes "world_ok w" "answer_from sha rq (wd_table w) = Replay st b"
  shows "effects w (slot_of rq) = [(st, b)]"
  using world_okD(1) [OF assms(1), of "slot_of rq"] assms(2)
  by (auto simp: answer_from_def key_ok_def split: option.splits if_splits prod.splits)

lemma answer_from_not_fresh: "answer_from sha rq t \<noteq> Fresh st b"
  by (auto simp: answer_from_def split: option.splits)

lemma served_ok:
  assumes "served sha w w'" "world_ok w"
  shows "world_ok w'"
  using assms(1)
proof cases
  case (first i rq t)
  then show ?thesis using first_ok [OF assms(2)] by simp
next
  case (again i rq t)
  have "w\<lparr>wd_table := t\<rparr> = w" using claim_False [OF assms(2) again(4)] by (cases w) simp
  then show ?thesis using again_ok [OF assms(2) again(2), of rq] again(1) by simp
next
  case (look i rq)
  have "world_ok (w\<lparr>wd_flights := (wd_flights w)(i := None)\<rparr>)" by (rule leave_ok [OF assms(2) look(2)])
  moreover have "effects (w\<lparr>wd_flights := (wd_flights w)(i := None)\<rparr>) k = effects w k" for k by (simp add: effects_def)
  moreover have "(st, b) \<in> set (effects w (slot_of rq))"
    if "answer_from sha rq (wd_table w) = Fresh st b \<or> answer_from sha rq (wd_table w) = Replay st b" for st b
    using that replay_true [OF assms(2)] by (auto simp: answer_from_not_fresh)
  ultimately show ?thesis
    using answer_ok [of "w\<lparr>wd_flights := (wd_flights w)(i := None)\<rparr>" "answer_from sha rq (wd_table w)" rq] look(1) by simp
next
  case (handle i rq c st b)
  then show ?thesis using handle_ok [OF assms(2)] by simp
next
  case (settled i rq c st b)
  have "st < 500 \<Longrightarrow> effects w (slot_of rq) = [(st, b)]"
    using holder_stays [OF settled(2) _ world_okD(1) [OF assms(2)]] by auto
  then show ?thesis
    using answer_ok [OF settled_ok [OF assms(2) settled(2)], of "Fresh st b" rq] settled(1) by (auto simp: effects_def)
next
  case (gone i rq)
  then show ?thesis using leave_ok [OF assms(2)] by simp
next
  case (tick t)
  have "key_ok (w\<lparr>wd_now := t\<rparr>) k" for k
    by (rule key_ok_cong [OF world_okD(1) [OF assms(2)]]) (simp_all add: holders_def effects_def)
  then show ?thesis using tick world_okD(3) [OF assms(2)] by (simp add: world_ok_def answers_true_def effects_def)
qed

lemma serves_ok: "serves sha w w' \<Longrightarrow> world_ok w \<Longrightarrow> world_ok w'"
  by (induction rule: serves.induct) (auto intro: served_ok)

lemma idle_ok: "world_ok (idle now)"
  by (simp add: world_ok_def key_ok_def idle_def holders_def effects_def timely_def answers_true_def)

subsection \<open>Once\<close>


text \<open>The service that is promised: each key is answered by one result, for good.\<close>

type_synonym Once = "slot_key \<rightharpoonup> int \<times> string"

definition once_step :: "Once \<Rightarrow> Once \<Rightarrow> bool" where
  "once_step m m' \<longleftrightarrow> m' = m \<or> (\<exists>k v. m k = None \<and> m' = m(k \<mapsto> v))"

definition abs_once :: "'h World \<Rightarrow> Once" where
  "abs_once w k = (case effects w k of [] \<Rightarrow> None | v # _ \<Rightarrow> Some v)"

lemma abs_handle:
  assumes "world_ok w" "wd_flights w i = Some (rq, Claimed c)"
  shows "once_step (abs_once w) (abs_once (w\<lparr>wd_flights := fl, wd_ran := wd_ran w @ [(slot_of rq, st, b)]\<rparr>))"
proof -
  have none: "effects w (slot_of rq) = []" using holder_stays [OF assms(2) _ world_okD(1) [OF assms(1)]] by auto
  let ?w = "w\<lparr>wd_flights := fl, wd_ran := wd_ran w @ [(slot_of rq, st, b)]\<rparr>"
  show ?thesis
  proof (cases "st < 500")
    case True
    then have "abs_once ?w = (abs_once w)(slot_of rq \<mapsto> (st, b))"
      by (auto simp: abs_once_def effects_more none fun_eq_iff)
    moreover have "abs_once w (slot_of rq) = None" by (simp add: abs_once_def none)
    ultimately show ?thesis unfolding once_step_def by blast
  next
    case False
    then have "abs_once ?w = abs_once w" by (auto simp: abs_once_def effects_more fun_eq_iff)
    then show ?thesis by (simp add: once_step_def)
  qed
qed


subsection \<open>A receipt that is lost\<close>

definition receipt_at :: "(string \<Rightarrow> 'h) \<Rightarrow> int \<Rightarrow> Asked \<Rightarrow> 'h Receipt" where
  "receipt_at sha now rq = \<lparr>rc_user = rq_user rq, rc_method = rq_method rq, rc_path = rq_path rq, rc_hash = sha (rq_body rq),
     rc_created = now, rc_settled = None\<rparr>"

text \<open>
  One request from its arrival to the handler's answer, on a table where its key is free or stale.
\<close>
lemma run_once:
  assumes "keyed rq" "wd_flights w = Map.empty" "drop_stale (wd_now w) (slot_of rq) (wd_table w) = t" "t (slot_of rq) = None"
  shows "serves sha w (w\<lparr>wd_table := t(slot_of rq \<mapsto> receipt_at sha (wd_now w) rq),
    wd_flights := [0 \<mapsto> (rq, Handled (wd_now w) st b)], wd_ran := wd_ran w @ [(slot_of rq, st, b)]\<rparr>)"
proof -
  let ?t = "t(slot_of rq \<mapsto> receipt_at sha (wd_now w) rq)"
  have "claim sha (wd_now w) rq (wd_table w) = (True, ?t)"
    using assms(3,4) by (simp add: claim_def Let_def receipt_at_def)
  from served.first [OF _ assms(1) this, of 0] assms(2)
  have "served sha w (w\<lparr>wd_table := ?t, wd_flights := [0 \<mapsto> (rq, Claimed (wd_now w))]\<rparr>)" by simp
  from serves.more [OF serves.start this] show ?thesis
    by (rule serves.more) (use served.handle [of "w\<lparr>wd_table := ?t, wd_flights := [0 \<mapsto> (rq, Claimed (wd_now w))]\<rparr>" 0 rq "wd_now w" sha st b] in simp)
qed

lemma serves_trans: "serves sha w' w'' \<Longrightarrow> serves sha w w' \<Longrightarrow> serves sha w w''"
  by (induction rule: serves.induct) (auto intro: serves.more)

text \<open>
  A receipt that cannot be written (the middleware logs the failure and answers all the same) makes
  the write run again: the claim it leaves behind counts as abandoned after two minutes, and a repeat
  of the same request then takes effect a second time.
\<close>
theorem lost_receipt_runs_twice:
  assumes "keyed rq"
  shows "\<exists>w1 w2 w3. serves sha (idle 0) w1 \<and> mishap w1 w2 \<and> serves sha w2 w3 \<and> effects w3 (slot_of rq) = [(200, b1), (200, b2)]"
proof (intro exI conjI)
  let ?r = "receipt_at sha 0 rq"
  let ?w1 = "(idle 0)\<lparr>wd_table := [slot_of rq \<mapsto> ?r], wd_flights := [0 \<mapsto> (rq, Handled 0 200 b1)], wd_ran := [(slot_of rq, 200, b1)]\<rparr>"
  let ?w2 = "?w1\<lparr>wd_flights := Map.empty, wd_answers := [(rq, Fresh 200 b1)]\<rparr>"
  let ?late = "?w2\<lparr>wd_now := 120001\<rparr>"
  show "serves sha (idle 0) ?w1" using run_once [OF assms, of "idle 0" Map.empty sha 200 b1] by (simp add: idle_def drop_stale_def)
  show "mishap ?w1 ?w2" using mishap.unsettled [of ?w1 0 rq 0 200 b1] by (simp add: idle_def)
  have "served sha ?w2 ?late" using served.tick [of ?w2 120001 sha] by (simp add: idle_def timely_def)
  moreover have "drop_stale (wd_now ?late) (slot_of rq) (wd_table ?late) = Map.empty"
    by (simp add: drop_stale_def receipt_at_def STALE_AFTER_def)
  ultimately show "serves sha ?w2 (?late\<lparr>wd_table := [slot_of rq \<mapsto> receipt_at sha 120001 rq],
      wd_flights := [0 \<mapsto> (rq, Handled 120001 200 b2)], wd_ran := [(slot_of rq, 200, b1), (slot_of rq, 200, b2)]\<rparr>)"
    using serves_trans [OF run_once [OF assms, of ?late Map.empty sha 200 b2] serves.more [OF serves.start]] by simp
  show "effects (?late\<lparr>wd_table := [slot_of rq \<mapsto> receipt_at sha 120001 rq],
      wd_flights := [0 \<mapsto> (rq, Handled 120001 200 b2)], wd_ran := [(slot_of rq, 200, b1), (slot_of rq, 200, b2)]\<rparr>) (slot_of rq)
    = [(200, b1), (200, b2)]"
    by (simp add: effects_def)
qed

definition demo_asked :: Asked where
  "demo_asked = \<lparr>rq_key = ''3f2a'', rq_method = ''POST'', rq_ctype = Some ''application/json'', rq_inst = Some ''school'', rq_user = ''u1'',
     rq_path = ''/api/v1/homework'', rq_body = ''{}''\<rparr>"

lemma demo_keyed: "keyed demo_asked"
  by (simp add: keyed_def passes_through_def demo_asked_def MAX_BODY_def js_trim_def is_space_def to_lower_def lower_char_def Let_def)

lemma lost_receipt_runs_twice_witness:
  "keyed demo_asked \<and> (\<exists>w1 w2 w3. serves id (idle 0) w1 \<and> mishap w1 w2 \<and> serves id w2 w3
     \<and> effects w3 (slot_of demo_asked) = [(200, ''first''), (200, ''second'')])"
  using lost_receipt_runs_twice [OF demo_keyed, of id "''first''" "''second''"] demo_keyed by blast

text \<open>A run in which the request is sent twice: the second is answered from the receipt.\<close>

definition demo_after :: "string World" where
  "demo_after = \<lparr>wd_now = 0, wd_table = [slot_of demo_asked \<mapsto> (receipt_at id 0 demo_asked)\<lparr>rc_settled := Some (200, ''done'')\<rparr>],
     wd_flights = Map.empty, wd_ran = [(slot_of demo_asked, 200, ''done'')],
     wd_answers = [(demo_asked, Fresh 200 ''done''), (demo_asked, Replay 200 ''done'')]\<rparr>"

lemma demo_serves:
  defines "sent \<equiv> (idle 0)\<lparr>wd_table := [slot_of demo_asked \<mapsto> receipt_at id 0 demo_asked],
    wd_flights := [0 \<mapsto> (demo_asked, Handled 0 200 ''done'')], wd_ran := [(slot_of demo_asked, 200, ''done'')]\<rparr>"
  defines "again \<equiv> demo_after\<lparr>wd_flights := [0 \<mapsto> (demo_asked, Looking)], wd_answers := [(demo_asked, Fresh 200 ''done'')]\<rparr>"
  shows "serves id (idle 0) sent" "served id sent (again\<lparr>wd_flights := Map.empty\<rparr>)" "served id (again\<lparr>wd_flights := Map.empty\<rparr>) again"
    "served id again demo_after"
proof -
  show "serves id (idle 0) sent"
    using run_once [OF demo_keyed, of "idle 0" Map.empty id 200 "''done''"] by (simp add: sent_def idle_def drop_stale_def)
  show "served id sent (again\<lparr>wd_flights := Map.empty\<rparr>)"
    using served.settled [of sent 0 demo_asked 0 200 "''done''" id]
    by (simp add: sent_def again_def demo_after_def idle_def settle_def)
  show "served id (again\<lparr>wd_flights := Map.empty\<rparr>) again"
    using served.again [of "again\<lparr>wd_flights := Map.empty\<rparr>" 0 demo_asked id "wd_table demo_after"] demo_keyed
    by (simp add: again_def demo_after_def claim_def drop_stale_def Let_def)
  show "served id again demo_after"
    using served.look [of again 0 demo_asked id]
    by (simp add: again_def demo_after_def answer_from_def receipt_at_def)
qed



end
