(* ===== verification/OutboxProps.thy ===== *)
theory OutboxProps
  imports Outbox IdempotencyProps
begin

text \<open>
  The queue on the device, and the queue together with the middleware it relies on: the order of
  sending, that nothing is lost, that a working connection empties it, and two ways a press is done
  under the wrong name or twice.
\<close>

subsection \<open>Rows and changes\<close>

lemma read_write: "\<not> dv_full d \<Longrightarrow> read_box (write_box now q d) = filter (kept now) q"
  by (simp add: read_box_def write_box_def)

lemma write_fields [simp]: "dv_user (write_box now q d) = dv_user d" "dv_full (write_box now q d) = dv_full d"
  by (simp_all add: write_box_def)

lemma keep_corrupt_fields [simp]: "dv_user (keep_corrupt d) = dv_user d" "dv_full (keep_corrupt d) = dv_full d"
  by (simp_all add: keep_corrupt_def split: option.splits Stored.splits)

lemma read_keep [simp]: "read_box (keep_corrupt d) = read_box d"
  by (auto simp: keep_corrupt_def read_box_def split: option.splits Stored.splits)

lemma change_fields [simp]: "dv_user (change_row now rid f d) = dv_user d" "dv_full (change_row now rid f d) = dv_full d"
  by (simp_all add: change_row_def Let_def)

lemma upd_row_same: "\<not> list_ex (\<lambda>r. q_id r = rid) q \<Longrightarrow> upd_row rid f q = q"
  by (induction q) auto

lemma upd_row_map:
  assumes "distinct (map q_id q)"
  shows "upd_row rid f q = map (\<lambda>r. if q_id r = rid then f r else r) q"
  using assms
proof (induction q)
  case (Cons r q)
  have "q_id x \<noteq> q_id r" if "x \<in> set q" for x using Cons.prems that by (metis distinct.simps(2) image_eqI list.set_map list.simps(9))
  then have "map (\<lambda>r. if q_id r = rid then f r else r) q = q" if "q_id r = rid"
    using that by (intro map_idI) auto
  then show ?case using Cons by auto
qed simp

text \<open>
  What a change leaves in the store: the changed rows that are still kept.
\<close>
lemma read_change:
  assumes "\<not> dv_full d" "distinct (map q_id (read_box d))" "list_ex (\<lambda>r. q_id r = rid) (read_box d)"
  shows "read_box (change_row now rid f d) = filter (kept now) (map (\<lambda>r. if q_id r = rid then f r else r) (read_box d))"
  using assms by (simp add: change_row_def Let_def read_write upd_row_map)

lemma read_change_none: "\<not> list_ex (\<lambda>r. q_id r = rid) (read_box d) \<Longrightarrow> read_box (change_row now rid f d) = read_box d"
  by (simp add: change_row_def Let_def)

subsection \<open>Order\<close>

definition answered_below_500 :: "Wait \<Rightarrow> bool" where
  "answered_below_500 w \<longleftrightarrow> (case wt_outcome w of NoAnswer \<Rightarrow> False | Answered st _ \<Rightarrow> st < 500)"

lemma run_rows_answered:
  assumes "\<not> too_early force row w" "wt_outcome w = Answered st msg" "\<not> 500 \<le> st"
  shows "run_rows force (row # rows) (w # ws) d =
    (let (posts, d2) = run_rows force rows ws (change_row (wt_back w) (q_id row) (answer_row (wt_back w) st msg) (fold happen (wt_events w) d))
     in ((dv_user d, row) # posts, d2))"
  using assms by (simp add: Let_def)

lemma run_rows_failed:
  assumes "\<not> too_early force row w" "\<not> answered_below_500 w"
  shows "\<exists>why. run_rows force (row # rows) (w # ws) d = ([(dv_user d, row)], later (wt_back w) (q_id row) why (fold happen (wt_events w) d))"
  using assms by (auto simp: Let_def answered_below_500_def split: Outcome.splits)

declare run_rows.simps(3) [simp del]

lemma run_rows_order:
  "\<exists>n\<le>length ws. map snd (fst (run_rows force rows ws d)) = take n rows \<and> list_all answered_below_500 (take (n - 1) ws)"
proof (induction force rows ws d rule: run_rows.induct)
  case (3 force row rows w ws d)
  show ?case
  proof (cases "too_early force row w")
    case True
    then show ?thesis by (intro exI [of _ 0]) (simp add: run_rows.simps(3))
  next
    case early: False
    let ?d1 = "fold happen (wt_events w) d"
    show ?thesis
    proof (cases "answered_below_500 w")
      case True
      then obtain st msg where out: "wt_outcome w = Answered st msg" "\<not> 500 \<le> st"
        by (auto simp: answered_below_500_def split: Outcome.splits)
      from "3.IH" [OF early refl refl out] obtain n where n: "n \<le> length ws"
        "map snd (fst (run_rows force rows ws (change_row (wt_back w) (q_id row) (answer_row (wt_back w) st msg) ?d1))) = take n rows"
        "list_all answered_below_500 (take (n - 1) ws)" by blast
      have "list_all answered_below_500 (take n (w # ws))" using n(3) True by (cases n) simp_all
      then show ?thesis using n early out by (intro exI [of _ "Suc n"]) (simp add: run_rows_answered Let_def split_def)
    next
      case False
      then have "map snd (fst (run_rows force (row # rows) (w # ws) d)) = [row]"
        using run_rows_failed [OF early False, of rows ws d] by auto
      then show ?thesis by (intro exI [of _ 1]) simp
    qed
  qed
qed (auto intro: exI [of _ 0])

subsection \<open>Nothing is lost\<close>

definition same_write :: "Queued \<Rightarrow> Queued \<Rightarrow> bool" where
  "same_write r r' \<longleftrightarrow> q_id r' = q_id r \<and> q_key r' = q_key r \<and> q_method r' = q_method r \<and> q_path r' = q_path r \<and> q_body r' = q_body r"

text \<open>Taken by the server: the state \<open>Sent\<close> does not depend on the time.\<close>

definition taken_row :: "Queued \<Rightarrow> bool" where
  "taken_row r \<longleftrightarrow> stateOf 0 r = Sent"

lemma taken_any_time: "stateOf now r = Sent \<longleftrightarrow> taken_row r"
  by (simp add: taken_row_def stateOf_def)

lemma kept_untaken: "\<not> taken_row r \<Longrightarrow> kept now r"
  by (simp add: kept_def taken_any_time)

lemma same_write_refl [simp]: "same_write r r"
  by (simp add: same_write_def)

lemma same_write_trans: "same_write r r' \<Longrightarrow> same_write r' r'' \<Longrightarrow> same_write r r''"
  by (simp add: same_write_def)

lemma read_change_keeps:
  assumes "\<not> dv_full d" "distinct (map q_id (read_box d))" "r \<in> set (read_box d)"
    "\<not> taken_row (if q_id r = rid then f r else r)" "same_write r (f r)"
  shows "\<exists>r'\<in>set (read_box (change_row now rid f d)). same_write r r' \<and> \<not> taken_row r'"
proof (cases "list_ex (\<lambda>x. q_id x = rid) (read_box d)")
  case True
  let ?r = "if q_id r = rid then f r else r"
  have "?r \<in> set (read_box (change_row now rid f d))"
    using assms(3) kept_untaken [OF assms(4)] by (auto simp: read_change [OF assms(1,2) True])
  moreover have "same_write r ?r" using assms(5) by simp
  ultimately show ?thesis using assms(4) by blast
next
  case False
  then have "q_id r \<noteq> rid" using assms(3) by (auto simp: list_ex_iff)
  then show ?thesis using assms(3,4) False by (auto simp: read_change_none intro!: bexI [of _ r])
qed

lemma distinct_change:
  assumes "\<not> dv_full d" "distinct (map q_id (read_box d))" "\<And>r. q_id (f r) = q_id r"
  shows "distinct (map q_id (read_box (change_row now rid f d)))"
proof (cases "list_ex (\<lambda>r. q_id r = rid) (read_box d)")
  case True
  have "map q_id (map (\<lambda>r. if q_id r = rid then f r else r) (read_box d)) = map q_id (read_box d)" using assms(3) by simp
  then show ?thesis using assms(2) by (simp only: read_change [OF assms(1,2) True] distinct_map_filter)
qed (use assms in \<open>simp add: read_change_none\<close>)

text \<open>Answered and taken in this pass.\<close>

definition taken_in :: "Post list \<Rightarrow> Wait list \<Rightarrow> Queued \<Rightarrow> bool" where
  "taken_in posts ws r \<longleftrightarrow> (\<exists>i<length posts. q_id (snd (posts ! i)) = q_id r
     \<and> (case wt_outcome (ws ! i) of Answered st _ \<Rightarrow> st < 400 | NoAnswer \<Rightarrow> False))"

lemma taken_in_Cons: "taken_in posts ws r \<Longrightarrow> taken_in (p # posts) (w # ws) r"
  unfolding taken_in_def by (metis Suc_less_eq length_Cons nth_Cons_Suc)

lemma later_keeps_row: "taken_row (r\<lparr>q_attempts := a, q_next_at := n, q_last_error := e\<rparr>) = taken_row r"
  by (simp add: taken_row_def stateOf_def truthy_def)

lemma run_rows_keeps:
  assumes "list_all (\<lambda>w. wt_events w = []) ws" "\<not> dv_full d" "distinct (map q_id (read_box d))" "r \<in> set (read_box d)" "\<not> taken_row r"
  shows "(\<exists>r'\<in>set (read_box (snd (run_rows force rows ws d))). same_write r r' \<and> \<not> taken_row r') \<or> taken_in (fst (run_rows force rows ws d)) ws r"
  using assms
proof (induction force rows ws d arbitrary: r rule: run_rows.induct)
  case (3 force row rows w ws d)
  have quiet: "wt_events w = []" "list_all (\<lambda>w. wt_events w = []) ws" using "3.prems"(1) by simp_all
  show ?case
  proof (cases "too_early force row w")
    case True
    then show ?thesis using "3.prems"(4,5) by (auto simp: run_rows.simps(3) intro!: bexI [of _ r])
  next
    case early: False
    show ?thesis
    proof (cases "answered_below_500 w")
      case False
      from run_rows_failed [OF early this, of rows ws d] quiet(1) obtain why
        where "run_rows force (row # rows) (w # ws) d = ([(dv_user d, row)], later (wt_back w) (q_id row) why d)" by auto
      moreover have "\<exists>r'\<in>set (read_box (later (wt_back w) (q_id row) why d)). same_write r r' \<and> \<not> taken_row r'"
        unfolding later_def
        by (rule read_change_keeps [OF "3.prems"(2,3,4)]) (use "3.prems"(5) in \<open>simp_all add: later_keeps_row same_write_def\<close>)
      ultimately show ?thesis by simp
    next
      case True
      then obtain st msg where out: "wt_outcome w = Answered st msg" "\<not> 500 \<le> st"
        by (auto simp: answered_below_500_def split: Outcome.splits)
      let ?d = "change_row (wt_back w) (q_id row) (answer_row (wt_back w) st msg) d"
      let ?run = "run_rows force rows ws ?d"
      have run: "run_rows force (row # rows) (w # ws) d = ((dv_user d, row) # fst ?run, snd ?run)"
        using run_rows_answered [OF early out, of rows ws d] quiet(1) by (simp add: split_def Let_def)
      have IH: "(\<exists>r''\<in>set (read_box (snd ?run)). same_write r' r'' \<and> \<not> taken_row r'') \<or> taken_in (fst ?run) ws r'"
        if "r' \<in> set (read_box ?d)" "\<not> taken_row r'" for r'
        using "3.IH" [OF early refl refl out, of r'] that quiet "3.prems"(2)
          distinct_change [OF "3.prems"(2,3), of "answer_row (wt_back w) st msg"] by (simp add: answer_row_def)
      show ?thesis
      proof (cases "q_id r = q_id row \<and> st < 400")
        case True
        then have "taken_in (fst (run_rows force (row # rows) (w # ws) d)) (w # ws) r"
          unfolding taken_in_def run using out by (intro exI [of _ 0]) simp
        then show ?thesis by blast
      next
        case False
        have "\<exists>r'\<in>set (read_box ?d). same_write r r' \<and> \<not> taken_row r'"
        proof (rule read_change_keeps [OF "3.prems"(2,3,4)])
          show "\<not> taken_row (if q_id r = q_id row then answer_row (wt_back w) st msg r else r)"
            using False "3.prems"(5) by (auto simp: taken_row_def stateOf_def answer_row_def truthy_def)
        qed (simp add: answer_row_def same_write_def)
        then obtain r' where r': "r' \<in> set (read_box ?d)" "same_write r r'" "\<not> taken_row r'" by blast
        have "taken_in (fst ?run) ws r' \<Longrightarrow> taken_in (fst ?run) ws r" using r'(2) by (simp add: taken_in_def same_write_def)
        then show ?thesis using IH [OF r'(1,3)] same_write_trans [OF r'(2)] taken_in_Cons unfolding run by auto
      qed
    qed
  qed
qed (simp_all, (metis same_write_refl)+)


text \<open>
  Writes go out strictly in the order they were made: a pass sends the first of the pending rows, in
  order and without gaps, and goes past a row only when the server has answered it.
\<close>
theorem flush_in_order:
  "\<exists>n\<le>length ws. map snd (fst (flush force now ws d)) = take n (pending_rows now d) \<and> list_all answered_below_500 (take (n - 1) ws)"
  unfolding flush_def by (rule run_rows_order)

subsection \<open>A connection empties the queue\<close>

text \<open>An answer comes and the person does nothing meanwhile.\<close>

definition prompt :: "Wait \<Rightarrow> bool" where
  "prompt w \<longleftrightarrow> wt_events w = [] \<and> answered_below_500 w \<and> wt_back w \<noteq> 0"

lemma read_answered:
  assumes "\<not> dv_full d" "distinct (map q_id (read_box d))" "now \<noteq> 0" "r \<in> set (read_box (change_row now rid (answer_row now st msg) d))"
  shows "if q_id r = rid then truthy (q_sent_at r) else r \<in> set (read_box d)"
proof (cases "list_ex (\<lambda>x. q_id x = rid) (read_box d)")
  case True
  then show ?thesis using assms(3,4)
    by (auto simp: read_change [OF assms(1,2) True] answer_row_def truthy_def split: if_splits)
next
  case False
  then show ?thesis using assms(4) by (auto simp: read_change_none list_ex_iff)
qed

lemma run_rows_drains:
  assumes "list_all prompt ws" "length rows \<le> length ws" "\<not> dv_full d" "distinct (map q_id (read_box d))" "distinct (map q_id rows)"
  shows "fst (run_rows True rows ws d) = map (Pair (dv_user d)) rows
    \<and> (\<forall>r\<in>set (read_box (snd (run_rows True rows ws d))). if q_id r \<in> q_id ` set rows then truthy (q_sent_at r) else r \<in> set (read_box d))"
  using assms
proof (induction rows arbitrary: ws d)
  case (Cons row rows)
  then obtain w ws' where ws: "ws = w # ws'" by (cases ws) auto
  have w: "wt_events w = []" "answered_below_500 w" "wt_back w \<noteq> 0" using Cons.prems(1) ws by (simp_all add: prompt_def)
  then obtain st msg where out: "wt_outcome w = Answered st msg" "\<not> 500 \<le> st"
    by (auto simp: answered_below_500_def split: Outcome.splits)
  let ?d = "change_row (wt_back w) (q_id row) (answer_row (wt_back w) st msg) d"
  let ?run = "run_rows True rows ws' ?d"
  have run: "run_rows True (row # rows) ws d = ((dv_user d, row) # fst ?run, snd ?run)"
    using run_rows_answered [of True row w, OF _ out, of rows ws' d] w(1) by (simp add: ws split_def Let_def too_early_def)
  have "distinct (map q_id (read_box ?d))" by (rule distinct_change [OF Cons.prems(3,4)]) (simp add: answer_row_def)
  then have IH: "fst ?run = map (Pair (dv_user d)) rows"
    "\<And>r. r \<in> set (read_box (snd ?run)) \<Longrightarrow> if q_id r \<in> q_id ` set rows then truthy (q_sent_at r) else r \<in> set (read_box ?d)"
    using Cons.IH [of ws' ?d] Cons.prems ws by auto
  have "if q_id r \<in> q_id ` set (row # rows) then truthy (q_sent_at r) else r \<in> set (read_box d)" if "r \<in> set (read_box (snd ?run))" for r
    using IH(2) [OF that] read_answered [OF Cons.prems(3,4) w(3), of r "q_id row" st msg] by (auto split: if_splits)
  then show ?case using IH(1) by (simp add: run)
qed simp


lemma retry_wait_bounds: "BACKOFF_BASE_MS \<le> backoff n" "backoff n \<le> BACKOFF_MAX_MS"
  by (simp_all add: backoff_def BACKOFF_BASE_MS_def BACKOFF_MAX_MS_def)

subsection \<open>Another person signs in\<close>

text \<open>
  A pass goes on under the next person's session: when somebody else signs in while a request is
  out, the rows behind it, which the first person made, are sent as the second.
\<close>
theorem sign_in_mid_flush:
  assumes "pending_rows now d = [r1, r2]" "wt_events w1 = [SignIn b]" "wt_outcome w1 = Answered st1 m1" "st1 < 500"
    "wt_events w2 = []" "wt_outcome w2 = Answered st2 m2" "st2 < 500"
  shows "fst (flush True now [w1, w2] d) = [(dv_user d, r1), (b, r2)]"
proof -
  have user: "dv_user (fold happen (wt_events w1) (keep_corrupt d)) = b" using assms(2) by (simp add: setOutboxUser_def)
  have "\<not> 500 \<le> st1" "\<not> 500 \<le> st2" using assms(4,7) by simp_all
  then show ?thesis using user
    by (simp add: flush_def assms(1) run_rows_answered [OF _ assms(3)] run_rows_answered [OF _ assms(6)] too_early_def split_def Let_def)
qed

definition demo_row :: "string \<Rightarrow> Queued" where
  "demo_row k = row_of 1 k \<lparr>en_key = k, en_method = ''POST'', en_path = ''/api/v1/homework'', en_body = Some ''{}'', en_label = None\<rparr>"

definition demo_device :: Device where
  "demo_device = \<lparr>dv_user = Some ''u1'', dv_store = [''erp-outbox:u1'' \<mapsto> Rows [demo_row ''k1'', demo_row ''k2'']], dv_full = False\<rparr>"

definition demo_wait :: "Event list \<Rightarrow> int \<Rightarrow> Wait" where
  "demo_wait evs st = \<lparr>wt_asked = 5, wt_events = evs, wt_back = 9, wt_outcome = Answered st ''''\<rparr>"

lemma demo_pending: "pending_rows 5 demo_device = [demo_row ''k1'', demo_row ''k2'']" "distinct (map q_id (read_box demo_device))"
  "read_box demo_device = [demo_row ''k1'', demo_row ''k2'']"
  by (simp_all add: pending_rows_def read_box_def demo_device_def keyFor_def KEY_PREFIX_def stateOf_def demo_row_def row_of_def truthy_def GIVE_UP_AFTER_MS_def)

lemma sign_in_mid_flush_witness:
  "fst (flush True 5 [demo_wait [SignIn (Some ''u2'')] 200, demo_wait [] 200] demo_device) = [(Some ''u1'', demo_row ''k1''), (Some ''u2'', demo_row ''k2'')]"
  using sign_in_mid_flush [OF demo_pending(1), of "demo_wait [SignIn (Some ''u2'')] 200" "Some ''u2''" 200 "''''" "demo_wait [] 200" 200 "''''"]
  by (simp add: demo_wait_def demo_device_def)



subsection \<open>A press done twice\<close>

definition asked_of :: "string option \<Rightarrow> Post \<Rightarrow> Asked" where
  "asked_of inst po = \<lparr>rq_key = q_key (snd po), rq_method = q_method (snd po), rq_ctype = content_type (snd po), rq_inst = inst,
     rq_user = (case fst po of Some u \<Rightarrow> u | None \<Rightarrow> ''''), rq_path = q_path (snd po), rq_body = (case q_body (snd po) of Some b \<Rightarrow> b | None \<Rightarrow> '''')\<rparr>"

text \<open>
  The server side of it: a request is repeated while its handler is at work, and another one is made.
\<close>
lemma repeat_in_flight:
  assumes "keyed r1" "keyed r2" "slot_of r1 \<noteq> slot_of r2"
  shows "\<exists>w. serves sha (idle 0) w \<and> (r1, InFlight) \<in> set (wd_answers w) \<and> (r2, Fresh 200 b2) \<in> set (wd_answers w)
    \<and> effects w (slot_of r1) = [(200, b1)] \<and> effects w (slot_of r2) = [(200, b2)]"
proof -
  let ?t1 = "[slot_of r1 \<mapsto> receipt_at sha 0 r1]"
  let ?t2 = "?t1(slot_of r2 \<mapsto> receipt_at sha 0 r2)"
  let ?w = "\<lambda>t fl ran as. \<lparr>wd_now = 0, wd_table = t, wd_flights = fl, wd_ran = ran, wd_answers = as\<rparr>"
  let ?c = "(r1, Claimed 0)"
  have 1: "served sha (idle 0) (?w ?t1 [0 \<mapsto> ?c] [] [])"
    using served.first [of "idle 0" 0 r1 sha ?t1] assms(1) by (simp add: idle_def claim_def drop_stale_def receipt_at_def Let_def)
  have 2: "served sha (?w ?t1 [0 \<mapsto> ?c] [] []) (?w ?t1 [0 \<mapsto> ?c, 1 \<mapsto> (r1, Looking)] [] [])"
    using served.again [of "?w ?t1 [0 \<mapsto> ?c] [] []" 1 r1 sha ?t1] assms(1) by (simp add: claim_def drop_stale_def receipt_at_def STALE_AFTER_def Let_def)
  have 3: "served sha (?w ?t1 [0 \<mapsto> ?c, 1 \<mapsto> (r1, Looking)] [] []) (?w ?t1 [0 \<mapsto> ?c] [] [(r1, InFlight)])"
    using served.look [of "?w ?t1 [0 \<mapsto> ?c, 1 \<mapsto> (r1, Looking)] [] []" 1 r1 sha] by (simp add: answer_from_def receipt_at_def)
  have 4: "served sha (?w ?t1 [0 \<mapsto> ?c] [] [(r1, InFlight)]) (?w ?t2 [0 \<mapsto> ?c, 1 \<mapsto> (r2, Claimed 0)] [] [(r1, InFlight)])"
    using served.first [of "?w ?t1 [0 \<mapsto> ?c] [] [(r1, InFlight)]" 1 r2 sha ?t2] assms(2,3)
    by (simp add: claim_def drop_stale_def receipt_at_def Let_def)
  have 5: "served sha (?w ?t2 [0 \<mapsto> ?c, 1 \<mapsto> (r2, Claimed 0)] [] [(r1, InFlight)])
      (?w ?t2 [0 \<mapsto> ?c, 1 \<mapsto> (r2, Handled 0 200 b2)] [(slot_of r2, 200, b2)] [(r1, InFlight)])"
    using served.handle [of "?w ?t2 [0 \<mapsto> ?c, 1 \<mapsto> (r2, Claimed 0)] [] [(r1, InFlight)]" 1 r2 0 sha 200 b2] by simp
  have 6: "served sha (?w ?t2 [0 \<mapsto> ?c, 1 \<mapsto> (r2, Handled 0 200 b2)] [(slot_of r2, 200, b2)] [(r1, InFlight)])
      (?w (settle (slot_of r2) 200 b2 ?t2) [0 \<mapsto> ?c] [(slot_of r2, 200, b2)] [(r1, InFlight), (r2, Fresh 200 b2)])"
    using served.settled [of "?w ?t2 [0 \<mapsto> ?c, 1 \<mapsto> (r2, Handled 0 200 b2)] [(slot_of r2, 200, b2)] [(r1, InFlight)]" 1 r2 0 200 b2 sha] by simp
  let ?fin = "?w (settle (slot_of r2) 200 b2 ?t2) [0 \<mapsto> (r1, Handled 0 200 b1)] [(slot_of r2, 200, b2), (slot_of r1, 200, b1)]
    [(r1, InFlight), (r2, Fresh 200 b2)]"
  have 7: "served sha (?w (settle (slot_of r2) 200 b2 ?t2) [0 \<mapsto> ?c] [(slot_of r2, 200, b2)] [(r1, InFlight), (r2, Fresh 200 b2)]) ?fin"
    using served.handle [of "?w (settle (slot_of r2) 200 b2 ?t2) [0 \<mapsto> ?c] [(slot_of r2, 200, b2)] [(r1, InFlight), (r2, Fresh 200 b2)]" 0 r1 0 sha 200 b1]
    by simp
  have "serves sha (idle 0) ?fin"
    by (rule serves.more [OF serves.more [OF serves.more [OF serves.more [OF serves.more [OF serves.more [OF serves.more [OF serves.start
      1] 2] 3] 4] 5] 6] 7])
  then show ?thesis using assms(3) by (intro exI [of _ ?fin]) (simp add: effects_def)
qed

text \<open>
  The device side: the press whose answer is lost is queued; the pass that asks again is told 409
  (the first request is still at work); the person presses Retry; the next pass asks under a new key.
\<close>

definition empty_device :: Device where
  "empty_device = \<lparr>dv_user = Some ''u1'', dv_store = Map.empty, dv_full = False\<rparr>"

definition queued_press :: Device where
  "queued_press = snd (send_request 1 ''i1'' ''k1'' ''POST'' ''/api/v1/homework'' (Text ''{}'') None empty_device)"

definition refused_press :: Device where
  "refused_press = snd (flush True 5 [demo_wait [] (answer_status InFlight)] queued_press)"

definition retried_press :: Device where
  "retried_press = retry 10 ''k2'' ''i1'' refused_press"

definition the_post :: "Device \<Rightarrow> int \<Rightarrow> Post" where
  "the_post d now = hd (fst (flush True now [demo_wait [] 200] d))"

text \<open>
  One press can be done twice, with no fault of the server's: a write whose handler is still at work
  when it is sent again is refused as in flight, the queue shows that refusal as a conflict, and the
  Retry it offers sends the same write under a new key, which the middleware takes for another one.
\<close>
theorem press_done_twice:
  "\<exists>w. serves sha (idle 0) w
    \<and> map (stateOf 10) (read_box refused_press) = [Conflict]
    \<and> (asked_of (Some ''school'') (the_post queued_press 5), InFlight) \<in> set (wd_answers w)
    \<and> (asked_of (Some ''school'') (the_post retried_press 11), Fresh 200 b2) \<in> set (wd_answers w)
    \<and> q_id (snd (the_post queued_press 5)) = q_id (snd (the_post retried_press 11))
    \<and> effects w (''school'', ''k1'') = [(200, b1)] \<and> effects w (''school'', ''k2'') = [(200, b2)]"
proof -
  let ?r1 = "asked_of (Some ''school'') (the_post queued_press 5)"
  let ?r2 = "asked_of (Some ''school'') (the_post retried_press 11)"
  have k: "keyed ?r1" "keyed ?r2" by code_simp+
  have s: "slot_of ?r1 = (''school'', ''k1'')" "slot_of ?r2 = (''school'', ''k2'')" by code_simp+
  have c: "map (stateOf 10) (read_box refused_press) = [Conflict]" by code_simp
  have i: "q_id (snd (the_post queued_press 5)) = q_id (snd (the_post retried_press 11))" by code_simp
  from repeat_in_flight [OF k, of sha b2 b1] s show ?thesis using c i by auto
qed

end
