(* ===== verification/Banking.thy ===== *)
theory Banking
  imports FileFormats FineEngine
begin

text \<open>
  Bank reconciliation, \<open>worker/src/routes/fees/banking.ts\<close>: the book entries a statement is set
  against, the candidates for a line, automatic and manual matching, the import of a statement,
  finalising and reopening a period.  Each handler takes the rows it reads from the state it is given
  and returns the state after its statements; the unique indexes \<open>bank_statement_lines_once\<close> and
  \<open>bank_statement_lines_one_claim_per_entry\<close> of \<open>db/tenant.sql\<close> are part of them.  One institution;
  timestamps are left out.
\<close>

text \<open>\<open>isUUID\<close> of \<open>http.ts\<close>.\<close>

definition hex_char :: "char \<Rightarrow> bool" where
  "hex_char c \<longleftrightarrow> is_digit c \<or> (CHR ''a'' \<le> lower_char c \<and> lower_char c \<le> CHR ''f'')"

definition isUUID :: "string \<Rightarrow> bool" where
  "isUUID s \<longleftrightarrow> map length (js_split (CHR ''-'') s) = [8, 4, 4, 4, 12] \<and> list_all (\<lambda>c. c = CHR ''-'' \<or> hex_char c) s
     \<and> s ! 14 \<in> set ''12345678'' \<and> lower_char (s ! 19) \<in> set ''89ab''"

subsection \<open>The book\<close>

record BookEntry =
  be_kind :: string
  be_id :: string
  be_date :: string
  be_amount :: int
  be_reference :: "units option"
  be_party :: units

record PaymentSource =
  ps_id :: string
  ps_paid_on :: string
  ps_amount :: int
  ps_status :: string
  ps_mode :: string
  ps_reference_no :: "units option"
  ps_gateway_txn_id :: "units option"
  ps_receipt_no :: "units option"
  ps_party :: units

record VendorSource =
  vp_id :: string
  vp_paid_on :: string
  vp_amount :: int
  vp_tds :: int
  vp_mode :: string
  vp_account :: "string option"
  vp_reference_no :: "units option"
  vp_party :: units

record PayoutSource =
  po_id :: string
  po_value_date :: string
  po_amount :: int
  po_account :: string
  po_batch_status :: string
  po_status :: string
  po_utr :: "units option"
  po_party :: units

record RefundSource =
  rs_id :: string
  rs_processed_on :: "string option"
  rs_amount :: int
  rs_status :: string
  rs_party :: units

record Sources =
  sc_payments :: "PaymentSource list"
  sc_vendors :: "VendorSource list"
  sc_payouts :: "PayoutSource list"
  sc_refunds :: "RefundSource list"

text \<open>SQLite's \<open>TRIM\<close> takes blanks; \<open>NULLIF (.., '')\<close>.\<close>

definition sql_trim :: "units \<Rightarrow> units" where
  "sql_trim s = strip (\<lambda>c. c = 32) s"

definition null_if_empty :: "units \<Rightarrow> units option" where
  "null_if_empty s = (if s = [] then None else Some s)"

definition coalesce2 :: "'a option \<Rightarrow> 'a option \<Rightarrow> 'a option" where
  "coalesce2 a b = (case a of Some _ \<Rightarrow> a | None \<Rightarrow> b)"

definition or_null :: "units option \<Rightarrow> units option" where
  "or_null v = (case v of None \<Rightarrow> None | Some s \<Rightarrow> null_if_empty s)"

definition or_empty :: "units option \<Rightarrow> units" where
  "or_empty v = (case v of None \<Rightarrow> [] | Some s \<Rightarrow> s)"

definition payment_reference :: "PaymentSource \<Rightarrow> units option" where
  "payment_reference x = null_if_empty (sql_trim (or_empty (coalesce2 (or_null (ps_reference_no x))
     (coalesce2 (or_null (ps_gateway_txn_id x)) (Some (or_empty (ps_receipt_no x)))))))"

definition between :: "string \<Rightarrow> string \<Rightarrow> string \<Rightarrow> bool" where
  "between a b d \<longleftrightarrow> a \<le> d \<and> d \<le> b"

text \<open>\<open>BOOK_ENTRIES_SQL\<close>: \<open>ledger\<close> is the ledger account of the bank account, when it has one.\<close>

definition loadBookEntries :: "Sources \<Rightarrow> string \<Rightarrow> string option \<Rightarrow> string \<Rightarrow> string \<Rightarrow> BookEntry list" where
  "loadBookEntries s acct ledger start end0 =
     map (\<lambda>x. \<lparr>be_kind = ''payment'', be_id = ps_id x, be_date = ps_paid_on x, be_amount = ps_amount x, be_reference = payment_reference x,
            be_party = ps_party x\<rparr>)
       (filter (\<lambda>x. ps_status x = ''success'' \<and> ps_mode x \<notin> {''cash'', ''adjustment''} \<and> between start end0 (ps_paid_on x)) (sc_payments s))
   @ map (\<lambda>x. \<lparr>be_kind = ''vendor_payment'', be_id = vp_id x, be_date = vp_paid_on x, be_amount = - (vp_amount x - vp_tds x),
            be_reference = null_if_empty (sql_trim (or_empty (vp_reference_no x))), be_party = vp_party x\<rparr>)
       (filter (\<lambda>x. vp_mode x \<notin> {''cash'', ''adjustment''} \<and> between start end0 (vp_paid_on x)
          \<and> (ledger = None \<or> vp_account x = ledger)) (sc_vendors s))
   @ map (\<lambda>x. \<lparr>be_kind = ''payout_item'', be_id = po_id x, be_date = po_value_date x, be_amount = - po_amount x,
            be_reference = null_if_empty (sql_trim (or_empty (po_utr x))), be_party = po_party x\<rparr>)
       (filter (\<lambda>x. po_account x = acct \<and> po_batch_status x = ''exported'' \<and> po_status x \<in> {''exported'', ''paid''}
          \<and> between start end0 (po_value_date x)) (sc_payouts s))
   @ map (\<lambda>x. \<lparr>be_kind = ''refund'', be_id = rs_id x, be_date = the (rs_processed_on x), be_amount = - rs_amount x, be_reference = None,
            be_party = rs_party x\<rparr>)
       (filter (\<lambda>x. rs_status x = ''processed'' \<and> (case rs_processed_on x of None \<Rightarrow> False | Some d \<Rightarrow> between start end0 d)) (sc_refunds s))"

subsection \<open>Statement lines and periods\<close>

record 'h Line =
  ln_id :: string
  ln_rec :: "string option"
  ln_account :: string
  ln_date :: string
  ln_value_date :: "string option"
  ln_narration :: units
  ln_reference :: "units option"
  ln_amount :: int
  ln_balance :: "int option"
  ln_raw :: units
  ln_line_no :: nat
  ln_hash :: "'h option"
  ln_match :: "(string \<times> string) option"
  ln_confidence :: "string option"
  ln_matched_by :: "string option"
  ln_explained :: "string option"

record Rec =
  rn_id :: string
  rn_account :: string
  rn_start :: string
  rn_end :: string
  rn_opening :: int
  rn_closing :: int
  rn_status :: string
  rn_notes :: "string option"
  rn_finalised_by :: "string option"
  rn_book_closing :: "int option"
  rn_unmatched_bank :: "(nat \<times> int) option"
  rn_unmatched_book :: "(nat \<times> int) option"
  rn_difference :: "int option"
  rn_reopened :: "(string \<times> string) option"

record 'h Bank =
  bk_recs :: "Rec list"
  bk_lines :: "'h Line list"
  bk_imports :: "string list"

datatype BankError = Malformed | Missing | Refused string

definition find_rec :: "string \<Rightarrow> 'h Bank \<Rightarrow> Rec option" where
  "find_rec i b = find (\<lambda>r. rn_id r = i) (bk_recs b)"

definition set_rec :: "string \<Rightarrow> (Rec \<Rightarrow> Rec) \<Rightarrow> 'h Bank \<Rightarrow> 'h Bank" where
  "set_rec i f b = b\<lparr>bk_recs := map (\<lambda>r. if rn_id r = i then f r else r) (bk_recs b)\<rparr>"

definition lines_of :: "string \<Rightarrow> 'h Bank \<Rightarrow> 'h Line list" where
  "lines_of i b = sort_key (\<lambda>l. (ln_date l, ln_line_no l)) (filter (\<lambda>l. ln_rec l = Some i) (bk_lines b))"

definition claimKey :: "string \<Rightarrow> string \<Rightarrow> string" where
  "claimKey kind i = kind @ '':'' @ i"

definition claimedBy :: "'h Line list \<Rightarrow> string list" where
  "claimedBy ls = concat (map (\<lambda>l. case ln_match l of None \<Rightarrow> [] | Some (k, i) \<Rightarrow> [claimKey k i]) ls)"

definition some_text :: "string option \<Rightarrow> bool" where
  "some_text v \<longleftrightarrow> (case v of None \<Rightarrow> False | Some s \<Rightarrow> s \<noteq> '''')"

definition isOpen :: "'h Line \<Rightarrow> bool" where
  "isOpen l \<longleftrightarrow> ln_match l = None \<and> \<not> some_text (ln_explained l)"

subsection \<open>Candidates\<close>

record Candidate = BookEntry +
  cd_reason :: string
  cd_exact :: bool
  cd_gap :: int

definition FUZZY_WINDOW_DAYS :: int where "FUZZY_WINDOW_DAYS = 3"

definition js_space :: "nat \<Rightarrow> bool" where
  "js_space n \<longleftrightarrow> int n \<in> {9, 10, 11, 12, 13, 32, 160, 5760, 8232, 8233, 8239, 8287, 12288, 65279} \<or> (8192 \<le> int n \<and> int n \<le> 8202)"

definition normaliseReference :: "tables \<Rightarrow> units option \<Rightarrow> units" where
  "normaliseReference t v = fold drop_prefix [''UTR'', ''NEFT'', ''RTGS'', ''IMPS'', ''UPI'', ''REF'', ''CHQ'', ''TXN'']
     (filter (\<lambda>c. c \<notin> {32, 45, 47, 95, 35}) (upper t (strip js_space (or_empty v))))"

text \<open>\<open>Date.parse\<close> takes any day from 1 to 31 of any month.\<close>

definition isDate :: "string \<Rightarrow> bool" where
  "isDate s \<longleftrightarrow> length s = 10 \<and> list_all is_digit (take 4 s) \<and> s ! 4 = CHR ''-'' \<and> list_all is_digit (take 2 (drop 5 s)) \<and> s ! 7 = CHR ''-''
     \<and> list_all is_digit (drop 8 s) \<and> 1 \<le> slice_number 5 7 s \<and> slice_number 5 7 s \<le> 12 \<and> 1 \<le> slice_number 8 10 s \<and> slice_number 8 10 s \<le> 31"

definition candidate :: "tables \<Rightarrow> 'h Line \<Rightarrow> BookEntry \<Rightarrow> Candidate" where
  "candidate t l e =
    (let gap = \<bar>daysBetween (be_date e) (ln_date l)\<bar>; lr = normaliseReference t (ln_reference l); er = normaliseReference t (be_reference e);
         exact = (gap = 0 \<and> lr \<noteq> [] \<and> er \<noteq> [] \<and> lr = er) in
     BookEntry.extend e \<lparr>cd_reason =
        (if exact then ''amount, date and reference all agree''
         else if gap = 0 \<and> lr \<noteq> [] \<and> er \<noteq> [] then ''amount and date agree, but the references differ''
         else if gap = 0 then ''amount and date agree; no reference to compare''
         else ''amount agrees, '' @ js_int gap @ '' day(s) apart''),
       cd_exact = exact, cd_gap = gap\<rparr>)"

definition eligible :: "'h Line \<Rightarrow> string list \<Rightarrow> BookEntry \<Rightarrow> bool" where
  "eligible l claimed e \<longleftrightarrow> claimKey (be_kind e) (be_id e) \<notin> set claimed \<and> be_amount e = ln_amount l
     \<and> isDate (be_date e) \<and> isDate (ln_date l) \<and> \<bar>daysBetween (be_date e) (ln_date l)\<bar> \<le> FUZZY_WINDOW_DAYS"

definition candidatesFor :: "tables \<Rightarrow> 'h Line \<Rightarrow> BookEntry list \<Rightarrow> string list \<Rightarrow> Candidate list" where
  "candidatesFor t l book claimed = map (candidate t l) (filter (eligible l claimed) book)"

definition widen :: "string \<Rightarrow> string \<Rightarrow> int \<Rightarrow> string \<times> string" where
  "widen start end0 days = (if isDate start \<and> isDate end0 then (addDays start (- days), addDays end0 days) else (start, end0))"

subsection \<open>Matching\<close>

text \<open>\<open>LINE_UNLOCKED\<close>.\<close>

definition unlocked :: "'h Bank \<Rightarrow> 'h Line \<Rightarrow> bool" where
  "unlocked b l \<longleftrightarrow> \<not> list_ex (\<lambda>r. Some (rn_id r) = ln_rec l \<and> rn_status r = ''finalised'') (bk_recs b)"

definition claimed_anywhere :: "string \<times> string \<Rightarrow> 'h Line list \<Rightarrow> bool" where
  "claimed_anywhere m ls \<longleftrightarrow> list_ex (\<lambda>o'. ln_match o' = Some m) ls"

definition update_lines :: "('h Line \<Rightarrow> bool) \<Rightarrow> ('h Line \<Rightarrow> 'h Line) \<Rightarrow> 'h Bank \<Rightarrow> nat \<times> 'h Bank" where
  "update_lines p f b = (length (filter p (bk_lines b)), b\<lparr>bk_lines := map (\<lambda>l. if p l then f l else l) (bk_lines b)\<rparr>)"

text \<open>The guarded \<open>UPDATE\<close> of a proposal.\<close>

definition claim_exact :: "string \<Rightarrow> string \<times> string \<times> string \<Rightarrow> 'h Bank \<Rightarrow> nat \<times> 'h Bank" where
  "claim_exact user pr b =
    (let (lineID, kind, entryID) = pr in
     update_lines (\<lambda>l. ln_id l = lineID \<and> ln_match l = None \<and> ln_explained l = None \<and> unlocked b l \<and> \<not> claimed_anywhere (kind, entryID) (bk_lines b))
       (\<lambda>l. l\<lparr>ln_match := Some (kind, entryID), ln_confidence := Some ''exact'', ln_matched_by := Some user\<rparr>) b)"

definition exact_candidates :: "tables \<Rightarrow> BookEntry list \<Rightarrow> string list \<Rightarrow> 'h Line \<Rightarrow> Candidate list" where
  "exact_candidates t book claimed l = filter cd_exact (candidatesFor t l book claimed)"

definition proposals :: "tables \<Rightarrow> BookEntry list \<Rightarrow> 'h Line list \<Rightarrow> (string \<times> string \<times> string) list" where
  "proposals t book ls =
    concat (map (\<lambda>l. case exact_candidates t book (claimedBy ls) l of [x] \<Rightarrow> [(ln_id l, be_kind x, be_id x)] | _ \<Rightarrow> []) (filter isOpen ls))"

definition wanted :: "(string \<times> string \<times> string) list \<Rightarrow> string \<times> string \<times> string \<Rightarrow> nat" where
  "wanted prs pr = length (filter (\<lambda>q. claimKey (fst (snd q)) (snd (snd q)) = claimKey (fst (snd pr)) (snd (snd pr))) prs)"

text \<open>The proposals whose entry only one line wants, and how many lines are left as ambiguous.\<close>

definition accepted :: "(string \<times> string \<times> string) list \<Rightarrow> (string \<times> string \<times> string) list" where
  "accepted prs = filter (\<lambda>pr. \<not> 1 < wanted prs pr \<and> isUUID (snd (snd pr))) prs"

definition ambiguous_count :: "tables \<Rightarrow> BookEntry list \<Rightarrow> 'h Line list \<Rightarrow> nat" where
  "ambiguous_count t book ls =
    length (filter (\<lambda>l. 1 < length (exact_candidates t book (claimedBy ls) l)) (filter isOpen ls))
    + length (filter (\<lambda>pr. 1 < wanted (proposals t book ls) pr) (proposals t book ls))"

fun claim_all :: "string \<Rightarrow> (string \<times> string \<times> string) list \<Rightarrow> 'h Bank \<Rightarrow> nat \<times> nat \<times> 'h Bank" where
  "claim_all user [] b = (0, 0, b)"
| "claim_all user (pr # prs) b =
    (let (n, b1) = claim_exact user pr b; (m, a, b2) = claim_all user prs b1 in
     if n = 1 then (m + 1, a, b2) else (m, a + 1, b2))"

definition auto_match :: "tables \<Rightarrow> (string \<Rightarrow> string \<Rightarrow> string \<Rightarrow> BookEntry list) \<Rightarrow> string \<Rightarrow> string \<Rightarrow> 'h Bank
    \<Rightarrow> BankError + (nat \<times> nat \<times> 'h Bank)" where
  "auto_match t book user recID b =
    (if \<not> isUUID recID then Inl Malformed
     else case find_rec recID b of None \<Rightarrow> Inl Missing
     | Some rc \<Rightarrow>
        if rn_status rc = ''finalised'' then Inl (Refused ''finalised'')
        else let ls = lines_of recID b; (wideStart, wideEnd) = widen (rn_start rc) (rn_end rc) FUZZY_WINDOW_DAYS;
                 entries = book (rn_account rc) wideStart wideEnd; prs = proposals t entries ls;
                 (m, a, b1) = claim_all user (accepted prs) b
          in Inr (m, ambiguous_count t entries ls + a, b1))"

text \<open>A line that no statement moved: not there, or its period is finalised.\<close>

definition explainLineNoop :: "string \<Rightarrow> 'h Bank \<Rightarrow> BankError" where
  "explainLineNoop lineID b =
    (case find (\<lambda>l. ln_id l = lineID) (bk_lines b) of None \<Rightarrow> Missing
     | Some l \<Rightarrow> if \<not> unlocked b l then Refused ''finalised'' else Missing)"

definition moved :: "string \<Rightarrow> nat \<times> 'h Bank \<Rightarrow> 'h Bank \<Rightarrow> BankError + 'h Bank" where
  "moved lineID nb b = (if fst nb = 0 then Inl (explainLineNoop lineID b) else Inr (snd nb))"

definition MATCH_KINDS :: "string list" where
  "MATCH_KINDS = [''payment'', ''vendor_payment'', ''payout_item'', ''refund'']"

definition match_line :: "string \<Rightarrow> string \<Rightarrow> string \<Rightarrow> string \<Rightarrow> string \<Rightarrow> 'h Bank \<Rightarrow> BankError + 'h Bank" where
  "match_line user lineID kind0 match_id explained0 b =
    (let kind = js_trim kind0; explained = js_trim explained0; entryID = js_trim match_id in
     if \<not> isUUID lineID then Inl Malformed
     else if explained = '''' \<and> kind \<notin> set MATCH_KINDS then Inl Malformed
     else if explained = '''' \<and> \<not> isUUID entryID then Inl Malformed
     else if explained \<noteq> '''' then
       moved lineID (update_lines (\<lambda>l. ln_id l = lineID \<and> unlocked b l)
         (\<lambda>l. l\<lparr>ln_explained := Some explained, ln_match := None, ln_confidence := None, ln_matched_by := Some user\<rparr>) b) b
     else if list_ex (\<lambda>l. ln_match l = Some (kind, entryID) \<and> ln_id l \<noteq> lineID) (bk_lines b) then Inl (Refused ''clash'')
     else moved lineID (update_lines (\<lambda>l. ln_id l = lineID \<and> unlocked b l)
         (\<lambda>l. l\<lparr>ln_match := Some (kind, entryID), ln_confidence := Some ''manual'', ln_explained := None, ln_matched_by := Some user\<rparr>) b) b)"

definition unmatch_line :: "string \<Rightarrow> 'h Bank \<Rightarrow> BankError + 'h Bank" where
  "unmatch_line lineID b =
    (if \<not> isUUID lineID then Inl Malformed
     else moved lineID (update_lines (\<lambda>l. ln_id l = lineID \<and> unlocked b l)
       (\<lambda>l. l\<lparr>ln_match := None, ln_confidence := None, ln_explained := None, ln_matched_by := None\<rparr>) b) b)"

subsection \<open>Periods\<close>

record RecForm =
  rf_id :: string
  rf_account :: string
  rf_start :: string
  rf_end :: string
  rf_opening :: int
  rf_closing :: int
  rf_notes :: string

definition notes_of :: "string \<Rightarrow> string option" where
  "notes_of s = (if s = '''' then None else Some s)"

definition save_reconciliation :: "string \<Rightarrow> RecForm \<Rightarrow> 'h Bank \<Rightarrow> BankError + (string \<times> 'h Bank)" where
  "save_reconciliation fresh f b =
    (let acct = js_trim (rf_account f); start = js_trim (rf_start f); end0 = js_trim (rf_end f) in
     if \<not> isUUID acct then Inl Malformed
     else if \<not> isDate start \<or> \<not> isDate end0 then Inl Malformed
     else if end0 < start then Inl (Refused ''the period ends before it starts'')
     else if rf_id f \<noteq> '''' \<and> \<not> isUUID (rf_id f) then Inl Malformed
     else if list_ex (\<lambda>r. rn_account r = acct \<and> rn_start r = start \<and> rn_end r = end0 \<and> rn_id r \<noteq> rf_id f) (bk_recs b) then Inl (Refused ''duplicate'')
     else if rf_id f \<noteq> '''' then
       (case find_rec (rf_id f) b of None \<Rightarrow> Inl Missing
        | Some cur \<Rightarrow> if rn_status cur = ''finalised'' then Inl (Refused ''finalised'')
            else Inr (rf_id f, set_rec (rf_id f) (\<lambda>r. r\<lparr>rn_start := start, rn_end := end0, rn_opening := rf_opening f, rn_closing := rf_closing f,
                   rn_notes := notes_of (rf_notes f)\<rparr>) b))
     else Inr (fresh, b\<lparr>bk_recs := bk_recs b @ [\<lparr>rn_id = fresh, rn_account = acct, rn_start = start, rn_end = end0, rn_opening = rf_opening f,
            rn_closing = rf_closing f, rn_status = ''open'', rn_notes = notes_of (rf_notes f), rn_finalised_by = None, rn_book_closing = None,
            rn_unmatched_bank = None, rn_unmatched_book = None, rn_difference = None, rn_reopened = None\<rparr>]\<rparr>))"

text \<open>What finalising counts: the open lines, the entries nobody claims, the gap and what is left to account for it.\<close>

record Standing =
  sd_open_count :: nat
  sd_open :: int
  sd_unbooked_count :: nat
  sd_unbooked :: int
  sd_book_closing :: int
  sd_difference :: int

definition standing :: "Rec \<Rightarrow> 'h Line list \<Rightarrow> BookEntry list \<Rightarrow> Standing" where
  "standing rc ls book =
    (let opens = filter isOpen ls; unbooked = filter (\<lambda>e. claimKey (be_kind e) (be_id e) \<notin> set (claimedBy ls)) book;
         bookClosing = rn_opening rc + (\<Sum>e\<leftarrow>book. be_amount e) in
     \<lparr>sd_open_count = length opens, sd_open = (\<Sum>l\<leftarrow>opens. ln_amount l), sd_unbooked_count = length unbooked,
      sd_unbooked = (\<Sum>e\<leftarrow>unbooked. be_amount e), sd_book_closing = bookClosing, sd_difference = rn_closing rc - bookClosing\<rparr>)"

definition finalise :: "(string \<Rightarrow> string \<Rightarrow> string \<Rightarrow> BookEntry list) \<Rightarrow> string \<Rightarrow> bool \<Rightarrow> string \<Rightarrow> string \<Rightarrow> 'h Bank
    \<Rightarrow> BankError + (int \<times> 'h Bank)" where
  "finalise book user acknowledge notes recID b =
    (if \<not> isUUID recID then Inl Malformed
     else case find_rec recID b of None \<Rightarrow> Inl Missing
     | Some rc \<Rightarrow>
        if rn_status rc = ''finalised'' then Inl (Refused ''finalised'')
        else let s = standing rc (lines_of recID b) (book (rn_account rc) (rn_start rc) (rn_end rc)) in
          if sd_difference s \<noteq> sd_open s - sd_unbooked s \<and> \<not> acknowledge then Inl (Refused ''unexplained_difference'')
          else Inr (sd_difference s, set_rec recID (\<lambda>r. if rn_status r = ''finalised'' then r
             else r\<lparr>rn_status := ''finalised'', rn_finalised_by := Some user, rn_book_closing := Some (sd_book_closing s),
               rn_unmatched_bank := Some (sd_open_count s, sd_open s), rn_unmatched_book := Some (sd_unbooked_count s, sd_unbooked s),
               rn_difference := Some (sd_difference s), rn_notes := (if notes = '''' then rn_notes r else Some notes)\<rparr>) b))"

definition reopen :: "string \<Rightarrow> string \<Rightarrow> string \<Rightarrow> 'h Bank \<Rightarrow> BankError + 'h Bank" where
  "reopen user reason0 recID b =
    (let reason = js_trim reason0 in
     if \<not> isUUID recID then Inl Malformed
     else if reason = '''' then Inl Malformed
     else if list_ex (\<lambda>r. rn_id r = recID \<and> rn_status r = ''finalised'') (bk_recs b)
       then Inr (set_rec recID (\<lambda>r. if rn_status r = ''finalised'' then r\<lparr>rn_status := ''open'', rn_reopened := Some (user, reason)\<rparr> else r) b)
       else Inl (Refused ''not_finalised''))"

subsection \<open>Importing a statement\<close>

definition ascii :: "units \<Rightarrow> string" where
  "ascii u = map char_of u"

text \<open>One row of \<open>INSERT .. ON CONFLICT DO NOTHING\<close>: the account and the hash are unique together.\<close>

definition insert_line :: "'h Line \<Rightarrow> 'h Line list \<Rightarrow> 'h Line list" where
  "insert_line l ls = (if list_ex (\<lambda>o'. ln_account o' = ln_account l \<and> ln_hash o' = ln_hash l \<and> ln_hash l \<noteq> None) ls then ls else ls @ [l])"

definition in_period :: "Rec \<Rightarrow> 'h ImportedLine \<Rightarrow> bool" where
  "in_period rc pl \<longleftrightarrow> between (take 10 (rn_start rc)) (take 10 (rn_end rc)) (ascii (il_txnDate pl))"

definition new_line :: "(nat \<Rightarrow> string) \<Rightarrow> Rec \<Rightarrow> 'h ImportedLine \<Rightarrow> 'h Line" where
  "new_line ids rc pl =
    \<lparr>ln_id = ids (il_lineNo pl), ln_rec = (if in_period rc pl then Some (rn_id rc) else None), ln_account = rn_account rc,
     ln_date = ascii (il_txnDate pl), ln_value_date = map_option ascii (il_valueDate pl), ln_narration = il_narration pl,
     ln_reference = null_if_empty (il_reference pl), ln_amount = il_amount pl, ln_balance = il_balance pl, ln_raw = il_raw pl,
     ln_line_no = il_lineNo pl, ln_hash = il_hash pl, ln_match = None, ln_confidence = None, ln_matched_by = None, ln_explained = None\<rparr>"

record Imported =
  im_rows_read :: nat
  im_inserted :: nat
  im_duplicate :: nat
  im_rejected :: nat
  im_outside :: nat

definition import_statement :: "(units \<Rightarrow> 'h) \<Rightarrow> tables \<Rightarrow> (nat \<Rightarrow> string) \<Rightarrow> string \<Rightarrow> units \<Rightarrow> string \<Rightarrow> 'h Bank
    \<Rightarrow> BankError + (Imported \<times> 'h Bank)" where
  "import_statement sha t ids importID text0 recID b =
    (if \<not> isUUID recID then Inl Malformed
     else if goTrimSpace text0 = [] then Inl (Refused ''empty'')
     else let s = parseStatement sha t text0 in
     if rd_cols s = None then Inl (Refused ''no header'')
     else case find_rec recID b of None \<Rightarrow> Inl Missing
     | Some rc \<Rightarrow>
        if rn_status rc = ''finalised'' then Inl (Refused ''finalised'')
        else let ls = fold insert_line (map (new_line ids rc) (rd_parsed s)) (bk_lines b); n = length ls - length (bk_lines b)
          in Inr (\<lparr>im_rows_read = rd_rowsRead s, im_inserted = n, im_duplicate = length (rd_parsed s) - n, im_rejected = length (rd_rejects s),
                   im_outside = length (filter (\<lambda>pl. \<not> in_period rc pl) (rd_parsed s))\<rparr>,
                b\<lparr>bk_lines := ls, bk_imports := bk_imports b @ [importID]\<rparr>))"

end
