(* ===== verification/BankProps.thy ===== *)
theory BankProps
  imports Banking
begin

text \<open>
  What reconciliation promises: a book entry is claimed by one line and a finalised period does not
  move, whatever the handlers do in whatever order; automatic matching never guesses; a statement read
  twice adds nothing; and what the check at finalising really compares.
\<close>

subsection \<open>Claims\<close>

definition claims :: "'h Line list \<Rightarrow> (string \<times> string) list" where
  "claims ls = concat (map (\<lambda>l. case ln_match l of None \<Rightarrow> [] | Some m \<Rightarrow> [m]) ls)"

definition bank_ok :: "'h Bank \<Rightarrow> bool" where
  "bank_ok b \<longleftrightarrow> distinct (map ln_id (bk_lines b)) \<and> distinct (claims (bk_lines b)) \<and> distinct (map rn_id (bk_recs b))"

lemma claims_simps [simp]:
  "claims [] = []" "claims (l # ls) = (case ln_match l of None \<Rightarrow> [] | Some m \<Rightarrow> [m]) @ claims ls" "claims (xs @ ys) = claims xs @ claims ys"
  by (simp_all add: claims_def)

lemma set_claims:
  fixes ls :: "'h Line list"
  shows "m \<in> set (claims ls) \<longleftrightarrow> (\<exists>l\<in>set ls. ln_match l = Some m)"
proof -
  have "m \<in> set (case ln_match l of None \<Rightarrow> [] | Some x \<Rightarrow> [x]) \<longleftrightarrow> ln_match l = Some m" for l :: "'h Line"
    by (cases "ln_match l") auto
  then show ?thesis by (simp add: claims_def)
qed

text \<open>
  Changing the one line of an identifier.
\<close>
lemma claims_update_one:
  assumes "distinct (map ln_id ls)" "distinct (claims ls)" "\<And>l. p l \<Longrightarrow> ln_id l = i" "\<And>l. ln_match (f l) = v"
    "\<And>m. v = Some m \<Longrightarrow> \<forall>l\<in>set ls. ln_match l = Some m \<longrightarrow> ln_id l = i"
  shows "distinct (claims (map (\<lambda>l. if p l then f l else l) ls))"
  using assms(1,2,5)
proof (induction ls)
  case (Cons l ls)
  let ?g = "\<lambda>l. if p l then f l else l"
  have IH: "distinct (claims (map ?g ls))" using Cons by auto
  show ?case
  proof (cases "p l")
    case False
    have "m \<notin> set (claims (map ?g ls))" if m: "ln_match l = Some m" for m
    proof
      assume "m \<in> set (claims (map ?g ls))"
      then obtain x where x: "x \<in> set ls" "ln_match (?g x) = Some m" by (auto simp: set_claims)
      have "\<not> (\<exists>y\<in>set ls. ln_match y = Some m)" using Cons.prems(2) m by (auto simp: set_claims)
      then have "p x" "v = Some m" using x assms(4) by (auto split: if_splits)
      then have "ln_id x = i" "ln_id l = i" using assms(3) Cons.prems(3) m by auto
      then show False using x(1) Cons.prems(1) by auto
    qed
    then show ?thesis using IH False by (auto split: option.splits)
  next
    case True
    then have "\<not> p x" if "x \<in> set ls" for x using other_key [OF Cons.prems(1) that] assms(3) by metis
    then have same: "map ?g ls = ls" by (auto intro!: map_idI)
    have "m \<notin> set (claims ls)" if m: "v = Some m" for m
    proof
      assume "m \<in> set (claims ls)"
      then obtain x where "x \<in> set ls" "ln_match x = Some m" by (auto simp: set_claims)
      then have "ln_id x = ln_id l" using Cons.prems(3) [OF m] assms(3) [OF True] by auto
      then show False using other_key [OF Cons.prems(1) \<open>x \<in> set ls\<close>] by simp
    qed
    then show ?thesis using True same Cons.prems(2) assms(4) by (auto split: option.splits)
  qed
qed simp

lemma update_ok:
  assumes "bank_ok b" "\<And>l. p l \<Longrightarrow> ln_id l = i" "\<And>l. ln_match (f l) = v" "\<And>l. ln_id (f l) = ln_id l"
    "\<And>m. v = Some m \<Longrightarrow> \<forall>l\<in>set (bk_lines b). ln_match l = Some m \<longrightarrow> ln_id l = i"
  shows "bank_ok (snd (update_lines p f b))"
proof -
  have "distinct (claims (map (\<lambda>l. if p l then f l else l) (bk_lines b)))"
    by (rule claims_update_one [where i = i and v = v]) (use assms in \<open>auto simp: bank_ok_def\<close>)
  moreover have "map ln_id (map (\<lambda>l. if p l then f l else l) (bk_lines b)) = map ln_id (bk_lines b)" by (rule map_ids_kept) (rule assms(4))
  ultimately show ?thesis using assms(1) unfolding bank_ok_def update_lines_def by (simp del: list.map_comp map_map)
qed

lemma claim_exact_ok:
  assumes "bank_ok b"
  shows "bank_ok (snd (claim_exact user pr b))"
proof -
  obtain i kind e where pr: "pr = (i, kind, e)" by (cases pr)
  show ?thesis
  proof (cases "claimed_anywhere (kind, e) (bk_lines b)")
    case True
    then show ?thesis using assms by (simp add: pr claim_exact_def update_lines_def bank_ok_def)
  next
    case False
    then have none: "\<forall>l\<in>set (bk_lines b). ln_match l \<noteq> Some (kind, e)" by (auto simp: claimed_anywhere_def list_ex_iff)
    show ?thesis unfolding pr claim_exact_def Let_def prod.case
      by (rule update_ok [OF assms, where i = i and v = "Some (kind, e)"]) (use none in auto)
  qed
qed

lemma claim_all_ok: "bank_ok b \<Longrightarrow> bank_ok (snd (snd (claim_all user prs b)))"
proof (induction prs arbitrary: b)
  case (Cons pr prs)
  from Cons.IH [OF claim_exact_ok [OF Cons.prems]] show ?case by (simp add: split_def Let_def)
qed simp

subsection \<open>A finalised period\<close>

definition period_lines :: "string \<Rightarrow> 'h Bank \<Rightarrow> 'h Line list" where
  "period_lines i b = filter (\<lambda>l. ln_rec l = Some i) (bk_lines b)"

definition frozen :: "'h Bank \<Rightarrow> 'h Bank \<Rightarrow> bool" where
  "frozen b b' \<longleftrightarrow> (\<forall>r\<in>set (bk_recs b). rn_status r = ''finalised''
     \<longrightarrow> r \<in> set (bk_recs b') \<and> period_lines (rn_id r) b' = period_lines (rn_id r) b)"

lemma locked_line: "r \<in> set (bk_recs b) \<Longrightarrow> rn_status r = ''finalised'' \<Longrightarrow> ln_rec l = Some (rn_id r) \<Longrightarrow> \<not> unlocked b l"
  by (auto simp: unlocked_def list_ex_iff)

lemma update_frozen:
  assumes "\<And>l. p l \<Longrightarrow> unlocked b l" "\<And>l. ln_rec (f l) = ln_rec l"
  shows "frozen b (snd (update_lines p f b))"
  unfolding frozen_def
proof (intro ballI impI conjI)
  fix r
  assume r: "r \<in> set (bk_recs b)" "rn_status r = ''finalised''"
  show "r \<in> set (bk_recs (snd (update_lines p f b)))" using r(1) by (simp add: update_lines_def)
  have "filter (\<lambda>l. ln_rec l = Some (rn_id r)) (map (\<lambda>l. if p l then f l else l) ls) = filter (\<lambda>l. ln_rec l = Some (rn_id r)) ls" for ls
    using locked_line [OF r] assms by (induction ls) auto
  then show "period_lines (rn_id r) (snd (update_lines p f b)) = period_lines (rn_id r) b"
    by (simp add: period_lines_def update_lines_def)
qed

lemma frozen_refl [simp]: "frozen b b"
  by (simp add: frozen_def)

lemma frozen_trans: "frozen b b' \<Longrightarrow> frozen b' b'' \<Longrightarrow> frozen b b''"
  unfolding frozen_def by metis

lemma claim_exact_frozen: "frozen b (snd (claim_exact user pr b))"
  unfolding claim_exact_def Let_def split_def by (rule update_frozen) auto

lemma claim_all_frozen: "frozen b (snd (snd (claim_all user prs b)))"
proof (induction prs arbitrary: b)
  case (Cons pr prs)
  from frozen_trans [OF claim_exact_frozen Cons.IH] show ?case by (simp add: split_def Let_def)
qed simp

lemma moved_Inr: "moved i nb b = Inr b' \<Longrightarrow> b' = snd nb"
  by (auto simp: moved_def split: if_splits)

lemma match_cases:
  assumes "match_line user lineID kind mid expl b = Inr b'"
  obtains (explained) "b' = snd (update_lines (\<lambda>l. ln_id l = lineID \<and> unlocked b l)
      (\<lambda>l. l\<lparr>ln_explained := Some (js_trim expl), ln_match := None, ln_confidence := None, ln_matched_by := Some user\<rparr>) b)"
    | (matched) "\<not> list_ex (\<lambda>l. ln_match l = Some (js_trim kind, js_trim mid) \<and> ln_id l \<noteq> lineID) (bk_lines b)"
      "b' = snd (update_lines (\<lambda>l. ln_id l = lineID \<and> unlocked b l)
      (\<lambda>l. l\<lparr>ln_match := Some (js_trim kind, js_trim mid), ln_confidence := Some ''manual'', ln_explained := None, ln_matched_by := Some user\<rparr>) b)"
  using assms unfolding match_line_def Let_def by (auto split: if_splits dest!: moved_Inr)

lemma match_ok:
  assumes "match_line user lineID kind mid expl b = Inr b'" "bank_ok b"
  shows "bank_ok b'" "frozen b b'"
proof -
  from assms(1) have "bank_ok b' \<and> frozen b b'"
  proof (cases rule: match_cases)
    case explained
    show ?thesis unfolding explained
      by (intro conjI update_ok [OF assms(2), where i = lineID and v = None] update_frozen) auto
  next
    case matched
    show ?thesis unfolding matched(2)
      by (intro conjI update_ok [OF assms(2), where i = lineID and v = "Some (js_trim kind, js_trim mid)"] update_frozen)
        (use matched(1) in \<open>auto simp: list_ex_iff\<close>)
  qed
  then show "bank_ok b'" "frozen b b'" by simp_all
qed

lemma unmatch_ok:
  assumes "unmatch_line lineID b = Inr b'" "bank_ok b"
  shows "bank_ok b'" "frozen b b'"
proof -
  from assms(1) have b': "b' = snd (update_lines (\<lambda>l. ln_id l = lineID \<and> unlocked b l)
      (\<lambda>l. l\<lparr>ln_match := None, ln_confidence := None, ln_explained := None, ln_matched_by := None\<rparr>) b)"
    unfolding unmatch_line_def by (auto split: if_splits dest!: moved_Inr)
  show "bank_ok b'" unfolding b' by (rule update_ok [OF assms(2), where i = lineID and v = None]) auto
  show "frozen b b'" unfolding b' by (rule update_frozen) auto
qed

lemma auto_ok:
  assumes "auto_match t book user recID b = Inr (m, a, b')" "bank_ok b"
  shows "bank_ok b'" "frozen b b'"
proof -
  from assms(1) obtain prs where "b' = snd (snd (claim_all user prs b))"
    by (auto simp: auto_match_def Let_def split_def split: if_splits option.splits)
  then show "bank_ok b'" "frozen b b'" using claim_all_ok [OF assms(2)] claim_all_frozen by simp_all
qed

lemma find_rec_Some: "find_rec i b = Some r \<Longrightarrow> r \<in> set (bk_recs b) \<and> rn_id r = i"
  by (auto simp: find_rec_def find_Some_iff)

lemma set_rec_ok:
  assumes "bank_ok b" "\<And>r. rn_id (f r) = rn_id r"
  shows "bank_ok (set_rec i f b)"
proof -
  have "map rn_id (map (\<lambda>r. if rn_id r = i then f r else r) (bk_recs b)) = map rn_id (bk_recs b)" by (rule map_ids_kept) (rule assms(2))
  then show ?thesis using assms(1) unfolding bank_ok_def set_rec_def by (simp del: map_map)
qed

lemma set_rec_frozen:
  assumes "bank_ok b" "\<And>r. r \<in> set (bk_recs b) \<Longrightarrow> rn_id r = i \<Longrightarrow> rn_status r = ''finalised'' \<Longrightarrow> f r = r"
  shows "frozen b (set_rec i f b)"
  unfolding frozen_def
proof (intro ballI impI conjI)
  fix r
  assume "r \<in> set (bk_recs b)" "rn_status r = ''finalised''"
  then show "r \<in> set (bk_recs (set_rec i f b))" using assms(2) by (force simp: set_rec_def)
qed (simp add: set_rec_def period_lines_def)

lemma same_rec: "bank_ok b \<Longrightarrow> r \<in> set (bk_recs b) \<Longrightarrow> r' \<in> set (bk_recs b) \<Longrightarrow> rn_id r = rn_id r' \<Longrightarrow> r = r'"
  unfolding bank_ok_def by (metis distinct_map inj_on_eq_iff)

lemma finalise_ok:
  assumes "finalise book user ack notes recID b = Inr (d, b')" "bank_ok b"
  shows "bank_ok b'" "frozen b b'"
proof -
  from assms(1) obtain f where f: "b' = set_rec recID f b" "\<And>r. rn_id (f r) = rn_id r" "\<And>r. rn_status r = ''finalised'' \<Longrightarrow> f r = r"
    unfolding finalise_def Let_def by (auto split: if_splits option.splits)
  show "bank_ok b'" unfolding f(1) by (rule set_rec_ok [OF assms(2) f(2)])
  show "frozen b b'" unfolding f(1) by (rule set_rec_frozen [OF assms(2)]) (rule f(3))
qed

lemma reopen_ok:
  assumes "reopen user reason recID b = Inr b'" "bank_ok b"
  shows "bank_ok b'"
proof -
  from assms(1) obtain f where f: "b' = set_rec recID f b" "\<And>r. rn_id (f r) = rn_id r"
    unfolding reopen_def Let_def by (auto split: if_splits)
  show ?thesis unfolding f(1) by (rule set_rec_ok [OF assms(2) f(2)])
qed

lemma save_cases:
  assumes "save_reconciliation fresh f b = Inr (i, b')"
  obtains (changed) cur where "find_rec i b = Some cur" "rn_status cur \<noteq> ''finalised''" "b' = set_rec i (\<lambda>r. r\<lparr>rn_start := js_trim (rf_start f), rn_end := js_trim (rf_end f),
      rn_opening := rf_opening f, rn_closing := rf_closing f, rn_notes := notes_of (rf_notes f)\<rparr>) b"
    | (added) r where "i = fresh" "rn_id r = fresh" "b' = b\<lparr>bk_recs := bk_recs b @ [r]\<rparr>"
proof (cases "rf_id f = ''''")
  case True
  then show ?thesis using assms that(2) [of "last (bk_recs b')"] unfolding save_reconciliation_def Let_def by (auto split: if_splits)
next
  case False
  then show ?thesis using assms that(1) unfolding save_reconciliation_def Let_def by (auto split: if_splits option.splits)
qed

lemma save_ok:
  assumes "save_reconciliation fresh f b = Inr (i, b')" "bank_ok b" "fresh \<notin> rn_id ` set (bk_recs b)"
  shows "bank_ok b'" "frozen b b'"
proof -
  from assms(1) have "bank_ok b' \<and> frozen b b'"
  proof (cases rule: save_cases)
    case (changed cur)
    have "rn_status r \<noteq> ''finalised''" if "r \<in> set (bk_recs b)" "rn_id r = i" for r
      using same_rec [OF assms(2) that(1), of cur] find_rec_Some [OF changed(1)] that(2) changed(2) by auto
    then show ?thesis unfolding changed(3) by (intro conjI set_rec_ok [OF assms(2)] set_rec_frozen [OF assms(2)]) auto
  next
    case (added r)
    then show ?thesis using assms(2,3) by (simp add: bank_ok_def frozen_def period_lines_def)
  qed
  then show "bank_ok b'" "frozen b b'" by simp_all
qed

lemma fold_insert_lines:
  "\<exists>ys. fold insert_line xs ls = ls @ ys \<and> set ys \<subseteq> set xs \<and> (distinct (map ln_id xs) \<longrightarrow> distinct (map ln_id ys))"
proof (induction xs arbitrary: ls)
  case (Cons x xs)
  from Cons [of "insert_line x ls"] obtain ys where ys: "fold insert_line xs (insert_line x ls) = insert_line x ls @ ys" "set ys \<subseteq> set xs"
    "distinct (map ln_id xs) \<longrightarrow> distinct (map ln_id ys)" by blast
  show ?case
  proof (cases "insert_line x ls = ls")
    case True
    then show ?thesis using ys by (intro exI [of _ ys]) auto
  next
    case False
    then have "insert_line x ls = ls @ [x]" by (auto simp: insert_line_def split: if_splits)
    then show ?thesis using ys by (intro exI [of _ "x # ys"]) auto
  qed
qed auto

text \<open>
  Every parsed line has a line number of its own.
\<close>
lemma parsed_line_no: "parseStatementRow rec cols n line = Inr pl \<Longrightarrow> il_lineNo pl = n"
  by (auto simp: parseStatementRow_def Let_def split: option.splits sum.splits if_splits)

lemma statement_line_parsed:
  "rd_parsed (statement_line sha t (i, line) s) = rd_parsed s
    \<or> (\<exists>pl. il_lineNo pl = i + 1 \<and> rd_parsed (statement_line sha t (i, line) s) = rd_parsed s @ [pl])"
  by (auto simp: statement_line_def Let_def dest: parsed_line_no split: option.splits sum.splits)

lemma line_numbers:
  "\<forall>l\<in>set (rd_parsed s). il_lineNo l \<le> k \<Longrightarrow> distinct (map il_lineNo (rd_parsed s))
    \<Longrightarrow> distinct (map il_lineNo (rd_parsed (fold (statement_line sha t) (enumerate k xs) s)))"
proof (induction xs arbitrary: k s)
  case (Cons x xs)
  let ?s = "statement_line sha t (k, x) s"
  have "\<forall>l\<in>set (rd_parsed ?s). il_lineNo l \<le> Suc k" "distinct (map il_lineNo (rd_parsed ?s))"
    using statement_line_parsed [of sha t k x s] Cons.prems by (force simp: le_Suc_eq)+
  then show ?case using Cons.IH [of ?s "Suc k"] by simp
qed simp

lemma line_numbers_distinct: "distinct (map il_lineNo (rd_parsed (parseStatement sha t text0)))"
  unfolding parseStatement_def by (rule line_numbers) (simp_all add: no_reading_def)

lemma import_ok:
  assumes "import_statement sha t ids importID text0 recID b = Inr (im, b')" "bank_ok b"
    "inj ids" "\<forall>n. ids n \<notin> ln_id ` set (bk_lines b)"
  shows "bank_ok b'" "frozen b b'"
proof -
  from assms(1) obtain rc where rc: "find_rec recID b = Some rc" "rn_status rc \<noteq> ''finalised''"
    and b': "b' = b\<lparr>bk_lines := fold insert_line (map (new_line ids rc) (rd_parsed (parseStatement sha t text0))) (bk_lines b), bk_imports := bk_imports b @ [importID]\<rparr>"
    unfolding import_statement_def Let_def by (auto split: if_splits option.splits)
  let ?xs = "map (new_line ids rc) (rd_parsed (parseStatement sha t text0))"
  from fold_insert_lines [of ?xs "bk_lines b"] obtain ys where ys: "fold insert_line ?xs (bk_lines b) = bk_lines b @ ys" "set ys \<subseteq> set ?xs"
    "distinct (map ln_id ?xs) \<longrightarrow> distinct (map ln_id ys)" by blast
  have new: "ln_match y = None \<and> (\<exists>n. ln_id y = ids n) \<and> (ln_rec y = None \<or> ln_rec y = Some (rn_id rc))" if "y \<in> set ys" for y
  proof -
    from ys(2) that obtain x where "y = new_line ids rc x" by auto
    then show ?thesis by (auto simp: new_line_def)
  qed
  have "claims ys = []" using new by (auto simp: claims_def)
  moreover have "map ln_id ?xs = map ids (map il_lineNo (rd_parsed (parseStatement sha t text0)))" by (simp add: new_line_def)
  then have "distinct (map ln_id ys)" using ys(3) line_numbers_distinct [of sha t text0] assms(3)
    by (simp del: map_map add: distinct_map inj_on_subset)
  moreover have "ln_id ` set (bk_lines b) \<inter> ln_id ` set ys = {}"
  proof -
    have "ln_id y \<notin> ln_id ` set (bk_lines b)" if "y \<in> set ys" for y using new [OF that] assms(4) by metis
    then have "ln_id x \<noteq> ln_id y" if "x \<in> set (bk_lines b)" "y \<in> set ys" for x y using imageI [OF that(1), of ln_id] that(2) by fastforce
    then show ?thesis by blast
  qed
  ultimately show "bank_ok b'" using assms(2) by (simp add: b' bank_ok_def ys(1))
  show "frozen b b'" unfolding frozen_def
  proof (intro ballI impI conjI)
    fix r
    assume r: "r \<in> set (bk_recs b)" "rn_status r = ''finalised''"
    then show "r \<in> set (bk_recs b')" by (simp add: b')
    have "rn_id r \<noteq> rn_id rc" using same_rec [OF assms(2) r(1), of rc] find_rec_Some [OF rc(1)] r(2) rc(2) by auto
    then have "filter (\<lambda>l. ln_rec l = Some (rn_id r)) ys = []" using new by (fastforce simp: filter_empty_conv)
    then show "period_lines (rn_id r) b' = period_lines (rn_id r) b" by (simp add: b' period_lines_def ys(1))
  qed
qed

subsection \<open>Everything that can happen\<close>

text \<open>The handlers, reopening apart, with the book as it is at the time.\<close>

inductive bank_move :: "(units \<Rightarrow> 'h) \<Rightarrow> tables \<Rightarrow> 'h Bank \<Rightarrow> 'h Bank \<Rightarrow> bool" for sha t where
  save: "save_reconciliation fresh f b = Inr (i, b') \<Longrightarrow> fresh \<notin> rn_id ` set (bk_recs b) \<Longrightarrow> bank_move sha t b b'"
| import0: "import_statement sha t ids importID text0 recID b = Inr (im, b') \<Longrightarrow> inj ids \<Longrightarrow> \<forall>n. ids n \<notin> ln_id ` set (bk_lines b) \<Longrightarrow> bank_move sha t b b'"
| auto0: "auto_match t book user recID b = Inr (m, a, b') \<Longrightarrow> bank_move sha t b b'"
| match: "match_line user lineID kind mid expl b = Inr b' \<Longrightarrow> bank_move sha t b b'"
| unmatch: "unmatch_line lineID b = Inr b' \<Longrightarrow> bank_move sha t b b'"
| finalised: "finalise book user ack notes recID b = Inr (d, b') \<Longrightarrow> bank_move sha t b b'"

inductive bank_run :: "(units \<Rightarrow> 'h) \<Rightarrow> tables \<Rightarrow> 'h Bank \<Rightarrow> 'h Bank \<Rightarrow> bool" for sha t where
  stay: "bank_run sha t b b"
| move: "bank_run sha t b b' \<Longrightarrow> bank_move sha t b' b'' \<Longrightarrow> bank_run sha t b b''"
| reopens: "bank_run sha t b b' \<Longrightarrow> reopen user reason recID b' = Inr b'' \<Longrightarrow> bank_run sha t b b''"

lemma bank_move_ok:
  assumes "bank_move sha t b b'" "bank_ok b"
  shows "bank_ok b' \<and> frozen b b'"
  using assms(1)
proof cases
  case (save fresh f i)
  then show ?thesis using save_ok assms(2) by blast
next
  case (import0 ids importID text0 recID im)
  then show ?thesis using import_ok assms(2) by blast
next
  case (auto0 book user recID m a)
  then show ?thesis using auto_ok assms(2) by blast
next
  case (match user lineID kind mid expl)
  then show ?thesis using match_ok assms(2) by blast
next
  case (unmatch lineID)
  then show ?thesis using unmatch_ok assms(2) by blast
next
  case (finalised book user ack text0 recID d)
  then show ?thesis using finalise_ok assms(2) by blast
qed

definition empty_bank :: "'h Bank" where
  "empty_bank = \<lparr>bk_recs = [], bk_lines = [], bk_imports = []\<rparr>"

lemma empty_bank_ok: "bank_ok empty_bank"
  by (simp add: bank_ok_def empty_bank_def)

lemma bank_run_ok: "bank_run sha t b b' \<Longrightarrow> bank_ok b \<Longrightarrow> bank_ok b'"
  by (induction rule: bank_run.induct) (auto dest: bank_move_ok reopen_ok)


subsection \<open>Automatic matching\<close>

lemma claim_exact_lines:
  assumes "l' \<in> set (bk_lines (snd (claim_exact user pr b)))"
  shows "\<exists>l\<in>set (bk_lines b). ln_id l = ln_id l' \<and> (l' = l \<or> (ln_match l' = Some (snd pr) \<and> fst pr = ln_id l))"
  using assms by (auto simp: claim_exact_def update_lines_def split_def split: if_splits)

lemma claim_all_lines:
  assumes "l' \<in> set (bk_lines (snd (snd (claim_all user prs b))))"
  shows "\<exists>l\<in>set (bk_lines b). ln_id l = ln_id l' \<and> (ln_match l' = ln_match l \<or> (\<exists>m. ln_match l' = Some m \<and> (ln_id l, m) \<in> set prs))"
  using assms
proof (induction prs arbitrary: b)
  case (Cons pr prs)
  have "l' \<in> set (bk_lines (snd (snd (claim_all user prs (snd (claim_exact user pr b))))))"
    using Cons.prems by (simp add: split_def Let_def split: if_splits)
  from Cons.IH [OF this] obtain x where x: "x \<in> set (bk_lines (snd (claim_exact user pr b)))" "ln_id x = ln_id l'"
    "ln_match l' = ln_match x \<or> (\<exists>m. ln_match l' = Some m \<and> (ln_id x, m) \<in> set prs)" by blast
  from claim_exact_lines [OF x(1)] obtain l where l: "l \<in> set (bk_lines b)" "ln_id l = ln_id x"
    "x = l \<or> (ln_match x = Some (snd pr) \<and> fst pr = ln_id l)" by blast
  have "(ln_id l, snd pr) \<in> set (pr # prs)" if "fst pr = ln_id l" using that by (cases pr) auto
  then show ?case using x(2,3) l by (metis list.set_intros(2))
qed auto

lemma two_in_filter:
  assumes "x \<in> set xs" "y \<in> set xs" "x \<noteq> y" "P x" "P y"
  shows "1 < length (filter P xs)"
proof -
  have "{x, y} \<subseteq> set (filter P xs)" using assms by auto
  then have "card {x, y} \<le> card (set (filter P xs))" by (rule card_mono [OF finite_set])
  then show ?thesis using card_length [of "filter P xs"] assms(3) by simp
qed

lemma proposal_of:
  assumes "(i, k, e) \<in> set (proposals t book ls)"
  shows "\<exists>l x. l \<in> set ls \<and> isOpen l \<and> ln_id l = i \<and> exact_candidates t book (claimedBy ls) l = [x] \<and> be_kind x = k \<and> be_id x = e"
proof -
  from assms obtain l where l: "l \<in> set ls" "isOpen l"
    "(i, k, e) \<in> set (case exact_candidates t book (claimedBy ls) l of [x] \<Rightarrow> [(ln_id l, be_kind x, be_id x)] | _ \<Rightarrow> [])"
    by (auto simp: proposals_def)
  from l(3) show ?thesis
    by (cases "exact_candidates t book (claimedBy ls) l" rule: remdups_adj.cases) (use l(1,2) in auto)
qed

lemma is_proposal:
  "l \<in> set ls \<Longrightarrow> isOpen l \<Longrightarrow> exact_candidates t book (claimedBy ls) l = [x] \<Longrightarrow> (ln_id l, be_kind x, be_id x) \<in> set (proposals t book ls)"
  by (force simp: proposals_def)

lemma exact_candidate:
  assumes "x \<in> set (exact_candidates t book claimed l)"
  shows "\<exists>e\<in>set book. be_kind x = be_kind e \<and> be_id x = be_id e \<and> eligible l claimed e \<and> daysBetween (be_date e) (ln_date l) = 0
    \<and> normaliseReference t (be_reference e) = normaliseReference t (ln_reference l) \<and> normaliseReference t (ln_reference l) \<noteq> []"
  using assms by (auto simp: exact_candidates_def candidatesFor_def candidate_def Let_def BookEntry.defs)

lemma lines_of_set: "l \<in> set (lines_of i b) \<longleftrightarrow> l \<in> set (bk_lines b) \<and> ln_rec l = Some i"
  by (auto simp: lines_of_def)

lemma same_line: "bank_ok b \<Longrightarrow> l \<in> set (bk_lines b) \<Longrightarrow> l' \<in> set (bk_lines b) \<Longrightarrow> ln_id l = ln_id l' \<Longrightarrow> l = l'"
  unfolding bank_ok_def by (metis distinct_map inj_on_eq_iff)

text \<open>
  C36. Automatic matching never guesses: a line it matches was open and in the period; the entry is of the
  same amount and day with the same reference, neither empty; nobody in the period had claimed it; it
  is the line's only such entry; and it is no other open line's only one.
\<close>
theorem auto_match_never_guesses:
  assumes "auto_match t book user recID b = Inr (n, a, b')" "find_rec recID b = Some rc" "bank_ok b"
    "l \<in> set (bk_lines b)" "l' \<in> set (bk_lines b')" "ln_id l = ln_id l'" "ln_match l = None" "ln_match l' = Some (k, i)"
  defines "wide \<equiv> widen (rn_start rc) (rn_end rc) FUZZY_WINDOW_DAYS"
  defines "entries \<equiv> book (rn_account rc) (fst wide) (snd wide)"
  defines "exacts \<equiv> exact_candidates t entries (claimedBy (lines_of recID b))"
  shows "ln_rec l = Some recID \<and> isOpen l
    \<and> (\<exists>e\<in>set entries. be_kind e = k \<and> be_id e = i \<and> be_amount e = ln_amount l \<and> daysBetween (be_date e) (ln_date l) = 0
        \<and> normaliseReference t (be_reference e) = normaliseReference t (ln_reference l) \<and> normaliseReference t (ln_reference l) \<noteq> []
        \<and> claimKey k i \<notin> set (claimedBy (lines_of recID b)))
    \<and> length (exacts l) = 1
    \<and> \<not> (\<exists>o'\<in>set (lines_of recID b). o' \<noteq> l \<and> isOpen o' \<and> (\<exists>x. exacts o' = [x] \<and> be_kind x = k \<and> be_id x = i))"
proof -
  let ?ls = "lines_of recID b"
  let ?prs = "proposals t entries ?ls"
  from assms(1,2) have b': "b' = snd (snd (claim_all user (accepted ?prs) b))"
    by (auto simp: auto_match_def Let_def split_def wide_def entries_def split: if_splits)
  from claim_all_lines [OF assms(5) [unfolded b']] obtain y where y: "y \<in> set (bk_lines b)" "ln_id y = ln_id l'"
    "ln_match l' = ln_match y \<or> (\<exists>m. ln_match l' = Some m \<and> (ln_id y, m) \<in> set (accepted ?prs))" by blast
  have "y = l" using same_line [OF assms(3) y(1) assms(4)] y(2) assms(6) by simp
  with y(3) assms(7,8) have acc: "(ln_id l, k, i) \<in> set (accepted ?prs)" by auto
  then have pr: "(ln_id l, k, i) \<in> set ?prs" and once: "\<not> 1 < wanted ?prs (ln_id l, k, i)" by (auto simp: accepted_def)
  from proposal_of [OF pr] obtain z x where z: "z \<in> set ?ls" "isOpen z" "ln_id z = ln_id l" "exacts z = [x]" "be_kind x = k" "be_id x = i"
    unfolding exacts_def by blast
  have "z = l" using same_line [OF assms(3) _ assms(4) z(3)] z(1) by (simp add: lines_of_set)
  note z = z [unfolded this]
  from exact_candidate [of x t entries "claimedBy ?ls" l] z(4) obtain e where e: "e \<in> set entries" "be_kind e = k" "be_id e = i"
    "eligible l (claimedBy ?ls) e" "daysBetween (be_date e) (ln_date l) = 0"
    "normaliseReference t (be_reference e) = normaliseReference t (ln_reference l)" "normaliseReference t (ln_reference l) \<noteq> []"
    using z(5,6) unfolding exacts_def by auto
  have "\<not> (\<exists>o'\<in>set ?ls. o' \<noteq> l \<and> isOpen o' \<and> (\<exists>x. exacts o' = [x] \<and> be_kind x = k \<and> be_id x = i))"
  proof
    assume "\<exists>o'\<in>set ?ls. o' \<noteq> l \<and> isOpen o' \<and> (\<exists>x. exacts o' = [x] \<and> be_kind x = k \<and> be_id x = i)"
    then obtain o' x' where o': "o' \<in> set ?ls" "o' \<noteq> l" "isOpen o'" "exacts o' = [x']" "be_kind x' = k" "be_id x' = i" by blast
    have "(ln_id o', k, i) \<in> set ?prs" using is_proposal [OF o'(1,3) o'(4) [unfolded exacts_def]] o'(5,6) by simp
    moreover have "(ln_id o', k, i) \<noteq> (ln_id l, k, i)" using same_line [OF assms(3) _ assms(4)] o'(1,2) by (auto simp: lines_of_set)
    ultimately have "1 < wanted ?prs (ln_id l, k, i)" unfolding wanted_def
      using pr by (intro two_in_filter [of "(ln_id o', k, i)" _ "(ln_id l, k, i)"]) simp_all
    then show False using once by simp
  qed
  moreover have "ln_rec l = Some recID" using z(1) by (simp add: lines_of_set)
  ultimately show ?thesis using z(2,4) e by (auto simp: eligible_def)
qed

subsection \<open>A statement read again\<close>

definition on_file :: "'h Line \<Rightarrow> 'h Line list \<Rightarrow> bool" where
  "on_file l ls \<longleftrightarrow> list_ex (\<lambda>o'. ln_account o' = ln_account l \<and> ln_hash o' = ln_hash l) ls"

lemma on_file_more: "on_file l ls \<Longrightarrow> on_file l (insert_line x ls)"
  by (auto simp: on_file_def insert_line_def)

lemma on_file_fold: "on_file l ls \<Longrightarrow> on_file l (fold insert_line xs ls)"
  by (induction xs arbitrary: ls) (auto intro: on_file_more)

lemma inserted_on_file: "x \<in> set xs \<Longrightarrow> on_file x (fold insert_line xs ls)"
proof (induction xs arbitrary: ls)
  case (Cons y xs)
  have "on_file y (insert_line y ls)" by (auto simp: on_file_def insert_line_def list_ex_iff)
  then show ?case using Cons on_file_fold by (cases "x = y") auto
qed simp

lemma insert_known: "\<forall>x\<in>set xs. on_file x ls \<and> ln_hash x \<noteq> None \<Longrightarrow> fold insert_line xs ls = ls"
proof (induction xs)
  case (Cons x xs)
  then have "insert_line x ls = ls" by (simp add: insert_line_def on_file_def)
  then show ?case using Cons by simp
qed simp

lemma statement_line_hash:
  "\<forall>l\<in>set (rd_parsed s). il_hash l \<noteq> None \<Longrightarrow> \<forall>l\<in>set (rd_parsed (statement_line sha t il s)). il_hash l \<noteq> None"
  by (cases il) (auto simp: statement_line_def Let_def split: option.splits sum.splits)

lemma fold_hash:
  "\<forall>l\<in>set (rd_parsed s). il_hash l \<noteq> None \<Longrightarrow> \<forall>l\<in>set (rd_parsed (fold (statement_line sha t) xs s)). il_hash l \<noteq> None"
proof (induction xs arbitrary: s)
  case (Cons x xs)
  from Cons.IH [OF statement_line_hash [OF Cons.prems, of sha t x]] show ?case by simp
qed simp

lemma parsed_hashes: "\<forall>l\<in>set (rd_parsed (parseStatement sha t text0)). il_hash l \<noteq> None"
  unfolding parseStatement_def by (rule fold_hash) (simp add: no_reading_def)

text \<open>
  C37. A statement can be imported again without harm: the second import adds no line and leaves every
  line as it is, and says that every row it could read is a duplicate.
\<close>
theorem import_twice_adds_nothing:
  assumes "import_statement sha t ids j text0 recID b = Inr (im, b1)"
  shows "\<exists>im2 b2. import_statement sha t ids2 j2 text0 recID b1 = Inr (im2, b2) \<and> bk_lines b2 = bk_lines b1
    \<and> im_inserted im2 = 0 \<and> im_duplicate im2 = length (rd_parsed (parseStatement sha t text0))"
proof -
  let ?ps = "rd_parsed (parseStatement sha t text0)"
  from assms obtain rc where ok: "isUUID recID" "goTrimSpace text0 \<noteq> []" "rd_cols (parseStatement sha t text0) \<noteq> None"
    "find_rec recID b = Some rc" "rn_status rc \<noteq> ''finalised''"
    and b1: "bk_lines b1 = fold insert_line (map (new_line ids rc) ?ps) (bk_lines b)" "bk_recs b1 = bk_recs b"
    unfolding import_statement_def Let_def by (auto split: if_splits option.splits)
  have rc: "find_rec recID b1 = Some rc" using ok(4) b1(2) by (simp add: find_rec_def)
  have "on_file (new_line ids2 rc pl) (bk_lines b1) \<and> ln_hash (new_line ids2 rc pl) \<noteq> None" if "pl \<in> set ?ps" for pl
  proof
    have "on_file (new_line ids rc pl) (bk_lines b1)" unfolding b1(1) using that by (intro inserted_on_file) simp
    then show "on_file (new_line ids2 rc pl) (bk_lines b1)" by (simp add: on_file_def new_line_def)
    show "ln_hash (new_line ids2 rc pl) \<noteq> None" using parsed_hashes that by (fastforce simp: new_line_def)
  qed
  then have same: "fold insert_line (map (new_line ids2 rc) ?ps) (bk_lines b1) = bk_lines b1" by (intro insert_known) auto
  then show ?thesis using ok rc unfolding import_statement_def Let_def by simp
qed

subsection \<open>What finalising compares\<close>

definition explained_lines :: "'h Line list \<Rightarrow> 'h Line list" where
  "explained_lines ls = filter (\<lambda>l. ln_match l = None \<and> some_text (ln_explained l)) ls"

lemma lines_split:
  fixes ls :: "'h Line list"
  shows "(\<Sum>l\<leftarrow>ls. ln_amount l) = (\<Sum>l\<leftarrow>filter isOpen ls. ln_amount l) + (\<Sum>l\<leftarrow>filter (\<lambda>l. ln_match l \<noteq> None) ls. ln_amount l)
    + (\<Sum>l\<leftarrow>explained_lines ls. ln_amount l)"
  by (induction ls) (auto simp: isOpen_def explained_lines_def)

lemma sum_partition:
  fixes f :: "'a \<Rightarrow> int"
  shows "(\<Sum>e\<leftarrow>xs. f e) = (\<Sum>e\<leftarrow>filter P xs. f e) + (\<Sum>e\<leftarrow>filter (\<lambda>e. \<not> P e) xs. f e)"
  by (induction xs) auto

lemma standing_gap:
  assumes "rn_closing rc = rn_opening rc + (\<Sum>l\<leftarrow>ls. ln_amount l)"
    "(\<Sum>l\<leftarrow>filter (\<lambda>l. ln_match l \<noteq> None) ls. ln_amount l) = (\<Sum>e\<leftarrow>filter (\<lambda>e. claimKey (be_kind e) (be_id e) \<in> set (claimedBy ls)) book. be_amount e)"
  shows "sd_difference (standing rc ls book) - (sd_open (standing rc ls book) - sd_unbooked (standing rc ls book))
    = (\<Sum>l\<leftarrow>explained_lines ls. ln_amount l)"
  using assms lines_split [of ls] sum_partition [of be_amount book "\<lambda>e. claimKey (be_kind e) (be_id e) \<in> set (claimedBy ls)"]
  by (simp add: standing_def Let_def)

text \<open>
  Explaining a line (a bank charge, say) does not help to close a period, it hinders: on a statement
  that adds up and whose matched lines agree in total with the entries they claim, finalising is
  refused as an unexplained difference exactly when the explained lines do not come to nothing.
\<close>
theorem explained_lines_block_finalising:
  assumes "isUUID recID" "find_rec recID b = Some rc" "rn_status rc \<noteq> ''finalised''"
    "rn_closing rc = rn_opening rc + (\<Sum>l\<leftarrow>lines_of recID b. ln_amount l)"
    "(\<Sum>l\<leftarrow>filter (\<lambda>l. ln_match l \<noteq> None) (lines_of recID b). ln_amount l)
      = (\<Sum>e\<leftarrow>filter (\<lambda>e. claimKey (be_kind e) (be_id e) \<in> set (claimedBy (lines_of recID b))) (book (rn_account rc) (rn_start rc) (rn_end rc)). be_amount e)"
  shows "finalise book user False notes0 recID b = Inl (Refused ''unexplained_difference'')
    \<longleftrightarrow> (\<Sum>l\<leftarrow>explained_lines (lines_of recID b). ln_amount l) \<noteq> 0"
  using standing_gap [OF assms(4,5)] assms(1-3) by (simp add: finalise_def Let_def)

subsection \<open>Witnesses\<close>

definition demo_uuid :: "string \<Rightarrow> string" where
  "demo_uuid c = ''0000000'' @ c @ ''-0000-4000-8000-000000000000''"

lemma demo_uuid_ok: "isUUID (demo_uuid ''1'')" "isUUID (demo_uuid ''2'')"
  by code_simp+

definition demo_rec :: Rec where
  "demo_rec = \<lparr>rn_id = demo_uuid ''1'', rn_account = ''sbi'', rn_start = ''2026-04-01'', rn_end = ''2026-04-30'', rn_opening = 0, rn_closing = 9800,
     rn_status = ''open'', rn_notes = None, rn_finalised_by = None, rn_book_closing = None, rn_unmatched_bank = None, rn_unmatched_book = None,
     rn_difference = None, rn_reopened = None\<rparr>"

definition demo_line :: "string \<Rightarrow> int \<Rightarrow> units option Line" where
  "demo_line i amt = \<lparr>ln_id = i, ln_rec = Some (demo_uuid ''1''), ln_account = ''sbi'', ln_date = ''2026-04-02'', ln_value_date = None, ln_narration = [],
     ln_reference = Some (U ''UTR 77''), ln_amount = amt, ln_balance = None, ln_raw = [], ln_line_no = 2, ln_hash = None, ln_match = None,
     ln_confidence = None, ln_matched_by = None, ln_explained = None\<rparr>"

definition demo_entry :: BookEntry where
  "demo_entry = \<lparr>be_kind = ''payment'', be_id = demo_uuid ''2'', be_date = ''2026-04-02'', be_amount = 10000, be_reference = Some (U ''77''), be_party = []\<rparr>"

definition demo_book :: "string \<Rightarrow> string \<Rightarrow> string \<Rightarrow> BookEntry list" where
  "demo_book a s e = [demo_entry]"

definition demo_case :: tables where
  "demo_case = \<lparr>lower = (\<lambda>s. s), upper = (\<lambda>s. s)\<rparr>"

definition demo_bank :: "units option Bank" where
  "demo_bank = \<lparr>bk_recs = [demo_rec], bk_lines = [demo_line ''a'' 10000, (demo_line ''b'' (- 200))\<lparr>ln_explained := Some ''bank charge''\<rparr>], bk_imports = []\<rparr>"

definition demo_matched :: "units option Bank" where
  "demo_matched = demo_bank\<lparr>bk_lines := [(demo_line ''a'' 10000)\<lparr>ln_match := Some (''payment'', demo_uuid ''2''), ln_confidence := Some ''exact'', ln_matched_by := Some ''u1''\<rparr>,
     (demo_line ''b'' (- 200))\<lparr>ln_explained := Some ''bank charge''\<rparr>]\<rparr>"


lemma demo_auto_parts:
  "find_rec (demo_uuid ''1'') demo_bank = Some demo_rec" "rn_status demo_rec \<noteq> ''finalised''"
  "proposals demo_case [demo_entry] (lines_of (demo_uuid ''1'') demo_bank) = [(''a'', ''payment'', demo_uuid ''2'')]"
  "claim_all ''u1'' (accepted [(''a'', ''payment'', demo_uuid ''2'')]) demo_bank = (1, 0, demo_matched)"
  "ambiguous_count demo_case [demo_entry] (lines_of (demo_uuid ''1'') demo_bank) = 0"
  by code_simp+

lemma demo_auto: "auto_match demo_case demo_book ''u1'' (demo_uuid ''1'') demo_bank = Inr (1, 0, demo_matched)"
  using demo_auto_parts demo_uuid_ok(1) by (simp add: auto_match_def demo_book_def split: prod.split)

lemma demo_bank_ok: "bank_ok demo_bank"
  by (simp add: bank_ok_def demo_bank_def demo_line_def demo_rec_def)

lemma auto_match_never_guesses_witness:
  "auto_match demo_case demo_book ''u1'' (demo_uuid ''1'') demo_bank = Inr (1, 0, demo_matched)
   \<and> isOpen (demo_line ''a'' 10000) \<and> claimKey ''payment'' (demo_uuid ''2'') \<notin> set (claimedBy (lines_of (demo_uuid ''1'') demo_bank))"
proof (intro conjI)
  let ?l = "(demo_line ''a'' 10000)\<lparr>ln_match := Some (''payment'', demo_uuid ''2''), ln_confidence := Some ''exact'', ln_matched_by := Some ''u1''\<rparr>"
  have at0: "demo_line ''a'' 10000 \<in> set (bk_lines demo_bank)" "?l \<in> set (bk_lines demo_matched)" "ln_id (demo_line ''a'' 10000) = ln_id ?l"
    "ln_match (demo_line ''a'' 10000) = None" "ln_match ?l = Some (''payment'', demo_uuid ''2'')"
    by (simp_all add: demo_bank_def demo_matched_def demo_line_def)
  note all = auto_match_never_guesses [OF demo_auto demo_auto_parts(1) demo_bank_ok at0]
  show "isOpen (demo_line ''a'' 10000)" using all by blast
  show "claimKey ''payment'' (demo_uuid ''2'') \<notin> set (claimedBy (lines_of (demo_uuid ''1'') demo_bank))" using all by blast
qed (rule demo_auto)

text \<open>A period saved, a statement of one line imported, the period finalised; then another period is opened.\<close>

definition demo_form :: "string \<Rightarrow> RecForm" where
  "demo_form month = \<lparr>rf_id = '''', rf_account = demo_uuid ''9'', rf_start = ''2026-'' @ month @ ''-01'', rf_end = ''2026-'' @ month @ ''-30'', rf_opening = 0,
     rf_closing = 10000, rf_notes = ''''\<rparr>"

definition demo_text :: units where
  "demo_text = U ''Date,Narration,Amount'' @ [10] @ U ''2026-04-02,Fee,100''"

definition demo_ids :: "nat \<Rightarrow> string" where
  "demo_ids n = replicate n (CHR ''x'')"

definition demo_saved :: "units Bank" where
  "demo_saved = snd (projr (save_reconciliation (demo_uuid ''1'') (demo_form ''04'') empty_bank))"

definition demo_imported :: "units Bank" where
  "demo_imported = snd (projr (import_statement (\<lambda>s. s) demo_case demo_ids ''i'' demo_text (demo_uuid ''1'') demo_saved))"

definition demo_final :: "units Bank" where
  "demo_final = snd (projr (finalise (\<lambda>_ _ _. []) ''u1'' False '''' (demo_uuid ''1'') demo_imported))"

definition demo_next :: "units Bank" where
  "demo_next = snd (projr (save_reconciliation (demo_uuid ''2'') (demo_form ''05'') demo_final))"

definition demo_count :: Imported where
  "demo_count = \<lparr>im_rows_read = 1, im_inserted = 1, im_duplicate = 0, im_rejected = 0, im_outside = 0\<rparr>"

lemma demo_save: "save_reconciliation (demo_uuid ''1'') (demo_form ''04'') empty_bank = Inr (demo_uuid ''1'', demo_saved)"
  by code_simp

lemma demo_import: "import_statement (\<lambda>s. s) demo_case demo_ids ''i'' demo_text (demo_uuid ''1'') demo_saved = Inr (demo_count, demo_imported)"
  by code_simp

lemma demo_finalise: "finalise (\<lambda>_ _ _. []) ''u1'' False '''' (demo_uuid ''1'') demo_imported = Inr (10000, demo_final)"
  by code_simp

lemma demo_save_next: "save_reconciliation (demo_uuid ''2'') (demo_form ''05'') demo_final = Inr (demo_uuid ''2'', demo_next)"
  by code_simp

lemma demo_final_state:
  "rn_status (hd (bk_recs demo_final)) = ''finalised''" "bk_recs demo_final \<noteq> []" "rn_id (hd (bk_recs demo_final)) = demo_uuid ''1''"
  "length (period_lines (demo_uuid ''1'') demo_final) = 1" "demo_uuid ''2'' \<notin> rn_id ` set (bk_recs demo_final)" "bk_recs (empty_bank :: units Bank) = []"
  "bk_lines demo_saved = []"
  by code_simp+

lemma demo_bank_run: "bank_run (\<lambda>s. s) demo_case empty_bank demo_final"
proof -
  have s1: "bank_move (\<lambda>s. s) demo_case empty_bank demo_saved" by (rule bank_move.save [OF demo_save]) (simp add: demo_final_state)
  have "inj demo_ids" by (rule injI) (metis demo_ids_def length_replicate)
  then have s2: "bank_move (\<lambda>s. s) demo_case demo_saved demo_imported"
    by (rule bank_move.import0 [OF demo_import]) (simp add: demo_final_state)
  have s3: "bank_move (\<lambda>s. s) demo_case demo_imported demo_final" by (rule bank_move.finalised [OF demo_finalise])
  from bank_run.stay s1 have "bank_run (\<lambda>s. s) demo_case empty_bank demo_saved" by (rule bank_run.move)
  from bank_run.move [OF this s2] s3 show ?thesis by (rule bank_run.move)
qed


lemma import_twice_adds_nothing_witness:
  "length (bk_lines demo_imported) = 1 \<and> (\<exists>im2 b2. import_statement (\<lambda>s. s) demo_case demo_ids ''j'' demo_text (demo_uuid ''1'') demo_imported = Inr (im2, b2)
     \<and> bk_lines b2 = bk_lines demo_imported \<and> im_inserted im2 = 0)"
proof
  show "length (bk_lines demo_imported) = 1" by code_simp
  show "\<exists>im2 b2. import_statement (\<lambda>s. s) demo_case demo_ids ''j'' demo_text (demo_uuid ''1'') demo_imported = Inr (im2, b2)
     \<and> bk_lines b2 = bk_lines demo_imported \<and> im_inserted im2 = 0"
    using import_twice_adds_nothing [OF demo_import, of demo_ids "''j''"] by blast
qed

lemma demo_matched_facts:
  "find_rec (demo_uuid ''1'') demo_matched = Some demo_rec" "rn_status demo_rec \<noteq> ''finalised''"
  "rn_closing demo_rec = rn_opening demo_rec + (\<Sum>l\<leftarrow>lines_of (demo_uuid ''1'') demo_matched. ln_amount l)"
  "(\<Sum>l\<leftarrow>filter (\<lambda>l. ln_match l \<noteq> None) (lines_of (demo_uuid ''1'') demo_matched). ln_amount l)
      = (\<Sum>e\<leftarrow>filter (\<lambda>e. claimKey (be_kind e) (be_id e) \<in> set (claimedBy (lines_of (demo_uuid ''1'') demo_matched)))
           (demo_book (rn_account demo_rec) (rn_start demo_rec) (rn_end demo_rec)). be_amount e)"
  "(\<Sum>l\<leftarrow>explained_lines (lines_of (demo_uuid ''1'') demo_matched). ln_amount l) = - 200"
  by code_simp+

lemma explained_lines_block_finalising_witness:
  "finalise demo_book ''u1'' False [] (demo_uuid ''1'') demo_matched = Inl (Refused ''unexplained_difference'')"
  using explained_lines_block_finalising [where book = demo_book, OF demo_uuid_ok(1) demo_matched_facts(1-4), of "''u1''" "[]"] demo_matched_facts(5) by simp

end
