(* ===== verification/Payouts.thy ===== *)
theory Payouts
  imports Banking
begin

text \<open>
  Payout batches, the second half of \<open>worker/src/routes/fees/banking.ts\<close>: a batch is made, filled,
  submitted, decided by somebody else and written out as the bank's bulk file.  A handler that reads
  before it writes is two definitions, what it reads and decides (\<open>.._read\<close>) and the statement it then
  runs, so that requests may interleave between them; \<open>office_step\<close> lets them.  The unique indexes
  \<open>payout_batches_no_once\<close> and \<open>payout_items_one_live_per_source\<close> of \<open>db/tenant.sql\<close> are part of the
  statements.  Text that people type is in UTF-16 units; the letter case of the language (\<open>tables\<close>) and
  the bank details on a beneficiary's own record are parameters.
\<close>

subsection \<open>Rows\<close>

record Batch =
  pb_id :: string
  pb_account :: string
  pb_no :: units
  pb_purpose :: string
  pb_value_date :: string
  pb_provider :: string
  pb_notes :: "units option"
  pb_created_by :: string
  pb_status :: string
  pb_approved_by :: "string option"
  pb_rejected_by :: "string option"
  pb_reason :: "units option"
  pb_exported_by :: "string option"

record Item =
  pi_id :: string
  pi_batch :: string
  pi_kind :: string
  pi_vendor :: "string option"
  pi_employee :: "string option"
  pi_student :: "string option"
  pi_name :: units
  pi_account :: units
  pi_ifsc :: units
  pi_amount :: int
  pi_mode :: units
  pi_narration :: "units option"
  pi_source_kind :: "string option"
  pi_source_id :: "string option"
  pi_status :: string

record PayAccount =
  ba_id :: string
  ba_allows :: bool
  ba_active :: bool

record Office =
  of_accounts :: "PayAccount list"
  of_batches :: "Batch list"
  of_items :: "Item list"

definition units_trim :: "units \<Rightarrow> units" where
  "units_trim s = strip js_space s"

definition uuidQuery :: "string \<Rightarrow> string option" where
  "uuidQuery v = (if isUUID v then Some v else None)"

definition find_batch :: "string \<Rightarrow> Office \<Rightarrow> Batch option" where
  "find_batch i s = find (\<lambda>b. pb_id b = i) (of_batches s)"

text \<open>\<open>approvalStanding\<close>: why a batch may not be released by this caller, or \<open>None\<close>.\<close>

datatype Block = Not_submitted | No_permission | Assembled_by_caller

definition approvalStanding :: "string \<Rightarrow> string \<Rightarrow> string \<Rightarrow> bool \<Rightarrow> Block option" where
  "approvalStanding status createdBy caller mayApprove =
    (if status \<noteq> ''submitted'' then Some Not_submitted
     else if \<not> mayApprove then Some No_permission
     else if createdBy = caller then Some Assembled_by_caller
     else None)"

subsection \<open>Making a batch\<close>

definition PURPOSES :: "string list" where
  "PURPOSES = [''vendor'', ''salary'', ''refund'', ''scholarship'', ''mixed'']"

definition payoutProviderKnown :: "string \<Rightarrow> bool" where
  "payoutProviderKnown name0 \<longleftrightarrow> name0 = '''' \<or> name0 = ''file_export''"

definition fyLabelForDate :: "string \<Rightarrow> string" where
  "fyLabelForDate on0 =
    (let y0 = slice_number 0 4 on0; y = (if slice_number 5 7 on0 < 4 then y0 - 1 else y0)
     in js_int y @ ''-'' @ padStart 2 (CHR ''0'') (js_int ((y + 1) mod 100)))"

text \<open>The batch number a form leaves empty; \<open>stamp\<close> is the school's clock, as 20260402-101500.\<close>

definition batch_number :: "units \<Rightarrow> string \<Rightarrow> string \<Rightarrow> units" where
  "batch_number given valueDate stamp =
    (let g = units_trim given in if g = [] then U (''PO/'' @ fyLabelForDate valueDate @ ''/'' @ stamp) else g)"

definition sql_lower :: "units \<Rightarrow> units" where
  "sql_lower s = map (\<lambda>c. if 65 \<le> c \<and> c \<le> 90 then c + 32 else c) s"

definition no_key :: "Batch \<Rightarrow> units" where
  "no_key b = sql_lower (sql_trim (pb_no b))"

record BatchForm =
  bf_account :: string
  bf_purpose :: string
  bf_provider :: string
  bf_value_date :: string
  bf_no :: units
  bf_notes :: units

definition create_batch :: "tables \<Rightarrow> string \<Rightarrow> string \<Rightarrow> string \<Rightarrow> string \<Rightarrow> BatchForm \<Rightarrow> Office \<Rightarrow> BankError + Office" where
  "create_batch t fresh user today0 stamp f s =
    (let acct = js_trim (bf_account f); v0 = js_trim (bf_value_date f); valueDate = (if v0 = '''' then today0 else v0);
         no = batch_number (bf_no f) valueDate stamp in
     if \<not> isUUID acct then Inl Malformed
     else if bf_purpose f \<notin> set PURPOSES then Inl (Refused ''purpose'')
     else if \<not> payoutProviderKnown (bf_provider f) then Inl (Refused ''provider'')
     else if \<not> isDate valueDate then Inl (Refused ''value date'')
     else case find (\<lambda>a. ba_id a = acct) (of_accounts s) of
       None \<Rightarrow> Inl Missing
     | Some a \<Rightarrow>
        if \<not> ba_allows a \<or> \<not> ba_active a then Inl (Refused ''not for payouts'')
        else if list_ex (\<lambda>b. no_key b = lower t no) (of_batches s) then Inl (Refused ''duplicate'')
        else let b = \<lparr>pb_id = fresh, pb_account = acct, pb_no = no, pb_purpose = bf_purpose f, pb_value_date = valueDate,
                   pb_provider = (if bf_provider f = '''' then ''file_export'' else bf_provider f), pb_notes = null_if_empty (bf_notes f),
                   pb_created_by = user, pb_status = ''draft'', pb_approved_by = None, pb_rejected_by = None, pb_reason = None,
                   pb_exported_by = None\<rparr>
          in if list_ex (\<lambda>o'. no_key o' = no_key b) (of_batches s) then Inl (Refused ''payout_batches_no_once'')
             else Inr (s\<lparr>of_batches := of_batches s @ [b]\<rparr>))"

subsection \<open>Filling it\<close>

record ItemReq =
  ir_kind :: string
  ir_vendor :: string
  ir_employee :: string
  ir_student :: string
  ir_name :: units
  ir_account :: units
  ir_ifsc :: units
  ir_amount :: "int option"
  ir_mode :: units
  ir_narration :: units
  ir_source_kind :: string
  ir_source_id :: string

definition unit_upper :: "nat \<Rightarrow> bool" where
  "unit_upper c \<longleftrightarrow> 65 \<le> c \<and> c \<le> 90"

definition unit_digit :: "nat \<Rightarrow> bool" where
  "unit_digit c \<longleftrightarrow> 48 \<le> c \<and> c \<le> 57"

definition IFSC_SHAPE :: "units \<Rightarrow> bool" where
  "IFSC_SHAPE s \<longleftrightarrow> length s = 11 \<and> list_all unit_upper (take 4 s) \<and> s ! 4 = 48 \<and> list_all (\<lambda>c. unit_upper c \<or> unit_digit c) (drop 5 s)"

definition ACCOUNT_SHAPE :: "units \<Rightarrow> bool" where
  "ACCOUNT_SHAPE s \<longleftrightarrow> 6 \<le> length s \<and> length s \<le> 20 \<and> list_all (\<lambda>c. unit_upper c \<or> unit_digit c \<or> (97 \<le> c \<and> c \<le> 122)) s"

definition validIFSC :: "tables \<Rightarrow> units \<Rightarrow> bool" where
  "validIFSC t v \<longleftrightarrow> IFSC_SHAPE (upper t (units_trim v))"

datatype RowFault = BadBeneficiaryKind | NoName | NotMoney | NotPositive | BadAccount | BadIfsc | NotOnFile

text \<open>What the first pass over the rows refuses a row for.\<close>

definition row_fault :: "tables \<Rightarrow> ItemReq \<Rightarrow> RowFault option" where
  "row_fault t it =
    (if ir_kind it \<notin> {''vendor'', ''employee'', ''student'', ''other''} then Some BadBeneficiaryKind
     else if units_trim (ir_name it) = [] then Some NoName
     else case ir_amount it of None \<Rightarrow> Some NotMoney
     | Some amt \<Rightarrow>
        if amt \<le> 0 then Some NotPositive
        else if units_trim (ir_account it) \<noteq> [] \<or> units_trim (ir_ifsc it) \<noteq> [] then
          (if \<not> ACCOUNT_SHAPE (units_trim (ir_account it)) then Some BadAccount else if \<not> validIFSC t (ir_ifsc it) then Some BadIfsc else None)
        else if ir_kind it = ''other'' then Some NotOnFile else None)"

definition beneficiaryBank :: "tables \<Rightarrow> (string \<Rightarrow> string \<Rightarrow> (units \<times> units) option) \<Rightarrow> ItemReq \<Rightarrow> units \<times> units" where
  "beneficiaryBank t bank it =
    (let arg = (if ir_kind it = ''vendor'' then uuidQuery (ir_vendor it) else if ir_kind it = ''employee'' then uuidQuery (ir_employee it)
          else if ir_kind it = ''student'' then uuidQuery (ir_student it) else None) in
     case arg of None \<Rightarrow> ([], [])
     | Some i \<Rightarrow> (case bank (ir_kind it) i of None \<Rightarrow> ([], []) | Some (a, f) \<Rightarrow> (units_trim a, upper t (units_trim f))))"

definition NO_SOURCE :: string where
  "NO_SOURCE = ''00000000-0000-0000-0000-000000000000''"

definition LIVE :: "string list" where
  "LIVE = [''pending'', ''exported'', ''paid'']"

text \<open>The document an item pays, for the index: none for a manual item.\<close>

definition document :: "Item \<Rightarrow> (string \<times> string) option" where
  "document i = (case pi_source_kind i of None \<Rightarrow> None
     | Some k \<Rightarrow> if k = ''manual'' then None else Some (k, case pi_source_id i of None \<Rightarrow> NO_SOURCE | Some x \<Rightarrow> x))"

definition live_document :: "string \<times> string \<Rightarrow> Item list \<Rightarrow> bool" where
  "live_document d items \<longleftrightarrow> list_ex (\<lambda>i. document i = Some d \<and> pi_status i \<in> set LIVE) items"

definition new_item :: "tables \<Rightarrow> string \<Rightarrow> string \<Rightarrow> units \<Rightarrow> units \<Rightarrow> ItemReq \<Rightarrow> Item" where
  "new_item t fresh batchID acctNo ifsc it =
    \<lparr>pi_id = fresh, pi_batch = batchID, pi_kind = ir_kind it, pi_vendor = uuidQuery (ir_vendor it), pi_employee = uuidQuery (ir_employee it),
     pi_student = uuidQuery (ir_student it), pi_name = units_trim (ir_name it), pi_account = acctNo, pi_ifsc = ifsc,
     pi_amount = the (ir_amount it), pi_mode = (if ir_mode it = [] then U ''neft'' else ir_mode it), pi_narration = null_if_empty (ir_narration it),
     pi_source_kind = optStr (ir_source_kind it), pi_source_id = uuidQuery (ir_source_id it), pi_status = ''pending''\<rparr>"

text \<open>Where the money of a row goes: the number given, or the one on file; \<open>None\<close> when neither will do.\<close>

definition destination :: "tables \<Rightarrow> (string \<Rightarrow> string \<Rightarrow> (units \<times> units) option) \<Rightarrow> ItemReq \<Rightarrow> (units \<times> units) option" where
  "destination t bank it =
    (if units_trim (ir_account it) \<noteq> [] then Some (units_trim (ir_account it), upper t (units_trim (ir_ifsc it)))
     else let (a, f) = beneficiaryBank t bank it in if \<not> ACCOUNT_SHAPE a \<or> \<not> IFSC_SHAPE f then None else Some (a, f))"

text \<open>
  The second pass: the rows to insert and the names without bank details.  \<open>ids\<close> are the fresh
  identifiers, \<open>seen\<close> the documents this request has used.
\<close>

fun prepare_items :: "tables \<Rightarrow> (string \<Rightarrow> string \<Rightarrow> (units \<times> units) option) \<Rightarrow> Item list \<Rightarrow> string \<Rightarrow> (string \<times> string) list
    \<Rightarrow> (string \<times> ItemReq) list \<Rightarrow> BankError + (Item list \<times> units list)" where
  "prepare_items t bank items batchID seen [] = Inr ([], [])"
| "prepare_items t bank items batchID seen ((fresh, it) # its) =
    (case destination t bank it of
       None \<Rightarrow> (case prepare_items t bank items batchID seen its of Inl e \<Rightarrow> Inl e | Inr (xs, nb) \<Rightarrow> Inr (xs, ir_name it # nb))
     | Some (a, f) \<Rightarrow>
        let x = new_item t fresh batchID a f it in
        if (case document x of None \<Rightarrow> False | Some d \<Rightarrow> d \<in> set seen \<or> live_document d items) then Inl (Refused ''live elsewhere'')
        else (case prepare_items t bank items batchID (case document x of None \<Rightarrow> seen | Some d \<Rightarrow> d # seen) its of
                Inl e \<Rightarrow> Inl e | Inr (xs, nb) \<Rightarrow> Inr (x # xs, nb)))"

definition add_items_read :: "tables \<Rightarrow> (string \<Rightarrow> string \<Rightarrow> (units \<times> units) option) \<Rightarrow> string \<Rightarrow> (string \<times> ItemReq) list \<Rightarrow> Office
    \<Rightarrow> BankError + (Item list \<times> units list)" where
  "add_items_read t bank batchID its s =
    (if \<not> isUUID batchID then Inl Malformed
     else if its = [] then Inl (Refused ''no beneficiaries'')
     else if list_ex (\<lambda>(_, it). row_fault t it \<noteq> None) its then Inl (Refused ''row'')
     else case find_batch batchID s of None \<Rightarrow> Inl Missing
     | Some b \<Rightarrow> if pb_status b \<noteq> ''draft'' then Inl (Refused ''not_draft'') else prepare_items t bank (of_items s) batchID [] its)"

text \<open>The inserts, one transaction: the index on live documents refuses them all or none.\<close>

fun insert_items :: "Item list \<Rightarrow> Item list \<Rightarrow> Item list option" where
  "insert_items [] items = Some items"
| "insert_items (x # xs) items =
    (if (case document x of None \<Rightarrow> False | Some d \<Rightarrow> live_document d items) then None else insert_items xs (items @ [x]))"

definition add_items_write :: "Item list \<Rightarrow> Office \<Rightarrow> Office" where
  "add_items_write xs s = (case insert_items xs (of_items s) of None \<Rightarrow> s | Some items \<Rightarrow> s\<lparr>of_items := items\<rparr>)"

definition delete_item_read :: "string \<Rightarrow> string \<Rightarrow> Office \<Rightarrow> BankError option" where
  "delete_item_read batchID itemID s =
    (if \<not> isUUID batchID \<or> \<not> isUUID itemID then Some Malformed
     else case find_batch batchID s of None \<Rightarrow> Some Missing
     | Some b \<Rightarrow> if pb_status b \<noteq> ''draft'' then Some (Refused ''not_draft'') else None)"

definition delete_item_write :: "string \<Rightarrow> string \<Rightarrow> Office \<Rightarrow> Office" where
  "delete_item_write batchID itemID s = s\<lparr>of_items := filter (\<lambda>i. \<not> (pi_id i = itemID \<and> pi_batch i = batchID)) (of_items s)\<rparr>"

subsection \<open>Submitting, deciding, writing the file\<close>

definition set_batches :: "(Batch \<Rightarrow> bool) \<Rightarrow> (Batch \<Rightarrow> Batch) \<Rightarrow> Office \<Rightarrow> Office" where
  "set_batches p f s = s\<lparr>of_batches := map (\<lambda>b. if p b then f b else b) (of_batches s)\<rparr>"

definition items_of :: "string \<Rightarrow> Office \<Rightarrow> Item list" where
  "items_of batchID s = filter (\<lambda>i. pi_batch i = batchID) (of_items s)"

definition submit_read :: "string \<Rightarrow> Office \<Rightarrow> BankError option" where
  "submit_read batchID s =
    (if \<not> isUUID batchID then Some Malformed
     else case find_batch batchID s of None \<Rightarrow> Some Missing
     | Some b \<Rightarrow> if pb_status b \<noteq> ''draft'' then Some (Refused ''not_draft'')
         else if items_of batchID s = [] then Some (Refused ''no beneficiaries'') else None)"

definition submit_write :: "string \<Rightarrow> Office \<Rightarrow> Office" where
  "submit_write batchID s = set_batches (\<lambda>b. pb_id b = batchID \<and> pb_status b = ''draft'') (\<lambda>b. b\<lparr>pb_status := ''submitted''\<rparr>) s"

text \<open>Deciding tests everything again in its one statement, so it is one definition.\<close>

definition decided_as :: "string \<Rightarrow> bool \<Rightarrow> units \<Rightarrow> Batch \<Rightarrow> Batch" where
  "decided_as user approve reason b =
    (if approve then b\<lparr>pb_status := ''approved'', pb_approved_by := Some user, pb_reason := null_if_empty reason\<rparr>
     else b\<lparr>pb_status := ''rejected'', pb_rejected_by := Some user, pb_reason := Some (units_trim reason)\<rparr>)"

definition decide :: "string \<Rightarrow> bool \<Rightarrow> bool \<Rightarrow> units \<Rightarrow> string \<Rightarrow> Office \<Rightarrow> BankError + Office" where
  "decide user mayApprove approve reason batchID s =
    (if \<not> isUUID batchID then Inl Malformed
     else if \<not> approve \<and> units_trim reason = [] then Inl (Refused ''reason'')
     else case find_batch batchID s of None \<Rightarrow> Inl Missing
     | Some b \<Rightarrow>
        (case approvalStanding (pb_status b) (pb_created_by b) user mayApprove of
           Some _ \<Rightarrow> Inl (Refused ''forbidden'')
         | None \<Rightarrow> Inr (set_batches (\<lambda>b. pb_id b = batchID \<and> pb_status b = ''submitted'' \<and> pb_created_by b \<noteq> user)
             (decided_as user approve reason) s)))"

definition payout_line :: "Item \<Rightarrow> PayoutLine" where
  "payout_line i = \<lparr>pl_beneficiary = pi_name i, pl_account = pi_account i, pl_ifsc = pi_ifsc i, pl_amount = pi_amount i, pl_mode = pi_mode i,
     pl_narration = or_empty (pi_narration i)\<rparr>"

definition exported_lines :: "string \<Rightarrow> Office \<Rightarrow> PayoutLine list" where
  "exported_lines batchID s = map payout_line (sort_key (\<lambda>i. code_points (pi_name i)) (items_of batchID s))"

definition export_batch :: "string \<Rightarrow> Batch \<Rightarrow> Batch" where
  "export_batch user b = b\<lparr>pb_status := ''exported'', pb_exported_by := Some user\<rparr>"

definition export_item :: "string \<Rightarrow> Item \<Rightarrow> Item" where
  "export_item batchID x = (if pi_batch x = batchID \<and> pi_status x = ''pending'' then x\<lparr>pi_status := ''exported''\<rparr> else x)"

definition export_file :: "tables \<Rightarrow> string \<Rightarrow> string \<Rightarrow> Office \<Rightarrow> BankError + ((units \<times> units) \<times> Office)" where
  "export_file t user batchID s =
    (if \<not> isUUID batchID then Inl Malformed
     else case find_batch batchID s of None \<Rightarrow> Inl Missing
     | Some h \<Rightarrow>
        if pb_status h \<noteq> ''approved'' \<and> pb_status h \<noteq> ''exported'' then Inl (Refused ''not_approved'')
        else if \<not> payoutProviderKnown (pb_provider h) then Inl (Refused ''unknown provider'')
        else let s1 = set_batches (\<lambda>b. pb_id b = batchID \<and> pb_status b \<in> {''approved'', ''exported''}) (export_batch user) s in
          Inr (payoutFile t (pb_no h) (exported_lines batchID s), s1\<lparr>of_items := map (export_item batchID) (of_items s1)\<rparr>))"

subsection \<open>Interleaving\<close>

text \<open>The writes of requests that have read and decided but not yet written.\<close>

datatype Write = Inserting "Item list" | Deleting string string | Submitting string

definition run_write :: "Write \<Rightarrow> Office \<Rightarrow> Office" where
  "run_write w = (case w of Inserting xs \<Rightarrow> add_items_write xs | Deleting b i \<Rightarrow> delete_item_write b i | Submitting b \<Rightarrow> submit_write b)"

inductive office_step :: "tables \<Rightarrow> Office \<times> Write list \<Rightarrow> Office \<times> Write list \<Rightarrow> bool" for t where
  create: "create_batch t fresh user today0 stamp f s = Inr s' \<Longrightarrow> fresh \<notin> pb_id ` set (of_batches s) \<Longrightarrow> office_step t (s, ws) (s', ws)"
| adding: "add_items_read t bank b its s = Inr (xs, nb) \<Longrightarrow> distinct (map fst its) \<Longrightarrow> office_step t (s, ws) (s, ws @ [Inserting xs])"
| deleting: "delete_item_read b i s = None \<Longrightarrow> office_step t (s, ws) (s, ws @ [Deleting b i])"
| submitting: "submit_read b s = None \<Longrightarrow> office_step t (s, ws) (s, ws @ [Submitting b])"
| writes: "ws = us @ w # vs \<Longrightarrow> office_step t (s, ws) (run_write w s, us @ vs)"
| decided: "decide user may approve reason b s = Inr s' \<Longrightarrow> office_step t (s, ws) (s', ws)"
| exported: "export_file t user b s = Inr (file, s') \<Longrightarrow> office_step t (s, ws) (s', ws)"

inductive office_run :: "tables \<Rightarrow> Office \<times> Write list \<Rightarrow> Office \<times> Write list \<Rightarrow> bool" for t where
  here: "office_run t s s"
| more: "office_run t s s' \<Longrightarrow> office_step t s' s'' \<Longrightarrow> office_run t s s''"

text \<open>One request after the other: every handler writes before the next one reads.\<close>

inductive handled :: "tables \<Rightarrow> Office \<Rightarrow> Office \<Rightarrow> bool" for t where
  create: "create_batch t fresh user today0 stamp f s = Inr s' \<Longrightarrow> fresh \<notin> pb_id ` set (of_batches s) \<Longrightarrow> handled t s s'"
| add: "add_items_read t bank b its s = Inr (xs, nb) \<Longrightarrow> handled t s (add_items_write xs s)"
| delete: "delete_item_read b i s = None \<Longrightarrow> handled t s (delete_item_write b i s)"
| submit: "submit_read b s = None \<Longrightarrow> handled t s (submit_write b s)"
| decided: "decide user may approve reason b s = Inr s' \<Longrightarrow> handled t s s'"
| exported: "export_file t user b s = Inr (file, s') \<Longrightarrow> handled t s s'"

inductive handled_all :: "tables \<Rightarrow> Office \<Rightarrow> Office \<Rightarrow> bool" for t where
  start: "handled_all t s s"
| more: "handled_all t s s' \<Longrightarrow> handled t s' s'' \<Longrightarrow> handled_all t s s''"

end
