(* ===== verification/Contracts.thy ===== *)
theory Contracts
  imports Prelude
begin

text \<open>
  What several components rely on, as locales: that what one person asked for is settled by another,
  and that a unique index of the database lets no second row with the same key in.  The components
  that keep these promises interpret them on their own definitions.
\<close>

subsection \<open>Two people\<close>

text \<open>
  \<open>signed s\<close> lists, for the rows that have been settled, who asked and who settled.  The promise is
  that a step settles nothing for the person who asked.
\<close>

definition two_people :: "(string option \<times> string option) list \<Rightarrow> bool" where
  "two_people ps \<longleftrightarrow> list_all (\<lambda>(m, c). c \<noteq> None \<and> m \<noteq> c) ps"

lemma two_people_simps [simp]:
  "two_people []" "two_people ((m, c) # ps) \<longleftrightarrow> c \<noteq> None \<and> m \<noteq> c \<and> two_people ps" "two_people (ps @ qs) \<longleftrightarrow> two_people ps \<and> two_people qs"
  by (auto simp: two_people_def)

lemma two_peopleI: "(\<And>m c. (m, c) \<in> set ps \<Longrightarrow> c \<noteq> None \<and> m \<noteq> c) \<Longrightarrow> two_people ps"
  by (auto simp: two_people_def list_all_iff)

lemma two_peopleD: "two_people ps \<Longrightarrow> (m, c) \<in> set ps \<Longrightarrow> c \<noteq> None \<and> m \<noteq> c"
  by (auto simp: two_people_def list_all_iff)

locale countersigned =
  fixes step :: "'s \<Rightarrow> 's \<Rightarrow> bool" and signed :: "'s \<Rightarrow> (string option \<times> string option) list"
  assumes signs: "step s s' \<Longrightarrow> (m, c) \<in> set (signed s') \<Longrightarrow> (m, c) \<in> set (signed s) \<or> (c \<noteq> None \<and> m \<noteq> c)"
begin

lemma step_two_people: "step s s' \<Longrightarrow> two_people (signed s) \<Longrightarrow> two_people (signed s')"
  using signs by (intro two_peopleI) (metis two_peopleD)

lemma run_two_people: "step\<^sup>*\<^sup>* s s' \<Longrightarrow> two_people (signed s) \<Longrightarrow> two_people (signed s')"
  by (induction rule: rtranclp_induct) (auto intro: step_two_people)

end

subsection \<open>Unique indexes\<close>

definition keys_of :: "('r \<Rightarrow> 'k option) \<Rightarrow> 'r list \<Rightarrow> 'k list" where
  "keys_of index rs = concat (map (\<lambda>r. case index r of None \<Rightarrow> [] | Some k \<Rightarrow> [k]) rs)"

lemma keys_of_simps [simp]:
  "keys_of index [] = []" "keys_of index (r # rs) = (case index r of None \<Rightarrow> [] | Some k \<Rightarrow> [k]) @ keys_of index rs"
  "keys_of index (rs @ ss) = keys_of index rs @ keys_of index ss"
  by (simp_all add: keys_of_def)

lemma set_keys_of: "k \<in> set (keys_of index rs) \<longleftrightarrow> Some k \<in> index ` set rs"
  by (induction rs) (auto split: option.splits)

lemma keys_of_map: "(\<And>r. r \<in> set rs \<Longrightarrow> index (f r) = index r) \<Longrightarrow> keys_of index (map f rs) = keys_of index rs"
  by (induction rs) auto

lemma keys_of_filter: "distinct (keys_of index rs) \<Longrightarrow> distinct (keys_of index (filter P rs))"
proof (induction rs)
  case (Cons r rs)
  then show ?case by (cases "index r") (auto simp: set_keys_of)
qed simp

lemma same_key:
  assumes "distinct (keys_of index rs)" "x \<in> set rs" "y \<in> set rs" "index x = Some k" "index y = Some k"
  shows "x = y"
  using assms
proof (induction rs)
  case (Cons r rs)
  then show ?case by (cases "index r") (auto simp: set_keys_of image_iff split: option.splits)
qed simp

text \<open>An insert that an index guards puts the row in or leaves the table as it is.\<close>

locale unique_index =
  fixes index :: "'r \<Rightarrow> 'k option" and ins :: "'r \<Rightarrow> 'r list \<Rightarrow> 'r list"
  assumes guarded: "ins x rs = rs \<or> (ins x rs = rs @ [x] \<and> (index x = None \<or> index x \<notin> index ` set rs))"
begin

lemma ins_distinct: "distinct (keys_of index rs) \<Longrightarrow> distinct (keys_of index (ins x rs))"
  using guarded [of x rs] by (cases "index x") (auto simp: set_keys_of)

lemma fold_distinct: "distinct (keys_of index rs) \<Longrightarrow> distinct (keys_of index (fold ins xs rs))"
  by (induction xs arbitrary: rs) (auto intro: ins_distinct)

end

end
