(* ===== verification/PayoutProps.thy ===== *)
theory PayoutProps
  imports Payouts Contracts
begin

text \<open>
  What the payout batches promise: nobody releases a batch of their own, however requests interleave; a
  document is in one live batch; a batch a checker has seen does not change as long as requests do not
  interleave, and does when they do; and what becomes of the documents of a refused batch.
\<close>

subsection \<open>Batches\<close>

definition signed_batches :: "Office \<Rightarrow> (string option \<times> string option) list" where
  "signed_batches s = concat (map (\<lambda>b.
     if pb_status b = ''approved'' \<or> pb_status b = ''exported'' then [(Some (pb_created_by b), pb_approved_by b)]
     else if pb_status b = ''rejected'' then [(Some (pb_created_by b), pb_rejected_by b)] else []) (of_batches s))"

lemma of_batches_writes [simp]:
  "of_batches (add_items_write xs s) = of_batches s" "of_batches (delete_item_write b i s) = of_batches s"
  "of_items (set_batches p f s) = of_items s" "of_items (submit_write b s) = of_items s"
  by (auto simp: add_items_write_def delete_item_write_def set_batches_def submit_write_def split: option.splits)

lemma create_Inr:
  assumes "create_batch t fresh user today0 stamp f s = Inr s'"
  shows "\<exists>b. s' = s\<lparr>of_batches := of_batches s @ [b]\<rparr> \<and> pb_id b = fresh \<and> pb_status b = ''draft''"
  using assms by (auto simp: create_batch_def Let_def split: if_splits option.splits)

lemma decide_Inr:
  assumes "decide user may approve reason i s = Inr s'"
  shows "s' = set_batches (\<lambda>b. pb_id b = i \<and> pb_status b = ''submitted'' \<and> pb_created_by b \<noteq> user) (decided_as user approve reason) s"
    "\<exists>b. find_batch i s = Some b \<and> pb_status b = ''submitted''"
  using assms by (auto simp: decide_def approvalStanding_def split: if_splits option.splits)

lemma export_Inr:
  assumes "export_file t user i s = Inr (file, s')"
  shows "of_batches s' = of_batches (set_batches (\<lambda>b. pb_id b = i \<and> pb_status b \<in> {''approved'', ''exported''}) (export_batch user) s)"
    "of_items s' = map (export_item i) (of_items s)"
    "\<exists>b. find_batch i s = Some b \<and> (pb_status b = ''approved'' \<or> pb_status b = ''exported'') \<and> file = payoutFile t (pb_no b) (exported_lines i s)"
  using assms by (auto simp: export_file_def Let_def set_batches_def split: if_splits option.splits)

lemma signed_cong: "of_batches s' = of_batches s \<Longrightarrow> signed_batches s' = signed_batches s"
  by (simp add: signed_batches_def)

lemma signed_iff:
  "(m, c) \<in> set (signed_batches s) \<longleftrightarrow> (\<exists>b\<in>set (of_batches s). m = Some (pb_created_by b) \<and>
     (((pb_status b = ''approved'' \<or> pb_status b = ''exported'') \<and> c = pb_approved_by b) \<or> (pb_status b = ''rejected'' \<and> c = pb_rejected_by b)))"
  by (auto simp: signed_batches_def split: if_splits)

lemma signed_set_batches:
  assumes "(m, c) \<in> set (signed_batches (set_batches p f s))"
    "\<And>b. p b \<Longrightarrow> (m, c) \<in> set (signed_batches (s\<lparr>of_batches := [f b]\<rparr>)) \<Longrightarrow> (m, c) \<in> set (signed_batches (s\<lparr>of_batches := [b]\<rparr>)) \<or> (c \<noteq> None \<and> m \<noteq> c)"
  shows "(m, c) \<in> set (signed_batches s) \<or> (c \<noteq> None \<and> m \<noteq> c)"
proof -
  from assms(1) obtain b where b: "b \<in> set (of_batches s)" "(m, c) \<in> set (signed_batches (s\<lparr>of_batches := [if p b then f b else b]\<rparr>))"
    by (auto simp: signed_iff set_batches_def split: if_splits)
  then have "(m, c) \<in> set (signed_batches (s\<lparr>of_batches := [b]\<rparr>)) \<or> (c \<noteq> None \<and> m \<noteq> c)" using assms(2) by (cases "p b") auto
  then show ?thesis using b(1) by (auto simp: signed_iff)
qed

lemma decided_signs:
  assumes "decide user may approve reason i s = Inr s'" "(m, c) \<in> set (signed_batches s')"
  shows "(m, c) \<in> set (signed_batches s) \<or> (c \<noteq> None \<and> m \<noteq> c)"
  by (rule signed_set_batches [OF assms(2) [unfolded decide_Inr(1) [OF assms(1)]]])
    (auto simp: signed_iff decided_as_def split: if_splits)

lemma exported_signs:
  assumes "export_file t user i s = Inr (file, s')" "(m, c) \<in> set (signed_batches s')"
  shows "(m, c) \<in> set (signed_batches s) \<or> (c \<noteq> None \<and> m \<noteq> c)"
  by (rule signed_set_batches [OF assms(2) [unfolded signed_cong [OF export_Inr(1) [OF assms(1)]]]])
    (auto simp: signed_iff export_batch_def)

lemma submit_signs:
  assumes "(m, c) \<in> set (signed_batches (submit_write i s))"
  shows "(m, c) \<in> set (signed_batches s) \<or> (c \<noteq> None \<and> m \<noteq> c)"
  by (rule signed_set_batches [OF assms [unfolded submit_write_def]]) (auto simp: signed_iff)

lemma create_signs:
  assumes "create_batch t fresh user today0 stamp f s = Inr s'"
  shows "signed_batches s' = signed_batches s"
  using create_Inr [OF assms] by (auto simp: signed_batches_def)

lemma run_write_signs:
  assumes "(m, c) \<in> set (signed_batches (run_write w s))"
  shows "(m, c) \<in> set (signed_batches s) \<or> (c \<noteq> None \<and> m \<noteq> c)"
proof (cases w)
  case (Submitting b)
  then show ?thesis using submit_signs [of m c b s] assms by (simp add: run_write_def)
qed (use assms in \<open>simp_all add: run_write_def signed_batches_def\<close>)

interpretation payouts: countersigned "office_step t" "\<lambda>s. signed_batches (fst s)"
proof unfold_locales
  fix s s' m c
  assume "office_step t s s'" "(m, c) \<in> set (signed_batches (fst s'))"
  then show "(m, c) \<in> set (signed_batches (fst s)) \<or> (c \<noteq> None \<and> m \<noteq> c)"
  proof cases
    case create
    then show ?thesis using \<open>(m, c) \<in> set (signed_batches (fst s'))\<close> create_signs by simp
  next
    case decided
    then show ?thesis using \<open>(m, c) \<in> set (signed_batches (fst s'))\<close> decided_signs by simp
  next
    case exported
    then show ?thesis using \<open>(m, c) \<in> set (signed_batches (fst s'))\<close> exported_signs by simp
  next
    case writes
    then show ?thesis using \<open>(m, c) \<in> set (signed_batches (fst s'))\<close> run_write_signs by simp
  qed auto
qed

lemma office_run_rtranclp: "office_run t s s' \<Longrightarrow> (office_step t)\<^sup>*\<^sup>* s s'"
  by (induction rule: office_run.induct) (auto intro: rtranclp.intros)

definition empty_office :: "PayAccount list \<Rightarrow> Office" where
  "empty_office as = \<lparr>of_accounts = as, of_batches = [], of_items = []\<rparr>"

text \<open>
  C9. However requests interleave, a batch that is released, or refused, was so by somebody other than
  the person who put it together.
\<close>
theorem released_by_another:
  assumes "office_run t (empty_office as, []) (s, ws)" "b \<in> set (of_batches s)"
  shows "(pb_status b = ''approved'' \<or> pb_status b = ''exported'' \<longrightarrow> (\<exists>u. pb_approved_by b = Some u \<and> u \<noteq> pb_created_by b))
    \<and> (pb_status b = ''rejected'' \<longrightarrow> (\<exists>u. pb_rejected_by b = Some u \<and> u \<noteq> pb_created_by b))"
proof -
  have "two_people (signed_batches (empty_office as))" by (simp add: signed_batches_def empty_office_def)
  with payouts.run_two_people [OF office_run_rtranclp [OF assms(1)]] have "two_people (signed_batches s)" by simp
  from two_peopleD [OF this] have "\<And>m c. (m, c) \<in> set (signed_batches s) \<Longrightarrow> c \<noteq> None \<and> m \<noteq> c" .
  then show ?thesis using assms(2) unfolding signed_iff by (metis option.exhaust)
qed

subsection \<open>Documents\<close>

definition live_key :: "Item \<Rightarrow> (string \<times> string) option" where
  "live_key x = (if pi_status x \<in> set LIVE then document x else None)"

definition insert_item :: "Item \<Rightarrow> Item list \<Rightarrow> Item list" where
  "insert_item x items = (case insert_items [x] items of None \<Rightarrow> items | Some xs \<Rightarrow> xs)"

lemma live_document_iff: "live_document d items \<longleftrightarrow> Some d \<in> live_key ` set items"
  unfolding live_document_def live_key_def list_ex_iff image_iff by (metis option.distinct(1))

interpretation documents: unique_index live_key insert_item
  by unfold_locales (auto simp: insert_item_def live_document_iff live_key_def split: option.splits if_splits)

lemma insert_items_fold: "insert_items xs items = Some ys \<Longrightarrow> ys = fold insert_item xs items"
  by (induction xs arbitrary: items) (auto simp: insert_item_def split: if_splits option.splits)

lemma document_status [simp]: "document (x\<lparr>pi_status := v\<rparr>) = document x"
  by (cases "pi_source_kind x") (simp_all add: document_def)

lemma export_item_key: "live_key (export_item i x) = live_key x"
  by (simp add: export_item_def live_key_def LIVE_def)

lemma run_write_documents:
  assumes "distinct (keys_of live_key (of_items s))"
  shows "distinct (keys_of live_key (of_items (run_write w s)))"
proof (cases w)
  case (Inserting xs)
  then show ?thesis using assms documents.fold_distinct [OF assms, of xs] insert_items_fold [of xs "of_items s"]
    by (auto simp: run_write_def add_items_write_def split: option.splits)
next
  case (Deleting b i)
  then show ?thesis using keys_of_filter [OF assms] by (simp add: run_write_def delete_item_write_def)
next
  case (Submitting b)
  then show ?thesis using assms by (simp add: run_write_def)
qed

lemma office_step_documents:
  assumes "office_step t s s'" "distinct (keys_of live_key (of_items (fst s)))"
  shows "distinct (keys_of live_key (of_items (fst s')))"
  using assms(1)
proof cases
  case (create fresh user today0 stamp f s0 s1 ws)
  then show ?thesis using assms(2) create_Inr by fastforce
next
  case (decided user may approve reason b s0 s1 ws)
  then show ?thesis using assms(2) decide_Inr(1) by fastforce
next
  case (exported user b s0 f0 s1 ws)
  then show ?thesis using assms(2) export_Inr(2) [OF exported(3)] by (simp add: keys_of_map export_item_key)
next
  case (writes ws us w vs s0)
  then show ?thesis using assms(2) run_write_documents by simp
qed (use assms(2) in auto)

lemma office_run_documents:
  "office_run t s s' \<Longrightarrow> distinct (keys_of live_key (of_items (fst s))) \<Longrightarrow> distinct (keys_of live_key (of_items (fst s')))"
  by (induction rule: office_run.induct) (auto intro: office_step_documents)

text \<open>
  C8. However requests interleave, a bill, a payslip or a refund is in at most one payout that is waiting,
  written out or paid.
\<close>
theorem document_paid_once:
  assumes "office_run t (empty_office as, []) (s, ws)" "x \<in> set (of_items s)" "y \<in> set (of_items s)"
    "pi_status x \<in> set LIVE" "pi_status y \<in> set LIVE" "document x = Some d" "document y = Some d"
  shows "x = y"
proof -
  have "distinct (keys_of live_key (of_items s))" using office_run_documents [OF assms(1)] by (simp add: empty_office_def)
  then show ?thesis by (rule same_key [where k = d]) (use assms in \<open>auto simp: live_key_def\<close>)
qed

subsection \<open>One request after the other\<close>

lemma find_set_batches:
  assumes "\<And>b. pb_id (f b) = pb_id b"
  shows "find_batch i (set_batches p f s) = map_option (\<lambda>b. if p b then f b else b) (find_batch i s)"
proof -
  have "find (\<lambda>b. pb_id b = i) (map (\<lambda>b. if p b then f b else b) bs) = map_option (\<lambda>b. if p b then f b else b) (find (\<lambda>b. pb_id b = i) bs)" for bs
    by (induction bs) (auto simp: assms)
  then show ?thesis by (simp add: find_batch_def set_batches_def)
qed

lemma find_batch_cong: "of_batches s' = of_batches s \<Longrightarrow> find_batch i s' = find_batch i s"
  by (simp add: find_batch_def)

lemma find_batch_more: "find_batch i s = Some b \<Longrightarrow> find_batch i (s\<lparr>of_batches := of_batches s @ bs\<rparr>) = Some b"
proof -
  have "find P xs = Some b \<Longrightarrow> find P (xs @ ys) = Some b" for P and xs ys :: "Batch list" by (induction xs) auto
  then show "find_batch i s = Some b \<Longrightarrow> find_batch i (s\<lparr>of_batches := of_batches s @ bs\<rparr>) = Some b" by (simp add: find_batch_def)
qed

text \<open>
  What a handler does to the batch under an identifier once it is no longer a draft.
\<close>
lemma batch_after:
  assumes "handled t s s'" "find_batch i s = Some b" "pb_status b \<noteq> ''draft''"
  shows "\<exists>b'. find_batch i s' = Some b' \<and> pb_status b' \<noteq> ''draft'' \<and> (pb_status b = ''rejected'' \<longrightarrow> pb_status b' = ''rejected'')"
  using assms(1)
proof cases
  case (create fresh user today0 stamp f)
  then show ?thesis using create_Inr [OF create(1)] find_batch_more [OF assms(2)] assms(3) by auto
next
  case (add bank b0 its xs nb)
  then show ?thesis using assms find_batch_cong [of s' s i] by simp
next
  case (delete b0 i0)
  then show ?thesis using assms find_batch_cong [of s' s i] by simp
next
  case (submit b0)
  then show ?thesis using assms by (auto simp: submit_write_def find_set_batches)
next
  case (decided user may approve reason b0)
  have "pb_id (decided_as user approve reason x) = pb_id x" for x by (simp add: decided_as_def)
  with decide_Inr(1) [OF decided] show ?thesis using assms(2,3) by (auto simp: find_set_batches decided_as_def)
next
  case (exported user b0 f0)
  have "pb_id (export_batch user x) = pb_id x" for x by (simp add: export_batch_def)
  with find_batch_cong [OF export_Inr(1) [OF exported]] show ?thesis
    using assms(2,3) by (auto simp: find_set_batches export_batch_def)
qed

lemma prepared_batch: "prepare_items t bank items bid seen its = Inr (xs, nb) \<Longrightarrow> x \<in> set xs \<Longrightarrow> pi_batch x = bid"
proof (induction its arbitrary: seen xs nb)
  case (Cons p its)
  obtain fresh it where p: "p = (fresh, it)" by (cases p)
  show ?case using Cons unfolding p
    by (auto simp: new_item_def Let_def split: option.splits if_splits sum.splits prod.splits)
qed simp

lemma insert_items_append: "insert_items xs items = Some ys \<Longrightarrow> ys = items @ xs"
proof (induction xs arbitrary: items)
  case (Cons x xs)
  then have "insert_items xs (items @ [x]) = Some ys" by (simp split: if_splits)
  from Cons.IH [OF this] show ?case by simp
qed simp

lemma add_read_Inr:
  assumes "add_items_read t bank bid its s = Inr (xs, nb)"
  shows "prepare_items t bank (of_items s) bid [] its = Inr (xs, nb)" "\<exists>b. find_batch bid s = Some b \<and> pb_status b = ''draft''"
  using assms by (auto simp: add_items_read_def split: if_splits option.splits)

lemma payout_line_export [simp]: "payout_line (export_item j x) = payout_line x" "pi_name (export_item j x) = pi_name x" "pi_batch (export_item j x) = pi_batch x"
  by (simp_all add: export_item_def payout_line_def)

lemma sort_key_map:
  assumes "\<And>x. k (f x) = k x"
  shows "sort_key k (map f xs) = map f (sort_key k xs)"
proof -
  have "insort_key k (f x) (map f ys) = map f (insort_key k x ys)" for x ys by (induction ys) (simp_all add: assms)
  then show ?thesis by (induction xs) simp_all
qed

lemma lines_after:
  assumes "handled t s s'" "find_batch i s = Some b" "pb_status b \<noteq> ''draft''"
  shows "exported_lines i s' = exported_lines i s"
  using assms(1)
proof cases
  case (create fresh user today0 stamp f)
  then show ?thesis using create_Inr [OF create(1)] by (auto simp: exported_lines_def items_of_def)
next
  case (add bank b0 its xs nb)
  have "b0 \<noteq> i" using add_read_Inr(2) [OF add(2)] assms(2,3) by auto
  moreover have "pi_batch x = b0" if "x \<in> set xs" for x using prepared_batch [OF add_read_Inr(1) [OF add(2)] that] .
  ultimately have "filter (\<lambda>x. pi_batch x = i) xs = []" by (auto simp: filter_empty_conv)
  then have "items_of i s' = items_of i s" unfolding add(1)
    by (auto simp: add_items_write_def items_of_def dest: insert_items_append split: option.splits)
  then show ?thesis by (simp add: exported_lines_def)
next
  case (delete b0 i0)
  then have "b0 \<noteq> i" using assms(2,3) by (auto simp: delete_item_read_def split: if_splits option.splits)
  then have "items_of i s' = items_of i s" unfolding delete(1) by (auto simp: delete_item_write_def items_of_def intro: filter_cong)
  then show ?thesis by (simp add: exported_lines_def)
next
  case (submit b0)
  then show ?thesis by (simp add: exported_lines_def items_of_def)
next
  case (decided user may approve reason b0)
  then show ?thesis using decide_Inr(1) [OF decided] by (simp add: exported_lines_def items_of_def)
next
  case (exported user b0 f0)
  have "items_of i s' = map (export_item b0) (items_of i s)" unfolding items_of_def export_Inr(2) [OF exported] by (simp add: filter_map comp_def)
  then show ?thesis by (simp add: exported_lines_def sort_key_map comp_def)
qed


subsection \<open>A refused batch\<close>

lemma prepared_not_live:
  "prepare_items t bank items bid seen its = Inr (xs, nb) \<Longrightarrow> x \<in> set xs \<Longrightarrow> document x = Some d \<Longrightarrow> \<not> live_document d items"
proof (induction its arbitrary: seen xs nb)
  case (Cons p its)
  obtain fresh it where p: "p = (fresh, it)" by (cases p)
  show ?case using Cons unfolding p
    by (auto simp: Let_def split: option.splits if_splits sum.splits prod.splits)
qed simp

lemma item_after:
  assumes "handled t s s'" "find_batch i s = Some b" "pb_status b = ''rejected''" "x \<in> set (of_items s)" "pi_batch x = i"
  shows "x \<in> set (of_items s')"
  using assms(1)
proof cases
  case (create fresh user today0 stamp f)
  then show ?thesis using create_Inr [OF create(1)] assms(4) by auto
next
  case (add bank b0 its xs nb)
  then show ?thesis using assms(4) by (auto simp: add_items_write_def dest: insert_items_append split: option.splits)
next
  case (delete b0 i0)
  then have "b0 \<noteq> i" using assms(2,3) by (auto simp: delete_item_read_def split: if_splits option.splits)
  then show ?thesis using assms(4,5) delete(1) by (simp add: delete_item_write_def)
next
  case (submit b0)
  then show ?thesis using assms(4) by simp
next
  case (decided user may approve reason b0)
  then show ?thesis using decide_Inr(1) [OF decided] assms(4) by simp
next
  case (exported user b0 f0)
  have "b0 \<noteq> i" using export_Inr(3) [OF exported] assms(2,3) by auto
  then have "export_item b0 x = x" using assms(5) by (simp add: export_item_def)
  then show ?thesis using assms(4) unfolding export_Inr(2) [OF exported] by force
qed

text \<open>
  Refusing a batch does not free what it was to pay: a bill, payslip or refund waiting in a refused
  batch can, by these handlers, never be put into another batch nor taken out of this one.
\<close>
theorem refused_batch_keeps_its_documents:
  assumes "handled_all t s s'" "find_batch i s = Some b" "pb_status b = ''rejected''"
    "x \<in> set (of_items s)" "pi_batch x = i" "pi_status x \<in> set LIVE" "document x = Some d"
  shows "x \<in> set (of_items s')
    \<and> \<not> (\<exists>bank j its xs nb y. add_items_read t bank j its s' = Inr (xs, nb) \<and> y \<in> set xs \<and> document y = Some d)"
proof -
  have x: "x \<in> set (of_items s') \<and> (\<exists>b'. find_batch i s' = Some b' \<and> pb_status b' = ''rejected'')"
    using assms(1-4)
  proof (induction rule: handled_all.induct)
    case (more s0 s1 s2)
    then obtain b' where b': "x \<in> set (of_items s1)" "find_batch i s1 = Some b'" "pb_status b' = ''rejected''" by blast
    then show ?case using item_after [OF more(2) b'(2,3,1) assms(5)] batch_after [OF more(2) b'(2)] by auto
  qed auto
  then have "live_document d (of_items s')" using assms(6,7) by (auto simp: live_document_def list_ex_iff)
  then show ?thesis using x prepared_not_live add_read_Inr(1) by blast
qed

subsection \<open>Requests that interleave\<close>

lemma prepared_insertable:
  assumes "prepare_items t bank items bid seen its = Inr (xs, nb)"
    "\<And>d. live_document d items' \<Longrightarrow> live_document d items \<or> d \<in> set seen"
  shows "insert_items xs items' = Some (items' @ xs)"
  using assms
proof (induction its arbitrary: seen xs nb items')
  case (Cons p its)
  obtain fresh it where p: "p = (fresh, it)" by (cases p)
  show ?case
  proof (cases "destination t bank it")
    case None
    then show ?thesis using Cons unfolding p by (auto split: sum.splits prod.splits)
  next
    case (Some af)
    obtain a f where af: "af = (a, f)" by (cases af)
    let ?x = "new_item t fresh bid a f it"
    let ?seen = "case document ?x of None \<Rightarrow> seen | Some d \<Rightarrow> d # seen"
    from Cons.prems(1) obtain ys where ys: "prepare_items t bank items bid ?seen its = Inr (ys, nb)" "xs = ?x # ys"
      and free: "\<And>d. document ?x = Some d \<Longrightarrow> d \<notin> set seen \<and> \<not> live_document d items"
      unfolding p by (auto simp: Some af Let_def split: if_splits sum.splits prod.splits option.splits)
    have "live_document d (items' @ [?x]) \<Longrightarrow> live_document d items \<or> d \<in> set ?seen" for d
      using Cons.prems(2) [of d] by (auto simp: live_document_def split: option.splits)
    from Cons.IH [OF ys(1) this] have "insert_items ys (items' @ [?x]) = Some ((items' @ [?x]) @ ys)" by blast
    moreover have "\<not> (case document ?x of None \<Rightarrow> False | Some d \<Rightarrow> live_document d items')"
      using free Cons.prems(2) by (auto split: option.splits)
    ultimately show ?thesis using ys(2) by simp
  qed
qed simp

text \<open>
  Nothing in the statement that inserts items asks whether the batch is still a draft: the rows of a
  request that had read a draft go in after the batch was submitted and released, so the file names
  people the checker never saw.
\<close>
theorem item_slips_in_after_release:
  assumes "add_items_read t bank i its s = Inr (xs, nb)" "distinct (map fst its)" "submit_read i s = None"
    "find_batch i s = Some b" "pb_created_by b \<noteq> user"
  shows "\<exists>s1 s2. office_run t (s, []) (s1, [Inserting xs]) \<and> map_option pb_approved_by (find_batch i s1) = Some (Some user)
    \<and> items_of i s1 = items_of i s \<and> office_run t (s1, [Inserting xs]) (s2, []) \<and> find_batch i s2 = find_batch i s1
    \<and> items_of i s2 = items_of i s @ xs"
proof -
  let ?s0 = "submit_write i s"
  have i: "isUUID i" and b: "pb_status b = ''draft''" using assms(3,4) by (auto simp: submit_read_def split: if_splits)
  have bid: "pb_id b = i" using assms(4) by (auto simp: find_batch_def dest: find_Some_iff [THEN iffD1])
  have f0: "find_batch i ?s0 = Some (b\<lparr>pb_status := ''submitted''\<rparr>)"
    using assms(4) b bid by (simp add: submit_write_def find_set_batches)
  define s1 where "s1 = set_batches (\<lambda>b. pb_id b = i \<and> pb_status b = ''submitted'' \<and> pb_created_by b \<noteq> user) (decided_as user True []) ?s0"
  have dec: "decide user True True [] i ?s0 = Inr s1"
    using f0 i assms(5) by (simp add: decide_def approvalStanding_def s1_def)
  have "pb_id (decided_as user True [] x) = pb_id x" for x by (simp add: decided_as_def)
  then have f1: "map_option pb_approved_by (find_batch i s1) = Some (Some user)"
    using f0 bid assms(5) by (simp add: s1_def find_set_batches decided_as_def)
  have "office_step t (s, []) (s, [Inserting xs])" using office_step.adding [OF assms(1,2), of "[]"] by simp
  moreover have "office_step t (s, [Inserting xs]) (s, [Inserting xs, Submitting i])" using office_step.submitting [OF assms(3), of t "[Inserting xs]"] by simp
  moreover have "office_step t (s, [Inserting xs, Submitting i]) (?s0, [Inserting xs])"
    using office_step.writes [of "[Inserting xs, Submitting i]" "[Inserting xs]" "Submitting i" "[]" t s] by (simp add: run_write_def)
  moreover have "office_step t (?s0, [Inserting xs]) (s1, [Inserting xs])" by (rule office_step.decided [OF dec])
  ultimately have run1: "office_run t (s, []) (s1, [Inserting xs])" by (meson office_run.intros)
  have "office_step t (s1, [Inserting xs]) (add_items_write xs s1, [])"
    using office_step.writes [of "[Inserting xs]" "[]" "Inserting xs" "[]" t s1] by (simp add: run_write_def)
  then have run2: "office_run t (s1, [Inserting xs]) (add_items_write xs s1, [])" by (meson office_run.intros)
  have it1: "of_items s1 = of_items s" by (simp add: s1_def)
  have "insert_items xs (of_items s) = Some (of_items s @ xs)"
    by (rule prepared_insertable [OF add_read_Inr(1) [OF assms(1)]]) simp
  moreover have "filter (\<lambda>x. pi_batch x = i) xs = xs" using prepared_batch [OF add_read_Inr(1) [OF assms(1)]] by simp
  ultimately have "items_of i (add_items_write xs s1) = items_of i s @ xs" by (simp add: add_items_write_def items_of_def it1)
  then show ?thesis using run1 run2 f1 it1 find_batch_cong [of "add_items_write xs s1" s1 i] by (auto simp: items_of_def)
qed

subsection \<open>Witnesses\<close>

text \<open>One bill of 500 rupees: put in a batch by A, submitted, released or refused by B, written out.\<close>

definition po_uuid :: "string \<Rightarrow> string" where
  "po_uuid c = ''0000000'' @ c @ ''-0000-4000-8000-000000000000''"

definition po_case :: tables where
  "po_case = \<lparr>lower = (\<lambda>s. s), upper = (\<lambda>s. s)\<rparr>"

definition po_form :: BatchForm where
  "po_form = \<lparr>bf_account = po_uuid ''9'', bf_purpose = ''vendor'', bf_provider = '''', bf_value_date = ''2026-04-02'', bf_no = U ''PO 1'', bf_notes = []\<rparr>"

definition po_row :: ItemReq where
  "po_row = \<lparr>ir_kind = ''vendor'', ir_vendor = po_uuid ''4'', ir_employee = '''', ir_student = '''', ir_name = U ''Ravi'', ir_account = U ''1234567'',
     ir_ifsc = U ''SBIN0001234'', ir_amount = Some 50000, ir_mode = [], ir_narration = [], ir_source_kind = ''vendor_bill'', ir_source_id = po_uuid ''3''\<rparr>"

definition po_open :: Office where
  "po_open = empty_office [\<lparr>ba_id = po_uuid ''9'', ba_allows = True, ba_active = True\<rparr>]"

definition po_made :: Office where
  "po_made = projr (create_batch po_case (po_uuid ''1'') ''A'' ''2026-04-01'' ''s'' po_form po_open)"

definition po_asked :: "BankError + (Item list \<times> units list)" where
  "po_asked = add_items_read po_case (\<lambda>_ _. None) (po_uuid ''1'') [(''x'', po_row)] po_made"

definition po_filled :: Office where
  "po_filled = add_items_write (fst (projr po_asked)) po_made"

definition po_submitted :: Office where
  "po_submitted = submit_write (po_uuid ''1'') po_filled"

definition po_decided :: "bool \<Rightarrow> Office" where
  "po_decided ok = projr (decide ''B'' True ok (U ''no'') (po_uuid ''1'') po_submitted)"

definition po_written :: "(units \<times> units) \<times> Office" where
  "po_written = projr (export_file po_case ''C'' (po_uuid ''1'') (po_decided True))"

lemma po_create: "create_batch po_case (po_uuid ''1'') ''A'' ''2026-04-01'' ''s'' po_form po_open = Inr po_made"
  by code_simp

lemma po_add: "add_items_read po_case (\<lambda>_ _. None) (po_uuid ''1'') [(''x'', po_row)] po_made = Inr (fst (projr po_asked), [])"
  by code_simp

lemma po_submit: "submit_read (po_uuid ''1'') po_filled = None"
  by code_simp

lemma po_decide_yes: "decide ''B'' True True (U ''no'') (po_uuid ''1'') po_submitted = Inr (po_decided True)"
  by code_simp

lemma po_decide_no: "decide ''B'' True False (U ''no'') (po_uuid ''1'') po_submitted = Inr (po_decided False)"
  by code_simp

lemma po_decide: "decide ''B'' True ok (U ''no'') (po_uuid ''1'') po_submitted = Inr (po_decided ok)"
  using po_decide_yes po_decide_no by (cases ok) simp_all

lemma po_export: "export_file po_case ''C'' (po_uuid ''1'') (po_decided True) = Inr (fst po_written, snd po_written)"
  by code_simp

lemma po_batches: "of_batches po_open = []" "map pb_status (of_batches (po_decided True)) = [''approved'']"
  by code_simp+

lemma po_refused:
  "map pb_status (of_batches (po_decided False)) = [''rejected'']" "map_option pb_status (find_batch (po_uuid ''1'') (po_decided False)) = Some ''rejected''"
  by code_simp+

lemma po_items:
  "map document (of_items (po_decided False)) = [Some (''vendor_bill'', po_uuid ''3'')]" "map pi_status (of_items (po_decided False)) = [''pending'']"
  "map pi_batch (of_items (po_decided False)) = [po_uuid ''1'']"
  by code_simp+

lemma po_sent: "map_option pb_status (find_batch (po_uuid ''1'') po_submitted) = Some ''submitted''"
  by code_simp

lemma po_maker: "map_option pb_created_by (find_batch (po_uuid ''1'') po_filled) = Some ''A''"
  by code_simp

definition po_late :: "BankError + (Item list \<times> units list)" where
  "po_late = add_items_read po_case (\<lambda>_ _. None) (po_uuid ''1'') [(''y'', po_row\<lparr>ir_source_id := po_uuid ''5''\<rparr>)] po_filled"

lemma po_late_ok: "po_late = Inr (fst (projr po_late), [])" "map pi_id (fst (projr po_late)) = [''y'']"
  by code_simp+

lemma po_run: "office_run po_case (po_open, []) (po_decided ok, [])"
proof -
  have "office_run po_case (po_open, []) (po_made, [])"
    by (rule office_run.more [OF office_run.here office_step.create [OF po_create]]) (simp add: po_batches)
  moreover have "office_step po_case (po_made, []) (po_made, [Inserting (fst (projr po_asked))])"
    using office_step.adding [OF po_add, of "[]"] by simp
  moreover have "office_step po_case (po_made, [Inserting (fst (projr po_asked))]) (po_filled, [])"
    using office_step.writes [of "[Inserting (fst (projr po_asked))]" "[]" _ "[]" po_case po_made] by (simp add: run_write_def po_filled_def)
  moreover have "office_step po_case (po_filled, []) (po_filled, [Submitting (po_uuid ''1'')])"
    using office_step.submitting [OF po_submit, of _ "[]"] by simp
  moreover have "office_step po_case (po_filled, [Submitting (po_uuid ''1'')]) (po_submitted, [])"
    using office_step.writes [of "[Submitting (po_uuid ''1'')]" "[]" _ "[]" po_case po_filled] by (simp add: run_write_def po_submitted_def)
  moreover have "office_step po_case (po_submitted, []) (po_decided ok, [])" by (rule office_step.decided [OF po_decide])
  ultimately show ?thesis by (meson office_run.more)
qed

lemma released_by_another_witness: "\<exists>b u. of_batches (po_decided True) = [b] \<and> pb_approved_by b = Some u \<and> u \<noteq> pb_created_by b"
proof -
  obtain b where b: "of_batches (po_decided True) = [b]" "pb_status b = ''approved''" using po_batches(2) by auto
  with released_by_another [OF po_run [of True, unfolded po_open_def], of b] show ?thesis by auto
qed

lemma document_paid_once_witness: "\<exists>x. of_items (po_decided False) = [x] \<and> live_document (''vendor_bill'', po_uuid ''3'') [x]"
proof -
  obtain x where x: "of_items (po_decided False) = [x]" "document x = Some (''vendor_bill'', po_uuid ''3'')" "pi_status x = ''pending''"
    using po_items by auto
  then have x': "x \<in> set (of_items (po_decided False))" "pi_status x \<in> set LIVE" by (simp_all add: LIVE_def)
  have "x = x" using document_paid_once [OF po_run [of False, unfolded po_open_def] x'(1) x'(1) x'(2) x'(2) x(2) x(2)] .
  then show ?thesis using x x'(2) by (simp add: live_document_def)
qed

lemma refused_batch_keeps_its_documents_witness: "\<exists>x. x \<in> set (of_items (po_decided False)) \<and> document x = Some (''vendor_bill'', po_uuid ''3'')
    \<and> \<not> (\<exists>bank j its xs nb y. add_items_read po_case bank j its (po_decided False) = Inr (xs, nb) \<and> y \<in> set xs \<and> document y = Some (''vendor_bill'', po_uuid ''3''))"
proof -
  obtain x where x: "of_items (po_decided False) = [x]" "document x = Some (''vendor_bill'', po_uuid ''3'')" "pi_status x = ''pending''" "pi_batch x = po_uuid ''1''"
    using po_items by auto
  obtain b where b: "find_batch (po_uuid ''1'') (po_decided False) = Some b" "pb_status b = ''rejected''" using po_refused(2) by auto
  have "x \<in> set (of_items (po_decided False))" "pi_status x \<in> set LIVE" using x(1,3) by (simp_all add: LIVE_def)
  from refused_batch_keeps_its_documents [OF handled_all.start [of po_case] b this(1) x(4) this(2) x(2)] show ?thesis using x(2) by blast
qed


lemma item_slips_in_after_release_witness:
  "\<exists>s1 s2 xs. map pi_id xs = [''y''] \<and> map_option pb_approved_by (find_batch (po_uuid ''1'') s1) = Some (Some ''B'')
    \<and> office_run po_case (s1, [Inserting xs]) (s2, []) \<and> items_of (po_uuid ''1'') s2 = items_of (po_uuid ''1'') s1 @ xs"
proof -
  obtain b where b: "find_batch (po_uuid ''1'') po_filled = Some b" "pb_created_by b \<noteq> ''B''" using po_maker by auto
  have add: "add_items_read po_case (\<lambda>_ _. None) (po_uuid ''1'') [(''y'', po_row\<lparr>ir_source_id := po_uuid ''5''\<rparr>)] po_filled = Inr (fst (projr po_late), [])"
    using po_late_ok(1) unfolding po_late_def .
  from item_slips_in_after_release [OF add _ po_submit b] obtain s1 s2 where
    "map_option pb_approved_by (find_batch (po_uuid ''1'') s1) = Some (Some ''B'')" "items_of (po_uuid ''1'') s1 = items_of (po_uuid ''1'') po_filled"
    "office_run po_case (s1, [Inserting (fst (projr po_late))]) (s2, [])"
    "items_of (po_uuid ''1'') s2 = items_of (po_uuid ''1'') po_filled @ fst (projr po_late)" by auto
  with po_late_ok(2) show ?thesis by (intro exI [of _ s1] exI [of _ s2] exI [of _ "fst (projr po_late)"]) simp
qed

end
