(* ===== verification/Refunds.thy ===== *)
theory Refunds
  imports Banking Ledger
begin

text \<open>
  Refunds, \<open>worker/src/routes/fees/refunds.ts\<close>: one person asks, another decides, and a third pays
  out.  They stand beside the books of the counter (\<open>Ledger\<close>): what may go back is what the family
  has paid less what has been asked for and not refused.  Each handler ends in one guarded
  statement, so it is one definition.  One institution; notices to people and timestamps are left out.
\<close>

record Refund =
  fr_id :: string
  fr_student :: string
  fr_payment :: "string option"
  fr_amount :: int
  fr_reason :: string
  fr_mode :: "string option"
  fr_status :: string
  fr_requested_by :: "string option"
  fr_approved_by :: "string option"
  fr_processed_by :: "string option"
  fr_processed_on :: "string option"
  fr_note :: "string option"
  fr_reference :: "string option"

record Till =
  tl_books :: Books
  tl_refunds :: "Refund list"

text \<open>\<open>refundableSql\<close>.\<close>

definition paid_in :: "Books \<Rightarrow> string \<Rightarrow> int" where
  "paid_in b student = (\<Sum>p\<leftarrow>filter (\<lambda>p. py_student p = student \<and> py_status p = ''success'' \<and> py_mode p \<noteq> ''adjustment'') (bk_payments b). py_amount p)"

definition asked_back :: "Refund list \<Rightarrow> string \<Rightarrow> int" where
  "asked_back rs student = (\<Sum>r\<leftarrow>filter (\<lambda>r. fr_student r = student \<and> fr_status r \<noteq> ''rejected'') rs. fr_amount r)"

definition refundable :: "Till \<Rightarrow> string \<Rightarrow> int" where
  "refundable s student = paid_in (tl_books s) student - asked_back (tl_refunds s) student"

text \<open>What the refused clerk is told may go back, in whole rupees.\<close>

definition at_most_rupees :: "Till \<Rightarrow> string \<Rightarrow> string" where
  "at_most_rupees s student = indianGroup (max 0 (refundable s student) div 100)"

record RefundReq =
  rq_student :: string
  rq_amount :: "int option"
  rq_reason :: string
  rq_mode :: string
  rq_payment :: string

datatype RefundError = Bad_request string | Not_found | Forbidden_to string | Exceeds string

definition request_refund :: "string \<Rightarrow> string \<Rightarrow> RefundReq \<Rightarrow> Till \<Rightarrow> RefundError + Till" where
  "request_refund fresh user q s =
    (if \<not> isUUID (rq_student q) then Inl (Bad_request ''student_id'')
     else case rq_amount q of None \<Rightarrow> Inl (Bad_request ''amount_paise'')
     | Some amount \<Rightarrow>
        if amount \<le> 0 then Inl (Bad_request ''amount_paise must be positive'')
        else if js_trim (rq_reason q) = '''' then Inl (Bad_request ''reason'')
        else if js_trim (rq_payment q) \<noteq> '''' \<and> \<not> isUUID (rq_payment q) then Inl (Bad_request ''payment_id'')
        else let payment = (if js_trim (rq_payment q) = '''' then None else Some (rq_payment q)) in
        if \<not> amount \<le> refundable s (rq_student q) then Inl (Exceeds (at_most_rupees s (rq_student q)))
        else if (case payment of None \<Rightarrow> False | Some p \<Rightarrow> \<not> list_ex (\<lambda>x. py_id x = p) (bk_payments (tl_books s))) then Inl (Bad_request ''foreign key'')
        else Inr (s\<lparr>tl_refunds := tl_refunds s @ [\<lparr>fr_id = fresh, fr_student = rq_student q, fr_payment = payment, fr_amount = amount,
               fr_reason = js_trim (rq_reason q), fr_mode = optStr (rq_mode q), fr_status = ''pending'', fr_requested_by = Some user,
               fr_approved_by = None, fr_processed_by = None, fr_processed_on = None, fr_note = None, fr_reference = None\<rparr>]\<rparr>))"

definition find_refund :: "string \<Rightarrow> Till \<Rightarrow> Refund option" where
  "find_refund i s = find (\<lambda>r. fr_id r = i) (tl_refunds s)"

definition set_refunds :: "(Refund \<Rightarrow> bool) \<Rightarrow> (Refund \<Rightarrow> Refund) \<Rightarrow> Till \<Rightarrow> Till" where
  "set_refunds p f s = s\<lparr>tl_refunds := map (\<lambda>r. if p r then f r else r) (tl_refunds s)\<rparr>"

definition decide_refund :: "string \<Rightarrow> string \<Rightarrow> string \<Rightarrow> string \<Rightarrow> Till \<Rightarrow> RefundError + Till" where
  "decide_refund user decision note0 i s =
    (let note = js_trim note0; p = (\<lambda>r. fr_id r = i \<and> fr_status r = ''pending'' \<and> fr_requested_by r \<noteq> Some user) in
     if \<not> isUUID i then Inl (Bad_request ''id'')
     else if decision \<noteq> ''approved'' \<and> decision \<noteq> ''rejected'' then Inl (Bad_request ''decision'')
     else if decision = ''rejected'' \<and> note = '''' then Inl (Bad_request ''note'')
     else case find_refund i s of None \<Rightarrow> Inl Not_found
     | Some cur \<Rightarrow>
        if fr_requested_by cur = Some user \<and> user \<noteq> '''' then Inl (Forbidden_to ''decide your own'')
        else if \<not> list_ex p (tl_refunds s) then Inl (Bad_request ''only a pending refund can be decided'')
        else Inr (set_refunds p (\<lambda>r. r\<lparr>fr_status := decision, fr_approved_by := Some user, fr_note := optStr note\<rparr>) s))"

definition process_refund :: "string \<Rightarrow> string \<Rightarrow> string \<Rightarrow> string \<Rightarrow> string \<Rightarrow> string \<Rightarrow> Till \<Rightarrow> RefundError + Till" where
  "process_refund user today0 mode0 reference on0 i s =
    (let mode = to_lower (js_trim mode0); on1 = (if on0 = '''' then today0 else on0);
         p = (\<lambda>r. fr_id r = i \<and> fr_status r = ''approved'' \<and> fr_approved_by r \<noteq> Some user) in
     if \<not> isUUID i then Inl (Bad_request ''id'')
     else if mode = '''' then Inl (Bad_request ''mode'')
     else if on0 \<noteq> '''' \<and> \<not> isDate on0 then Inl (Bad_request ''processed_on'')
     else case find_refund i s of None \<Rightarrow> Inl Not_found
     | Some cur \<Rightarrow>
        if fr_approved_by cur = Some user \<and> user \<noteq> '''' then Inl (Forbidden_to ''pay your own approval'')
        else if \<not> list_ex p (tl_refunds s) then Inl (Bad_request ''only an approved refund can be paid out'')
        else Inr (set_refunds p (\<lambda>r. r\<lparr>fr_status := ''processed'', fr_processed_on := Some on1, fr_mode := Some mode,
               fr_reference := optStr reference, fr_processed_by := Some user\<rparr>) s))"

end
