(* ===== verification/RefundProps.thy ===== *)
theory RefundProps
  imports Refunds LedgerProps Contracts
begin

text \<open>
  What refunds promise beside the counter: the two pairs of eyes, that no more goes back than came in
  while receipts are only taken, and what voiding a receipt does to that.
\<close>

subsection \<open>What a family has paid\<close>

definition counts_as :: "string \<Rightarrow> Payment \<Rightarrow> int" where
  "counts_as student p = (if py_student p = student \<and> py_status p = ''success'' \<and> py_mode p \<noteq> ''adjustment'' then py_amount p else 0)"

lemma paid_in_sum: "paid_in b student = (\<Sum>p\<leftarrow>bk_payments b. counts_as student p)"
proof -
  have "(\<Sum>p\<leftarrow>filter (\<lambda>p. py_student p = student \<and> py_status p = ''success'' \<and> py_mode p \<noteq> ''adjustment'') ps. py_amount p)
    = (\<Sum>p\<leftarrow>ps. counts_as student p)" for ps by (induction ps) (auto simp: counts_as_def)
  then show ?thesis by (simp add: paid_in_def)
qed

text \<open>Statements that leave who paid what, and whether it arrived, as it is.\<close>

fun quiet :: "Stmt \<Rightarrow> bool" where
  "quiet (InsertPayment p) = False"
| "quiet (SetPaymentStatus p s) = False"
| "quiet (MovePayment p s) = False"
| "quiet s = True"

lemma run1_quiet:
  assumes "quiet s" "run1 t s b = Some b'"
  shows "map (counts_as student) (bk_payments b') = map (counts_as student) (bk_payments b)"
  using assms by (cases s) (auto simp: syncInvoice_def syncPayment_def counts_as_def Let_def split: if_splits option.splits)

lemma run_quiet:
  "list_all quiet ss \<Longrightarrow> run t ss b = Some b' \<Longrightarrow> map (counts_as student) (bk_payments b') = map (counts_as student) (bk_payments b)"
proof (induction ss arbitrary: b)
  case (Cons s ss)
  then obtain b1 where "run1 t s b = Some b1" "run t ss b1 = Some b'" by (auto split: Option.bind_splits)
  then show ?case using Cons run1_quiet by fastforce
qed simp

lemma run_quiet_paid: "list_all quiet ss \<Longrightarrow> run t ss b = Some b' \<Longrightarrow> paid_in b' student = paid_in b student"
  by (simp add: paid_in_sum run_quiet)

lemma alloc_stmts_quiet: "list_all quiet (alloc_stmts p al)"
  by (induction al) (auto simp: alloc_stmts_def)

lemma allocate_quiet: "allocate b student p amount ids = Some (al, r, stmts) \<Longrightarrow> list_all quiet stmts"
  by (auto simp: allocate_def Let_def alloc_stmts_quiet split: if_splits prod.splits)

lemma wallet_debit_quiet: "wallet_debit b student amount = Inr ws \<Longrightarrow> list_all quiet ws"
  by (auto simp: wallet_debit_def split: if_splits option.splits)

lemma allocate_after_quiet: "list_all quiet (allocate_after p b)"
  using allocate_quiet by (fastforce simp: allocate_after_def split: option.splits)

lemma status_paid:
  assumes "books_ok b" "run t (SetPaymentStatus p ''success'' # ss) b = Some b'" "list_all quiet ss"
  shows "paid_in b student \<le> paid_in b' student"
proof -
  let ?f = "\<lambda>v. if py_id v = p then v\<lparr>py_status := ''success''\<rparr> else v"
  have "(\<Sum>v\<leftarrow>bk_payments b. counts_as student v) \<le> (\<Sum>v\<leftarrow>bk_payments b. counts_as student (?f v))"
    by (rule sum_list_mono) (use books_okD(4) [OF assms(1)] in \<open>auto simp: counts_as_def\<close>)
  then show ?thesis using run_quiet_paid [OF assms(3), of t _ b' student] assms(2) by (auto simp: paid_in_sum comp_def)
qed

lemma new_payment_paid:
  assumes "0 \<le> py_amount w" "run t (InsertPayment w # ss) b = Some b'" "list_all quiet ss"
  shows "paid_in b student \<le> paid_in b' student"
proof -
  from assms(2) have "run t ss (b\<lparr>bk_payments := bk_payments b @ [w]\<rparr>) = Some b'" by (auto split: if_splits)
  from run_quiet_paid [OF assms(3) this, of student] show ?thesis using assms(1) by (auto simp: paid_in_sum counts_as_def)
qed

text \<open>The handlers of the counter and the corrections that take nothing back.\<close>

inductive takes_in :: "Books \<Rightarrow> Books \<Rightarrow> bool" where
  collected: "collect students po t pid req b = Inr (al, r, stmts) \<Longrightarrow> find_payment b pid = None \<Longrightarrow> run t stmts b = Some b' \<Longrightarrow> takes_in b b'"
| cleared: "clear p b = Inr stmts \<Longrightarrow> run t stmts b = Some b' \<Longrightarrow> takes_in b b'"
| forced: "force_success po fresh why p b = Inr stmts \<Longrightarrow> run t stmts b = Some b1
    \<Longrightarrow> run t (allocate_after p b1) b1 = Some b' \<Longrightarrow> takes_in b b'"
| topped_up: "wallet_topup students po fresh t amount mode ref s b = Inr stmts \<Longrightarrow> run t stmts b = Some b' \<Longrightarrow> takes_in b b'"
| adjusted: "wallet_adjust students po fresh t delta why s b = Inr stmts \<Longrightarrow> run t stmts b = Some b' \<Longrightarrow> takes_in b b'"

lemma takes_in_ledger: "takes_in b b' \<Longrightarrow> ledger_step b b'"
  by (induction rule: takes_in.induct) (blast intro: ledger_step.intros)+

lemma takes_in_paid:
  assumes "takes_in b b'" "books_ok b"
  shows "paid_in b student \<le> paid_in b' student"
  using assms(1)
proof cases
  case (collected students po t pid req al r stmts)
  obtain amount where "cr_amount req = Some amount" and amount: "0 < amount" and "amount \<le> (\<Sum>d\<leftarrow>selected_dues b req. iv_net d - iv_paid d)" and s: "cr_mode req \<in> {''cheque'', ''dd''} \<and> al = [] \<and> r = amount \<and> stmts = [InsertPayment (new_payment pid req amount)]
     \<or> cr_mode req \<notin> {''cheque'', ''dd''} \<and> (\<exists>st ws. allocate b (cr_student req) pid amount (cr_invoices req) = Some (al, r, st)
         \<and> stmts = InsertPayment (new_payment pid req amount) # st @ ws
         \<and> (if cr_mode req = ''wallet'' then wallet_debit b (cr_student req) amount = Inr ws else ws = []))"
    by (rule collect_Inr [OF collected(1)])
  have "\<exists>ss. stmts = InsertPayment (new_payment pid req amount) # ss \<and> list_all quiet ss"
  proof (cases "cr_mode req \<in> {''cheque'', ''dd''}")
    case False
    with s obtain st ws where "allocate b (cr_student req) pid amount (cr_invoices req) = Some (al, r, st)" and st: "stmts = InsertPayment (new_payment pid req amount) # st @ ws"
      and ws: "if cr_mode req = ''wallet'' then wallet_debit b (cr_student req) amount = Inr ws else ws = []" by blast
    then have "list_all quiet st" by (blast intro: allocate_quiet)
    moreover have "list_all quiet ws" using ws wallet_debit_quiet by (cases "cr_mode req = ''wallet''") auto
    ultimately show ?thesis using st by simp
  qed (use s in simp)
  then obtain ss where ss: "stmts = InsertPayment (new_payment pid req amount) # ss" "list_all quiet ss" by blast
  note ss = amount ss
  show ?thesis using ss(1) new_payment_paid [OF _ collected(3) [unfolded ss(2)] ss(3)] by (simp add: new_payment_def)
next
  case (cleared p stmts t)
  then obtain ss where "stmts = SetPaymentStatus p ''success'' # ss" "list_all quiet ss"
    using allocate_quiet by (fastforce simp: clear_def split: option.splits if_splits)
  then show ?thesis using status_paid [OF assms(2)] cleared(2) by blast
next
  case (forced po fresh why p stmts t b1)
  then have "stmts = [SetPaymentStatus p ''success'']" by (auto simp: force_success_def split: option.splits if_splits)
  then have "paid_in b student \<le> paid_in b1 student" using status_paid [OF assms(2)] forced(2) by fastforce
  then show ?thesis using run_quiet_paid [OF allocate_after_quiet forced(3)] by simp
next
  case (topped_up students po fresh t amount mode ref s stmts)
  then have "list_all quiet stmts" by (auto simp: wallet_topup_def Let_def split: option.splits if_splits)
  then show ?thesis using run_quiet_paid topped_up(2) by fastforce
next
  case (adjusted students po fresh t delta why s stmts)
  then have "list_all quiet stmts" by (auto simp: wallet_adjust_def Let_def split: option.splits if_splits)
  then show ?thesis using run_quiet_paid adjusted(2) by fastforce
qed

subsection \<open>Two pairs of eyes\<close>

inductive till_step :: "Till \<Rightarrow> Till \<Rightarrow> bool" where
  counter: "ledger_step (tl_books s) b' \<Longrightarrow> till_step s (s\<lparr>tl_books := b'\<rparr>)"
| asked: "request_refund fresh user q s = Inr s' \<Longrightarrow> fresh \<notin> fr_id ` set (tl_refunds s) \<Longrightarrow> till_step s s'"
| decided: "decide_refund user decision note0 i s = Inr s' \<Longrightarrow> till_step s s'"
| paid_out: "process_refund user today0 mode ref on0 i s = Inr s' \<Longrightarrow> till_step s s'"

lemma request_Inr:
  assumes "request_refund fresh user q s = Inr s'"
  shows "\<exists>r. s' = s\<lparr>tl_refunds := tl_refunds s @ [r]\<rparr> \<and> fr_id r = fresh \<and> fr_status r = ''pending'' \<and> 0 < fr_amount r
    \<and> fr_amount r \<le> refundable s (fr_student r)"
  using assms by (auto simp: request_refund_def Let_def split: if_splits option.splits)

lemma decide_refund_Inr:
  assumes "decide_refund user decision note0 i s = Inr s'"
  shows "s' = set_refunds (\<lambda>r. fr_id r = i \<and> fr_status r = ''pending'' \<and> fr_requested_by r \<noteq> Some user)
      (\<lambda>r. r\<lparr>fr_status := decision, fr_approved_by := Some user, fr_note := optStr (js_trim note0)\<rparr>) s"
    "decision = ''approved'' \<or> decision = ''rejected''"
  using assms by (auto simp: decide_refund_def Let_def split: if_splits option.splits)

lemma process_refund_Inr:
  assumes "process_refund user today0 mode0 ref on0 i s = Inr s'"
  shows "s' = set_refunds (\<lambda>r. fr_id r = i \<and> fr_status r = ''approved'' \<and> fr_approved_by r \<noteq> Some user)
      (\<lambda>r. r\<lparr>fr_status := ''processed'', fr_processed_on := Some (if on0 = '''' then today0 else on0), fr_mode := Some (to_lower (js_trim mode0)),
         fr_reference := optStr ref, fr_processed_by := Some user\<rparr>) s"
  using assms by (simp add: process_refund_def Let_def split: if_splits option.splits)

text \<open>Who asked and who decided, for the refunds that are decided; who decided and who paid, for those paid out.\<close>

definition decided_refunds :: "Till \<Rightarrow> (string option \<times> string option) list" where
  "decided_refunds s = map (\<lambda>r. (fr_requested_by r, fr_approved_by r)) (filter (\<lambda>r. fr_status r \<noteq> ''pending'') (tl_refunds s))"

definition paid_refunds :: "Till \<Rightarrow> (string option \<times> string option) list" where
  "paid_refunds s = map (\<lambda>r. (fr_approved_by r, fr_processed_by r)) (filter (\<lambda>r. fr_status r = ''processed'') (tl_refunds s))"

lemma refunds_simps [simp]:
  "tl_refunds (set_refunds p f s) = map (\<lambda>r. if p r then f r else r) (tl_refunds s)" "tl_books (set_refunds p f s) = tl_books s"
  by (simp_all add: set_refunds_def)

lemma decided_iff: "(m, c) \<in> set (decided_refunds s) \<longleftrightarrow> (\<exists>r\<in>set (tl_refunds s). fr_status r \<noteq> ''pending'' \<and> m = fr_requested_by r \<and> c = fr_approved_by r)"
  by (auto simp: decided_refunds_def)

lemma paid_iff: "(m, c) \<in> set (paid_refunds s) \<longleftrightarrow> (\<exists>r\<in>set (tl_refunds s). fr_status r = ''processed'' \<and> m = fr_approved_by r \<and> c = fr_processed_by r)"
  by (auto simp: paid_refunds_def)

interpretation deciding: countersigned till_step decided_refunds
proof unfold_locales
  fix s s' m c
  assume "till_step s s'" and mc: "(m, c) \<in> set (decided_refunds s')"
  then show "(m, c) \<in> set (decided_refunds s) \<or> (c \<noteq> None \<and> m \<noteq> c)"
  proof cases
    case (counter b')
    then show ?thesis using mc by (simp add: decided_refunds_def)
  next
    case (asked fresh user q)
    from request_Inr [OF asked(1)] obtain r where "s' = s\<lparr>tl_refunds := tl_refunds s @ [r]\<rparr>" "fr_status r = ''pending''" by blast
    then show ?thesis using mc by (simp add: decided_refunds_def)
  next
    case (decided user decision note0 i)
    note d = decide_refund_Inr [OF decided]
    from mc [unfolded d(1) decided_iff refunds_simps] show ?thesis unfolding decided_iff using d(2) by (fastforce split: if_splits)
  next
    case (paid_out user today0 mode ref on0 i)
    from mc [unfolded process_refund_Inr [OF paid_out] decided_iff refunds_simps] show ?thesis unfolding decided_iff by (fastforce split: if_splits)
  qed
qed

interpretation paying: countersigned till_step paid_refunds
proof unfold_locales
  fix s s' m c
  assume "till_step s s'" and mc: "(m, c) \<in> set (paid_refunds s')"
  then show "(m, c) \<in> set (paid_refunds s) \<or> (c \<noteq> None \<and> m \<noteq> c)"
  proof cases
    case (counter b')
    then show ?thesis using mc by (simp add: paid_refunds_def)
  next
    case (asked fresh user q)
    from request_Inr [OF asked(1)] obtain r where "s' = s\<lparr>tl_refunds := tl_refunds s @ [r]\<rparr>" "fr_status r = ''pending''" by blast
    then show ?thesis using mc by (simp add: paid_refunds_def)
  next
    case (decided user decision note0 i)
    note d = decide_refund_Inr [OF decided]
    from mc [unfolded d(1) paid_iff refunds_simps] show ?thesis unfolding paid_iff using d(2) by (fastforce split: if_splits)
  next
    case (paid_out user today0 mode ref on0 i)
    from mc [unfolded process_refund_Inr [OF paid_out] paid_iff refunds_simps] show ?thesis unfolding paid_iff by (fastforce split: if_splits)
  qed
qed

text \<open>
  C23. Whatever happens at the counter meanwhile, a refund that was decided was decided by somebody other
  than the person who asked for it, and one that was paid out was paid by somebody other than the
  person who approved it.
\<close>
theorem refund_needs_two_and_two:
  assumes "till_step\<^sup>*\<^sup>* s s'" "tl_refunds s = []" "r \<in> set (tl_refunds s')"
  shows "(fr_status r \<noteq> ''pending'' \<longrightarrow> (\<exists>u. fr_approved_by r = Some u \<and> fr_requested_by r \<noteq> Some u))
    \<and> (fr_status r = ''processed'' \<longrightarrow> (\<exists>u. fr_processed_by r = Some u \<and> fr_approved_by r \<noteq> Some u))"
proof -
  have "two_people (decided_refunds s')" by (rule deciding.run_two_people [OF assms(1)]) (simp add: decided_refunds_def assms(2))
  then have 1: "fr_status r \<noteq> ''pending'' \<Longrightarrow> fr_approved_by r \<noteq> None \<and> fr_requested_by r \<noteq> fr_approved_by r"
    using assms(3) by (intro two_peopleD) (auto simp: decided_refunds_def)
  have "two_people (paid_refunds s')" by (rule paying.run_two_people [OF assms(1)]) (simp add: paid_refunds_def assms(2))
  then have "fr_status r = ''processed'' \<Longrightarrow> fr_processed_by r \<noteq> None \<and> fr_approved_by r \<noteq> fr_processed_by r"
    using assms(3) by (intro two_peopleD) (auto simp: paid_refunds_def)
  with 1 show ?thesis by auto
qed

subsection \<open>No more goes back than came in\<close>

text \<open>The till while receipts are taken, cheques clear and wallets move, and refunds are asked, decided and paid.\<close>

inductive taking_step :: "Till \<Rightarrow> Till \<Rightarrow> bool" where
  takes: "takes_in (tl_books s) b' \<Longrightarrow> taking_step s (s\<lparr>tl_books := b'\<rparr>)"
| asked: "request_refund fresh user q s = Inr s' \<Longrightarrow> taking_step s s'"
| decided: "decide_refund user decision note0 i s = Inr s' \<Longrightarrow> taking_step s s'"
| paid_out: "process_refund user today0 mode ref on0 i s = Inr s' \<Longrightarrow> taking_step s s'"

lemma asked_back_append: "asked_back (rs @ [r]) student = asked_back rs student + (if fr_student r = student \<and> fr_status r \<noteq> ''rejected'' then fr_amount r else 0)"
  by (simp add: asked_back_def)

text \<open>
  Amounts are positive and a step of a refund, other than its refusal, keeps what is asked back.
\<close>
lemma asked_back_map:
  assumes "\<forall>r\<in>set rs. 0 < fr_amount r"
    "\<And>r. p r \<Longrightarrow> fr_status r \<noteq> ''rejected''" "\<And>r. fr_student (f r) = fr_student r \<and> fr_amount (f r) = fr_amount r"
  shows "asked_back (map (\<lambda>r. if p r then f r else r) rs) student \<le> asked_back rs student"
  using assms(1)
proof (induction rs)
  case (Cons r rs)
  then show ?case using assms(2) [of r] assms(3) [of r] by (auto simp: asked_back_def)
qed simp

definition till_ok :: "Till \<Rightarrow> bool" where
  "till_ok s \<longleftrightarrow> books_ok (tl_books s) \<and> wallets_ok (tl_books s) \<and> (\<forall>r\<in>set (tl_refunds s). 0 < fr_amount r) \<and> (\<forall>student. 0 \<le> refundable s student)"

lemma set_refunds_ok:
  assumes "till_ok s" "\<And>r. p r \<Longrightarrow> fr_status r \<noteq> ''rejected''" "\<And>r. fr_student (f r) = fr_student r \<and> fr_amount (f r) = fr_amount r"
  shows "till_ok (set_refunds p f s)"
proof -
  have "asked_back (tl_refunds (set_refunds p f s)) student \<le> asked_back (tl_refunds s) student" for student
    using asked_back_map [of "tl_refunds s" p f] assms by (simp add: till_ok_def)
  then have "0 \<le> refundable (set_refunds p f s) student" for student
    using assms(1) by (simp add: till_ok_def refundable_def) (meson order_trans)
  then show ?thesis using assms(1,3) by (auto simp: till_ok_def)
qed

lemma taking_step_ok:
  assumes "taking_step s s'" "till_ok s"
  shows "till_ok s'"
  using assms(1)
proof cases
  case (takes b')
  have ok: "books_ok (tl_books s)" "wallets_ok (tl_books s)" using assms(2) by (simp_all add: till_ok_def)
  have "paid_in (tl_books s) student \<le> paid_in b' student" for student by (rule takes_in_paid [OF takes(2) ok(1)])
  then have "0 \<le> refundable s' student" for student
    using assms(2) unfolding takes(1) till_ok_def refundable_def by simp (meson diff_right_mono order_trans)
  moreover have "books_ok b' \<and> wallets_ok b'" using ledger_step_ok [OF takes_in_ledger [OF takes(2)]] ok by blast
  ultimately show ?thesis using assms(2) takes(1) by (simp add: till_ok_def)
next
  case (asked fresh user q)
  from request_Inr [OF asked] obtain r where r: "s' = s\<lparr>tl_refunds := tl_refunds s @ [r]\<rparr>" "0 < fr_amount r" "fr_amount r \<le> refundable s (fr_student r)" by blast
  have "0 \<le> refundable s' student" for student
    using assms(2) r(3) by (auto simp: r(1) till_ok_def refundable_def asked_back_append)
  then show ?thesis using assms(2) r(1,2) by (auto simp: till_ok_def)
next
  case (decided user decision note0 i)
  show ?thesis unfolding decide_refund_Inr(1) [OF decided] by (rule set_refunds_ok [OF assms(2)]) auto
next
  case (paid_out user today0 mode ref on0 i)
  show ?thesis unfolding process_refund_Inr [OF paid_out] by (rule set_refunds_ok [OF assms(2)]) auto
qed


subsection \<open>Voiding a receipt\<close>

lemma sum_without_one:
  assumes "distinct (map py_id ps)" "p \<in> set ps" "counts_as student (p\<lparr>py_status := v\<rparr>) = 0"
  shows "(\<Sum>x\<leftarrow>ps. counts_as student (if py_id x = py_id p then x\<lparr>py_status := v\<rparr> else x)) = (\<Sum>x\<leftarrow>ps. counts_as student x) - counts_as student p"
  using assms
proof (induction ps)
  case (Cons x ps)
  show ?case
  proof (cases "x = p")
    case True
    then have "\<forall>x\<in>set ps. py_id x \<noteq> py_id p" using Cons.prems(1) by (auto simp: image_iff)
    then have "(if py_id x = py_id p then x\<lparr>py_status := v\<rparr> else x) = x" if "x \<in> set ps" for x using that by simp
    then have "(\<Sum>x\<leftarrow>ps. counts_as student (if py_id x = py_id p then x\<lparr>py_status := v\<rparr> else x)) = (\<Sum>x\<leftarrow>ps. counts_as student x)"
      by (intro arg_cong [where f = sum_list] map_cong) simp_all
    then show ?thesis using True Cons.prems(3) by simp
  next
    case False
    then have "p \<in> set ps" "py_id x \<noteq> py_id p" using Cons.prems(1,2) by auto
    then show ?thesis using Cons by simp
  qed
qed simp

text \<open>
  Voiding a receipt does not look at the refunds: it takes the whole receipt off what may still go
  back, so a receipt already refunded can be voided and leaves the family with more money than it paid.
\<close>
theorem void_ignores_refunds:
  assumes "books_ok (tl_books s)" "wallets_ok (tl_books s)" "find_payment (tl_books s) p = Some pay" "py_status pay = ''success''" "py_mode pay \<noteq> ''adjustment''"
    "void_payment po fresh why p (tl_books s) = Inr stmts"
  shows "\<exists>b'. run t stmts (tl_books s) = Some b' \<and> refundable (s\<lparr>tl_books := b'\<rparr>) (py_student pay) = refundable s (py_student pay) - py_amount pay"
proof -
  let ?b = "tl_books s"
  from assms(6) have st: "stmts = [DeleteAllocs p, SetPaymentStatus p ''cancelled''] @ map SyncInvoice (invoices_paid_by ?b p) @ [SyncPayment p]"
    by (auto simp: void_payment_def Let_def split: option.splits if_splits)
  from void_ok [OF assms(1,2,6)] obtain b' where b': "run t stmts ?b = Some b'" by blast
  let ?b1 = "?b\<lparr>bk_allocs := filter (\<lambda>a. al_payment a \<noteq> p) (bk_allocs ?b),
    bk_payments := map (\<lambda>v. if py_id v = p then v\<lparr>py_status := ''cancelled''\<rparr> else v) (bk_payments ?b)\<rparr>"
  have "list_all quiet (map SyncInvoice xs @ [SyncPayment p])" for xs by (induction xs) auto
  moreover have "run t (map SyncInvoice (invoices_paid_by ?b p) @ [SyncPayment p]) ?b1 = Some b'" using b' st by simp
  ultimately have "paid_in b' (py_student pay) = paid_in ?b1 (py_student pay)" by (rule run_quiet_paid)
  also have "\<dots> = paid_in ?b (py_student pay) - py_amount pay"
    using sum_without_one [OF books_okD(2) [OF assms(1)] find_payment_Some(1) [OF assms(3)], of "py_student pay" "''cancelled''"]
      find_payment_Some(2) [OF assms(3)] assms(4,5) by (simp add: paid_in_sum counts_as_def comp_def)
  finally show ?thesis using b' by (simp add: refundable_def)
qed

subsection \<open>Witnesses\<close>

text \<open>A child who paid 1000 rupees: A asks for all of it back, B agrees, C pays it out, and the receipt is voided.\<close>

definition rf_child :: string where
  "rf_child = ''00000001-0000-4000-8000-000000000000''"

definition rf_receipt :: Payment where
  "rf_receipt = \<lparr>py_id = ''p1'', py_student = rf_child, py_amount = 100000, py_allocated = 0, py_mode = ''cash'', py_paid_on = ''2026-06-01'', py_status = ''success''\<rparr>"

definition rf_start_till :: Till where
  "rf_start_till = \<lparr>tl_books = \<lparr>bk_invoices = [], bk_payments = [rf_receipt], bk_allocs = [], bk_wallets = Map.empty, bk_txns = []\<rparr>, tl_refunds = []\<rparr>"

definition rf_request :: RefundReq where
  "rf_request = \<lparr>rq_student = rf_child, rq_amount = Some 100000, rq_reason = ''left'', rq_mode = '''', rq_payment = ''''\<rparr>"

definition rf_row :: "string \<Rightarrow> Refund" where
  "rf_row status = \<lparr>fr_id = ''00000002-0000-4000-8000-000000000000'', fr_student = rf_child, fr_payment = None, fr_amount = 100000, fr_reason = ''left'', fr_mode = None,
     fr_status = status, fr_requested_by = Some ''A'', fr_approved_by = None, fr_processed_by = None, fr_processed_on = None, fr_note = None, fr_reference = None\<rparr>"

definition rf_till :: "Refund \<Rightarrow> Till" where
  "rf_till r = rf_start_till\<lparr>tl_refunds := [r]\<rparr>"

definition rf_agreed :: Refund where
  "rf_agreed = (rf_row ''approved'')\<lparr>fr_approved_by := Some ''B''\<rparr>"

definition rf_paid :: Refund where
  "rf_paid = (rf_row ''processed'')\<lparr>fr_mode := Some ''cash'', fr_approved_by := Some ''B'', fr_processed_by := Some ''C'', fr_processed_on := Some ''2026-06-03''\<rparr>"

lemma rf_uuids: "isUUID rf_child" "isUUID (fr_id (rf_row s))"
  unfolding rf_row_def by code_simp+

lemma rf_paid_in: "refundable rf_start_till rf_child = 100000"
  by code_simp

lemma rf_texts: "js_trim ''left'' = ''left''" "js_trim '''' = ''''" "to_lower (js_trim ''Cash'') = ''cash''" "optStr '''' = None"
  by code_simp+

lemma rf_step_ask: "request_refund (fr_id (rf_row s)) ''A'' rf_request rf_start_till = Inr (rf_till (rf_row ''pending''))"
  using rf_uuids rf_paid_in
  by (simp add: request_refund_def rf_request_def rf_texts rf_till_def rf_row_def rf_start_till_def Let_def)

lemma rf_step_agree: "decide_refund ''B'' ''approved'' '''' (fr_id (rf_row s)) (rf_till (rf_row ''pending'')) = Inr (rf_till rf_agreed)"
  using rf_uuids(2) [of s]
  by (simp add: decide_refund_def rf_texts rf_till_def rf_row_def rf_agreed_def set_refunds_def find_refund_def Let_def)

lemma rf_step_pay: "process_refund ''C'' ''2026-06-03'' ''Cash'' '''' '''' (fr_id (rf_row s)) (rf_till rf_agreed) = Inr (rf_till rf_paid)"
  using rf_uuids(2) [of s]
  by (simp add: process_refund_def rf_texts rf_till_def rf_row_def rf_agreed_def rf_paid_def set_refunds_def find_refund_def Let_def)

lemma rf_books_ok: "books_ok (tl_books rf_start_till)" "wallets_ok (tl_books rf_start_till)" "tl_refunds rf_start_till = []" "tl_books (rf_till r) = tl_books rf_start_till"
  by (simp_all add: rf_start_till_def rf_till_def books_ok_def wallets_ok_def rf_receipt_def spent_of_def wallet_of_def)

lemma refund_needs_two_and_two_witness: "\<exists>s'. till_step\<^sup>*\<^sup>* rf_start_till s' \<and> (\<exists>r u. tl_refunds s' = [r] \<and> fr_processed_by r = Some u \<and> fr_approved_by r \<noteq> Some u)"
proof -
  have "till_step rf_start_till (rf_till (rf_row ''pending''))" by (rule till_step.asked [OF rf_step_ask [of "''''"]]) (simp add: rf_books_ok)
  moreover have "till_step (rf_till (rf_row ''pending'')) (rf_till rf_agreed)" by (rule till_step.decided [OF rf_step_agree])
  moreover have "till_step (rf_till rf_agreed) (rf_till rf_paid)" by (rule till_step.paid_out [OF rf_step_pay])
  ultimately have run: "till_step\<^sup>*\<^sup>* rf_start_till (rf_till rf_paid)" by (meson rtranclp.intros)
  have r: "tl_refunds (rf_till rf_paid) = [rf_paid]" "fr_status rf_paid = ''processed''" by (simp_all add: rf_till_def rf_paid_def rf_row_def)
  from refund_needs_two_and_two [OF run rf_books_ok(3), of rf_paid] r have "\<exists>u. fr_processed_by rf_paid = Some u \<and> fr_approved_by rf_paid \<noteq> Some u" by simp
  with run r(1) show ?thesis by blast
qed


lemma void_ignores_refunds_witness:
  "\<exists>stmts b'. void_payment (\<lambda>_. True) True ''entered twice'' ''p1'' (tl_books (rf_till rf_paid)) = Inr stmts
    \<and> run ''2026-06-04'' stmts (tl_books (rf_till rf_paid)) = Some b' \<and> refundable (rf_till rf_paid\<lparr>tl_books := b'\<rparr>) rf_child = - 100000"
proof -
  have find: "find_payment (tl_books (rf_till rf_paid)) ''p1'' = Some rf_receipt" by (simp add: rf_books_ok(4) rf_start_till_def find_payment_def rf_receipt_def)
  have "length (js_trim ''entered twice'') = 13" by code_simp
  then obtain stmts where void: "void_payment (\<lambda>_. True) True ''entered twice'' ''p1'' (tl_books (rf_till rf_paid)) = Inr stmts"
    using find by (simp add: void_payment_def rf_receipt_def)
  have none: "refundable (rf_till rf_paid) rf_child = 0"
    by code_simp
  have ok: "books_ok (tl_books (rf_till rf_paid))" "wallets_ok (tl_books (rf_till rf_paid))" using rf_books_ok by simp_all
  have "py_status rf_receipt = ''success''" "py_mode rf_receipt \<noteq> ''adjustment''" "py_student rf_receipt = rf_child" "py_amount rf_receipt = 100000"
    by (simp_all add: rf_receipt_def)
  with void_ignores_refunds [OF ok find _ _ void, of "''2026-06-04''"] none void show ?thesis by auto
qed

end
