(* ===== verification/Drafts.thy ===== *)
theory Drafts
  imports SolverProps Bell
begin

text \<open>
  The life of a timetable draft: what the generator is given from the tables and how its answer is
  kept (\<open>generateTimetableDraft\<close> of \<open>worker/src/routes/scheduling/optimizer.ts\<close>), a period placed, moved
  or removed by hand (\<open>master.ts\<close>), the draft published over the live timetable or discarded, and the
  rules the generator reads.  The state is the tables; \<open>timetable_draft_section_slot\<close>,
  \<open>timetable_draft_teacher_slot\<close>, \<open>timetable_section_slot\<close> and the trigger
  \<open>timetable_teacher_slot_i\<close> of \<open>db/tenant.sql\<close> are part of the inserts.  The reach of a caller over
  campuses, the announcements of a publication, timestamps and the screens are left out.
\<close>

subsection \<open>Tables\<close>

record SectionRow =
  sx_id :: string
  sx_year :: string
  sx_class_schedule :: "string option"
  sx_schedule :: "string option"

text \<open>A row of the query for requirements: sections, their classes' subjects and who teaches them, in its order.\<close>

record ReqRow =
  rw_year :: string
  rw_campus :: "string option"
  rw_section :: string
  rw_section_name :: string
  rw_cs :: string
  rw_subject :: string
  rw_per_week :: int
  rw_morning :: bool
  rw_teacher :: string

record StaffRow =
  sf_user :: string
  sf_name :: string
  sf_status :: string

record LoadRule =
  lr_teacher :: string
  lr_day :: int
  lr_week :: int

record UnavRow =
  tu_id :: string
  tu_teacher :: string
  tu_weekday :: int
  tu_period :: "string option"
  tu_reason :: "string option"

record Cell =
  ce_id :: string
  ce_section :: string
  ce_period :: string
  ce_weekday :: int
  ce_subject :: string
  ce_teacher :: "string option"
  ce_room :: "string option"

record Live =
  lv_year :: string
  lv_cell :: Cell

record Draft =
  td_id :: string
  td_year :: string
  td_name :: string
  td_seed :: int
  td_status :: string
  td_required :: int
  td_placed :: int
  td_blocking :: nat
  td_warnings :: nat
  td_hand_edits :: nat
  td_cells :: "Cell list"
  td_issues :: "Issue list"

record School =
  sh_periods :: "BellRow list"
  sh_default :: "string option"
  sh_sections :: "SectionRow list"
  sh_reqs :: "ReqRow list"
  sh_staff :: "StaffRow list"
  sh_rules :: "LoadRule list"
  sh_unavailable :: "UnavRow list"
  sh_live :: "Live list"
  sh_drafts :: "Draft list"

datatype DraftError = Bad string | Not_here | Refuse string

definition TEACHING_WEEKDAYS :: "int list" where
  "TEACHING_WEEKDAYS = [1, 2, 3, 4, 5, 6]"

subsection \<open>What the generator is given\<close>

record DraftReq =
  dq_sections :: "string list"
  dq_year :: string
  dq_campus :: "string option"
  dq_seed :: int
  dq_budget :: int
  dq_name :: string

text \<open>\<open>new Set\<close> keeps the first of equal elements.\<close>

definition first_of_each :: "'a list \<Rightarrow> 'a list" where
  "first_of_each xs = rev (remdups (rev xs))"

definition as_period :: "BellPeriod \<Rightarrow> Period" where
  "as_period p = \<lparr>pd_id = bp_id p, pd_name = bp_name p, pd_sequence = bp_sequence p\<rparr>"

definition teaching_of :: "BellPeriod list \<Rightarrow> BellPeriod list" where
  "teaching_of ps = filter (\<lambda>p. \<not> bp_is_break p) ps"

definition wanted_rows :: "DraftReq \<Rightarrow> string \<Rightarrow> School \<Rightarrow> ReqRow list" where
  "wanted_rows q year s = filter (\<lambda>r. rw_year r = year \<and> 0 < rw_per_week r \<and> (dq_campus q = None \<or> rw_campus r = dq_campus q)
     \<and> (dq_sections q = [] \<or> rw_section r \<in> set (dq_sections q))) (sh_reqs s)"

definition requirement_of :: "ReqRow \<Rightarrow> Requirement" where
  "requirement_of r = \<lparr>rq_sectionId = rw_section r, rq_sectionName = rw_section_name r, rq_classSubjectId = rw_cs r, rq_subjectName = rw_subject r,
     rq_teacherId = rw_teacher r, rq_periodsPerWeek = rw_per_week r, rq_maxPerDay = 0, rq_difficult = rw_morning r\<rparr>"

text \<open>\<open>sectionSchedules\<close>: the bell of each section of a year, where it has one.\<close>

definition runs_to :: "string \<Rightarrow> School \<Rightarrow> string \<Rightarrow> string option" where
  "runs_to year s i =
    (case find (\<lambda>x. sx_id x = i \<and> sx_year x = year) (sh_sections s) of None \<Rightarrow> None
     | Some x \<Rightarrow> (case sectionSchedule (sh_periods s) (sh_default s) (sx_class_schedule x) (sx_schedule x) of
         None \<Rightarrow> None | Some b \<Rightarrow> if b = '''' then None else Some b))"

definition bell_of :: "string \<Rightarrow> School \<Rightarrow> string \<Rightarrow> string option" where
  "bell_of year s i = (case runs_to year s i of Some b \<Rightarrow> Some b | None \<Rightarrow> sh_default s)"

definition bell_periods :: "School \<Rightarrow> string option \<Rightarrow> BellPeriod list" where
  "bell_periods s b = (case map_of (periodsBySchedule (sh_periods s)) (case b of None \<Rightarrow> '''' | Some x \<Rightarrow> x) of None \<Rightarrow> [] | Some l \<Rightarrow> l)"

definition own_bells :: "string \<Rightarrow> School \<Rightarrow> string list \<Rightarrow> bool" where
  "own_bells year s inScope \<longleftrightarrow> list_ex (\<lambda>i. bell_of year s i \<noteq> sh_default s) inScope"

definition used_periods :: "string \<Rightarrow> School \<Rightarrow> string list \<Rightarrow> BellPeriod list" where
  "used_periods year s inScope =
    concat (map (\<lambda>b. teaching_of (bell_periods s (Some b))) (first_of_each (map (\<lambda>i. case bell_of year s i of None \<Rightarrow> '''' | Some b \<Rightarrow> b) inScope)))"

definition max_day :: "School \<Rightarrow> string \<Rightarrow> int" where
  "max_day s u = (case find (\<lambda>r. lr_teacher r = u) (sh_rules s) of None \<Rightarrow> 6 | Some r \<Rightarrow> lr_day r)"

definition max_week :: "School \<Rightarrow> string \<Rightarrow> int" where
  "max_week s u = (case find (\<lambda>r. lr_teacher r = u) (sh_rules s) of None \<Rightarrow> 35 | Some r \<Rightarrow> lr_week r)"

definition unavailable_slots :: "School \<Rightarrow> string \<Rightarrow> Slot list" where
  "unavailable_slots s u =
    concat (map (\<lambda>r. map (\<lambda>p. \<lparr>sl_weekday = tu_weekday r, sl_periodId = br_id p\<rparr>)
        (filter (\<lambda>p. (tu_period r = None \<or> tu_period r = Some (br_id p)) \<and> br_is_break p = 0) (sh_periods s)))
      (filter (\<lambda>r. tu_teacher r = u) (sh_unavailable s)))"

definition committed_slots :: "string \<Rightarrow> School \<Rightarrow> string list \<Rightarrow> string \<Rightarrow> Slot list" where
  "committed_slots year s inScope u =
    map (\<lambda>l. \<lparr>sl_weekday = ce_weekday (lv_cell l), sl_periodId = ce_period (lv_cell l)\<rparr>)
      (filter (\<lambda>l. ce_teacher (lv_cell l) = Some u \<and> lv_year l = year \<and> ce_section (lv_cell l) \<notin> set inScope) (sh_live s))"

text \<open>\<open>loadSolverTeachers\<close>; of two rows for one user the map \<open>at\<close> keeps the later.\<close>

fun load_staff :: "string \<Rightarrow> School \<Rightarrow> string list \<Rightarrow> StaffRow list \<Rightarrow> Teacher list" where
  "load_staff year s inScope [] = []"
| "load_staff year s inScope (r # rs) =
    (let u = sf_user r; own = (u \<notin> sf_user ` set rs) in
     \<lparr>tc_userId = u, tc_name = sf_name r, tc_maxPerDay = max_day s u, tc_maxPerWeek = max_week s u,
      tc_unavailable = (if own then unavailable_slots s u else []), tc_committed = (if own then committed_slots year s inScope u else [])\<rparr>
     # load_staff year s inScope rs)"

definition active_staff :: "School \<Rightarrow> StaffRow list" where
  "active_staff s = sort_key sf_user (filter (\<lambda>r. sf_status r = ''active'' \<or> sf_status r = ''on_leave'') (sh_staff s))"

definition scope_of :: "ReqRow list \<Rightarrow> string list" where
  "scope_of rows = first_of_each (map rw_section rows)"

definition draft_input :: "DraftReq \<Rightarrow> string \<Rightarrow> School \<Rightarrow> DraftError + Input" where
  "draft_input q year s =
    (let day = teaching_of (schoolDayPeriods (sh_periods s) (sh_default s)); rows = wanted_rows q year s; inScope = scope_of rows;
         own = own_bells year s inScope; teaching = used_periods year s inScope in
     if day = [] then Inl (Bad ''no teaching periods'')
     else if rows = [] then Inl (Bad ''no requirement'')
     else Inr \<lparr>in_grid = \<lparr>gr_weekdays = TEACHING_WEEKDAYS, gr_periods = map as_period (if own then sort_key bp_sequence teaching else day)\<rparr>,
        in_requirements = map requirement_of rows, in_teachers = load_staff year s inScope (active_staff s), in_seed = dq_seed q,
        in_retryBudget = dq_budget q,
        in_sectionPeriods = (if own then (\<lambda>i. if i \<in> set inScope then Some (map as_period (teaching_of (bell_periods s (bell_of year s i)))) else None)
          else Map.empty),
        in_overlaps = (if own then crossScheduleOverlaps teaching else Map.empty)\<rparr>)"

subsection \<open>Keeping a draft\<close>

definition same_slot :: "Cell \<Rightarrow> Cell \<Rightarrow> bool" where
  "same_slot x y \<longleftrightarrow> ce_weekday x = ce_weekday y \<and> ce_period x = ce_period y"

text \<open>One row into a draft, under its two unique indexes.\<close>

definition draft_clash :: "Cell \<Rightarrow> Cell list \<Rightarrow> bool" where
  "draft_clash x cells \<longleftrightarrow> list_ex (\<lambda>y. same_slot x y \<and> (ce_section y = ce_section x \<or> (ce_teacher x \<noteq> None \<and> ce_teacher y = ce_teacher x))) cells"

fun insert_cells :: "Cell list \<Rightarrow> Cell list \<Rightarrow> Cell list option" where
  "insert_cells [] cells = Some cells"
| "insert_cells (x # xs) cells = (if draft_clash x cells then None else insert_cells xs (cells @ [x]))"

definition cell_of :: "(Placement \<Rightarrow> string) \<Rightarrow> Placement \<Rightarrow> Cell" where
  "cell_of ids p = \<lparr>ce_id = ids p, ce_section = pl_sectionId p, ce_period = pl_periodId p, ce_weekday = pl_weekday p, ce_subject = pl_classSubjectId p,
     ce_teacher = (if pl_teacherId p = '''' then None else Some (pl_teacherId p)), ce_room = None\<rparr>"

text \<open>\<open>working\<close> is \<open>workingYear\<close>, \<open>made\<close> the name a draft gets when none is given; \<open>ids\<close> the fresh identifiers.\<close>

definition generateTimetableDraft :: "(string \<Rightarrow> bool) \<Rightarrow> (string \<Rightarrow> string option) \<Rightarrow> string \<Rightarrow> string \<Rightarrow> (Placement \<Rightarrow> string) \<Rightarrow> DraftReq \<Rightarrow> School
    \<Rightarrow> DraftError + School" where
  "generateTimetableDraft uuid working made new_id ids q s =
    (if \<not> list_all uuid (dq_sections q) then Inl (Bad ''section_ids must be uuids'')
     else case working (dq_year q) of None \<Rightarrow> Inl (Bad ''no academic year'')
     | Some year \<Rightarrow>
        (case draft_input q year s of Inl e \<Rightarrow> Inl e
         | Inr inp \<Rightarrow>
            let res = generate inp; nm = js_trim (dq_name q) in
            (case insert_cells (map (cell_of ids) (re_placements res)) [] of
               None \<Rightarrow> Inl (Refuse ''UNIQUE constraint failed'')
             | Some cells \<Rightarrow>
                Inr (s\<lparr>sh_drafts := sh_drafts s @ [\<lparr>td_id = new_id, td_year = year, td_name = (if nm = '''' then made else nm), td_seed = dq_seed q,
                  td_status = ''draft'', td_required = re_required res, td_placed = re_placed res,
                  td_blocking = length (filter (\<lambda>i. is_severity i = SEVERITY_BLOCKING) (re_issues res)),
                  td_warnings = length (filter (\<lambda>i. is_severity i \<noteq> SEVERITY_BLOCKING) (re_issues res)),
                  td_hand_edits = 0, td_cells = cells, td_issues = re_issues res\<rparr>]\<rparr>))))"

definition find_draft :: "string \<Rightarrow> School \<Rightarrow> Draft option" where
  "find_draft i s = find (\<lambda>d. td_id d = i) (sh_drafts s)"

definition set_draft :: "string \<Rightarrow> (Draft \<Rightarrow> Draft) \<Rightarrow> School \<Rightarrow> School" where
  "set_draft i f s = s\<lparr>sh_drafts := map (\<lambda>d. if td_id d = i then f d else d) (sh_drafts s)\<rparr>"

subsection \<open>By hand\<close>

text \<open>\<open>SAME_TIME\<close>: the period itself, and the periods of another bell that overlap it; NULL times overlap nothing.\<close>

definition starts_before_end :: "BellRow \<Rightarrow> BellRow \<Rightarrow> bool" where
  "starts_before_end q p = (case (br_starts_at q, br_ends_at p) of (Some a, Some b) \<Rightarrow> a < b | _ \<Rightarrow> False)"

definition same_time :: "BellRow list \<Rightarrow> string \<Rightarrow> string \<Rightarrow> bool" where
  "same_time rows me q \<longleftrightarrow> list_ex (\<lambda>p. br_id p = me \<and> list_ex (\<lambda>r. br_id r = q
     \<and> (br_id r = br_id p \<or> (br_schedule r \<noteq> br_schedule p \<and> starts_before_end r p \<and> starts_before_end p r))) rows) rows"

text \<open>The live entries of the year in sections the draft does not cover.\<close>

definition elsewhere :: "Draft \<Rightarrow> School \<Rightarrow> Cell list" where
  "elsewhere d s = map lv_cell (filter (\<lambda>l. lv_year l = td_year d \<and> ce_section (lv_cell l) \<notin> ce_section ` set (td_cells d)) (sh_live s))"

definition own_bell :: "string \<Rightarrow> string \<Rightarrow> School \<Rightarrow> bool" where
  "own_bell section0 period s =
    (case (find (\<lambda>p. br_id p = period) (sh_periods s), find (\<lambda>x. sx_id x = section0) (sh_sections s)) of
       (Some p, Some x) \<Rightarrow> Some (br_schedule p) = sectionSchedule (sh_periods s) (sh_default s) (sx_class_schedule x) (sx_schedule x)
     | _ \<Rightarrow> False)"

definition is_busy :: "School \<Rightarrow> string \<Rightarrow> int \<Rightarrow> string \<Rightarrow> Cell list \<Rightarrow> bool" where
  "is_busy s teacher weekday period cells \<longleftrightarrow>
    list_ex (\<lambda>y. ce_teacher y = Some teacher \<and> ce_weekday y = weekday \<and> same_time (sh_periods s) period (ce_period y)) cells"

definition load_on :: "string \<Rightarrow> Cell list \<Rightarrow> Cell list" where
  "load_on teacher cells = filter (\<lambda>y. ce_teacher y = Some teacher) cells"

text \<open>What the teacher of a cell is refused for; \<open>known\<close> tells the users.\<close>

definition teacher_fault :: "(string \<Rightarrow> bool) \<Rightarrow> Draft \<Rightarrow> School \<Rightarrow> Cell \<Rightarrow> DraftError option" where
  "teacher_fault known d s x =
    (case ce_teacher x of None \<Rightarrow> None
     | Some t \<Rightarrow>
        let others = filter (\<lambda>y. ce_id y \<noteq> ce_id x) (td_cells d); load = load_on t (others @ elsewhere d s) in
        if is_busy s t (ce_weekday x) (ce_period x) others then Some (Refuse ''teacher_busy'')
        else if is_busy s t (ce_weekday x) (ce_period x) (elsewhere d s) then Some (Refuse ''teacher_busy'')
        else if list_ex (\<lambda>r. tu_teacher r = t \<and> tu_weekday r = ce_weekday x \<and> (tu_period r = None \<or> tu_period r = Some (ce_period x))) (sh_unavailable s)
          then Some (Refuse ''teacher_unavailable'')
        else if \<not> known t then Some Not_here
        else if int (length (filter (\<lambda>y. ce_weekday y = ce_weekday x) load)) + 1 > max_day s t then Some (Refuse ''teacher_day_cap'')
        else if int (length load) + 1 > max_week s t then Some (Refuse ''teacher_week_cap'')
        else None)"

text \<open>
  The checks of \<open>editMasterDraft\<close> on the cell as it is to be; \<open>offered\<close> tells whether a class has a
  subject.  \<open>existing\<close>: the cell is moved, not new.
\<close>

definition cell_fault :: "(string \<Rightarrow> string \<Rightarrow> bool) \<Rightarrow> (string \<Rightarrow> bool) \<Rightarrow> Draft \<Rightarrow> School \<Rightarrow> Cell \<Rightarrow> DraftError option" where
  "cell_fault offered known d s x =
    (if ce_weekday x \<notin> set TEACHING_WEEKDAYS then Some (Bad ''weekday'')
     else if \<not> offered (ce_subject x) (ce_section x) then Some (Bad ''not offered'')
     else case find (\<lambda>p. br_id p = ce_period x) (sh_periods s) of None \<Rightarrow> Some Not_here
     | Some p \<Rightarrow>
        if br_is_break p \<noteq> 0 then Some (Bad ''break'')
        else if \<not> own_bell (ce_section x) (ce_period x) s then Some (Bad ''not in timings'')
        else if list_ex (\<lambda>y. ce_section y = ce_section x \<and> same_slot x y \<and> ce_id y \<noteq> ce_id x) (td_cells d) then Some (Refuse ''section_busy'')
        else teacher_fault known d s x)"

text \<open>What the request asks to change; \<open>None\<close> leaves a field as it is.\<close>

record CellReq =
  cq_section :: string
  cq_subject :: string
  cq_weekday :: "int option"
  cq_period :: "string option"
  cq_teacher :: "string option"
  cq_room :: "string option"

definition textOr :: "string option \<Rightarrow> string option \<Rightarrow> string option" where
  "textOr supplied current = (case supplied of None \<Rightarrow> current | Some v \<Rightarrow> if js_trim v = '''' then None else Some (js_trim v))"

definition changed_cell :: "CellReq \<Rightarrow> Cell \<Rightarrow> Cell" where
  "changed_cell q x = x\<lparr>ce_period := (case cq_period q of None \<Rightarrow> ce_period x | Some p \<Rightarrow> js_trim p),
     ce_weekday := (case cq_weekday q of None \<Rightarrow> ce_weekday x | Some w \<Rightarrow> w),
     ce_teacher := textOr (cq_teacher q) (ce_teacher x), ce_room := textOr (cq_room q) (ce_room x)\<rparr>"

definition bad_cell_req :: "(string \<Rightarrow> bool) \<Rightarrow> bool \<Rightarrow> CellReq \<Rightarrow> bool" where
  "bad_cell_req uuid new q \<longleftrightarrow>
     (new \<and> (\<not> uuid (js_trim (cq_section q)) \<or> \<not> uuid (js_trim (cq_subject q)) \<or> cq_weekday q = None \<or> cq_period q = None))
   \<or> (case cq_period q of None \<Rightarrow> False | Some p \<Rightarrow> \<not> uuid (js_trim p))
   \<or> (case cq_teacher q of None \<Rightarrow> False | Some v \<Rightarrow> js_trim v \<noteq> '''' \<and> \<not> uuid (js_trim v))"

text \<open>The row a hand edit starts from, new or on file.\<close>

definition edited_cell :: "string option \<Rightarrow> string \<Rightarrow> Draft \<Rightarrow> CellReq \<Rightarrow> Cell option" where
  "edited_cell entry new_id d q =
    (case entry of
       None \<Rightarrow> Some \<lparr>ce_id = new_id, ce_section = js_trim (cq_section q), ce_period = '''', ce_weekday = 0, ce_subject = js_trim (cq_subject q),
         ce_teacher = None, ce_room = None\<rparr>
     | Some i \<Rightarrow> find (\<lambda>x. ce_id x = i) (td_cells d))"

definition put_cell :: "Cell \<Rightarrow> Cell list \<Rightarrow> Cell list" where
  "put_cell x cells = (if list_ex (\<lambda>y. ce_id y = ce_id x) cells then map (\<lambda>y. if ce_id y = ce_id x then x else y) cells else cells @ [x])"

definition editMasterDraft :: "(string \<Rightarrow> bool) \<Rightarrow> (string \<Rightarrow> string \<Rightarrow> bool) \<Rightarrow> (string \<Rightarrow> bool) \<Rightarrow> string \<Rightarrow> string option \<Rightarrow> string \<Rightarrow> CellReq \<Rightarrow> School
    \<Rightarrow> DraftError + School" where
  "editMasterDraft uuid offered known draftID entry new_id q s =
    (if \<not> uuid draftID then Inl (Bad ''id'')
     else case find_draft draftID s of None \<Rightarrow> Inl Not_here
     | Some d \<Rightarrow>
        if td_status d \<noteq> ''draft'' then Inl (Refuse ''draft_closed'')
        else case edited_cell entry new_id d q of None \<Rightarrow> Inl Not_here
        | Some x0 \<Rightarrow>
           if bad_cell_req uuid (entry = None) q then Inl (Bad ''request'')
           else let x = changed_cell q x0 in
           (case cell_fault offered known d s x of Some e \<Rightarrow> Inl e
            | None \<Rightarrow>
               if draft_clash x (filter (\<lambda>y. ce_id y \<noteq> ce_id x) (td_cells d)) then Inl (Refuse ''busy'')
               else Inr (set_draft draftID (\<lambda>d. d\<lparr>td_cells := put_cell x (td_cells d), td_hand_edits := td_hand_edits d + 1\<rparr>) s)))"

definition clearMasterDraftPeriod :: "(string \<Rightarrow> bool) \<Rightarrow> string \<Rightarrow> string \<Rightarrow> School \<Rightarrow> DraftError + School" where
  "clearMasterDraftPeriod uuid draftID entryID s =
    (if \<not> uuid draftID \<or> \<not> uuid entryID then Inl (Bad ''id'')
     else case find_draft draftID s of None \<Rightarrow> Inl Not_here
     | Some d \<Rightarrow>
        if td_status d \<noteq> ''draft'' then Inl (Refuse ''draft_closed'')
        else if \<not> list_ex (\<lambda>y. ce_id y = entryID) (td_cells d) then Inl Not_here
        else Inr (set_draft draftID (\<lambda>d. d\<lparr>td_cells := filter (\<lambda>y. ce_id y \<noteq> entryID) (td_cells d), td_hand_edits := td_hand_edits d + 1\<rparr>) s))"

subsection \<open>Publishing\<close>

text \<open>
  One row into the live timetable: a section has one lesson in a slot, and a teacher is not given a
  second lesson of another subject; \<open>subject_of\<close> is the subject of a class's subject.
\<close>

definition live_clash :: "(string \<Rightarrow> string option) \<Rightarrow> Live \<Rightarrow> Live list \<Rightarrow> bool" where
  "live_clash subject_of l ls \<longleftrightarrow>
     list_ex (\<lambda>y. same_slot (lv_cell l) (lv_cell y) \<and> ce_section (lv_cell y) = ce_section (lv_cell l)) ls
   \<or> (ce_teacher (lv_cell l) \<noteq> None \<and> list_ex (\<lambda>y. ce_teacher (lv_cell y) = ce_teacher (lv_cell l) \<and> same_slot (lv_cell l) (lv_cell y) \<and> lv_year y = lv_year l
        \<and> subject_of (ce_subject (lv_cell y)) \<noteq> None \<and> subject_of (ce_subject (lv_cell l)) \<noteq> None
        \<and> subject_of (ce_subject (lv_cell y)) \<noteq> subject_of (ce_subject (lv_cell l))) ls)"

fun insert_live :: "(string \<Rightarrow> string option) \<Rightarrow> Live list \<Rightarrow> Live list \<Rightarrow> Live list option" where
  "insert_live subject_of [] ls = Some ls"
| "insert_live subject_of (x # xs) ls = (if live_clash subject_of x ls then None else insert_live subject_of xs (ls @ [x]))"

text \<open>The rows a publication removes, and the rows it writes; \<open>ids\<close> are the fresh identifiers.\<close>

definition kept_live :: "Draft \<Rightarrow> Live list \<Rightarrow> Live list" where
  "kept_live d ls = filter (\<lambda>l. \<not> (lv_year l = td_year d \<and> ce_section (lv_cell l) \<in> ce_section ` set (td_cells d))) ls"

definition written_live :: "(string \<Rightarrow> string) \<Rightarrow> Draft \<Rightarrow> Live list" where
  "written_live ids d = map (\<lambda>x. \<lparr>lv_year = td_year d, lv_cell = x\<lparr>ce_id := ids (ce_id x)\<rparr>\<rparr>) (td_cells d)"

definition publishTimetableDraft :: "(string \<Rightarrow> bool) \<Rightarrow> (string \<Rightarrow> string option) \<Rightarrow> (string \<Rightarrow> string) \<Rightarrow> string \<Rightarrow> bool option \<Rightarrow> School
    \<Rightarrow> DraftError + School" where
  "publishTimetableDraft uuid subject_of ids draftID acknowledged s =
    (if \<not> uuid draftID then Inl (Bad ''id'')
     else case acknowledged of None \<Rightarrow> Inl (Bad ''malformed JSON body'')
     | Some ack \<Rightarrow>
        (case find_draft draftID s of None \<Rightarrow> Inl Not_here
         | Some d \<Rightarrow>
            if td_status d \<noteq> ''draft'' then Inl (Refuse ''draft_closed'')
            else if 0 < td_blocking d \<and> \<not> ack then Inl (Refuse ''unmet_requirements'')
            else (case insert_live subject_of (written_live ids d) (kept_live d (sh_live s)) of
                    None \<Rightarrow> Inl (Refuse ''grid_moved'')
                  | Some ls \<Rightarrow> Inr (set_draft draftID (\<lambda>d. d\<lparr>td_status := ''published''\<rparr>) (s\<lparr>sh_live := ls\<rparr>)))))"

definition discardTimetableDraft :: "(string \<Rightarrow> bool) \<Rightarrow> string \<Rightarrow> School \<Rightarrow> DraftError + School" where
  "discardTimetableDraft uuid draftID s =
    (if \<not> uuid draftID then Inl (Bad ''id'')
     else if list_ex (\<lambda>d. td_id d = draftID \<and> td_status d = ''draft'') (sh_drafts s)
       then Inr (set_draft draftID (\<lambda>d. if td_status d = ''draft'' then d\<lparr>td_status := ''discarded''\<rparr> else d) s)
       else Inl (Refuse ''draft_closed''))"

subsection \<open>The rules the generator reads\<close>

text \<open>\<open>on_file\<close> tells the class subjects there are, also those of a class without sections.\<close>

definition saveSubjectRequirement :: "(string \<Rightarrow> bool) \<Rightarrow> (string \<Rightarrow> bool) \<Rightarrow> string \<Rightarrow> int \<Rightarrow> bool \<Rightarrow> School \<Rightarrow> DraftError + School" where
  "saveSubjectRequirement uuid on_file cs0 per morning s =
    (let cs = js_trim cs0 in
     if \<not> uuid cs then Inl (Bad ''class_subject_id'')
     else if per < 0 \<or> 60 < per then Inl (Bad ''periods_per_week'')
     else if \<not> on_file cs then Inl Not_here
     else Inr (s\<lparr>sh_reqs := map (\<lambda>r. if rw_cs r = cs then r\<lparr>rw_per_week := per, rw_morning := morning\<rparr> else r) (sh_reqs s)\<rparr>))"

definition saveTeacherLoadRule :: "(string \<Rightarrow> bool) \<Rightarrow> string \<Rightarrow> int \<Rightarrow> int \<Rightarrow> School \<Rightarrow> DraftError + School" where
  "saveTeacherLoadRule uuid user0 perDay perWeek s =
    (let u = js_trim user0 in
     if \<not> uuid u then Inl (Bad ''teacher_user_id'')
     else if perDay < 1 \<or> 20 < perDay then Inl (Bad ''max_periods_per_day'')
     else if perWeek < perDay \<or> 80 < perWeek then Inl (Bad ''max_periods_per_week'')
     else if list_ex (\<lambda>r. lr_teacher r = u) (sh_rules s)
       then Inr (s\<lparr>sh_rules := map (\<lambda>r. if lr_teacher r = u then r\<lparr>lr_day := perDay, lr_week := perWeek\<rparr> else r) (sh_rules s)\<rparr>)
       else Inr (s\<lparr>sh_rules := sh_rules s @ [\<lparr>lr_teacher = u, lr_day = perDay, lr_week = perWeek\<rparr>]\<rparr>))"

definition null_string :: "string \<Rightarrow> string option" where
  "null_string v = (if js_trim v = '''' then None else Some (js_trim v))"

definition saveTeacherUnavailability :: "(string \<Rightarrow> bool) \<Rightarrow> string \<Rightarrow> string \<Rightarrow> int \<Rightarrow> string \<Rightarrow> string \<Rightarrow> School \<Rightarrow> DraftError + School" where
  "saveTeacherUnavailability uuid new_id user0 weekday period0 reason0 s =
    (let u = js_trim user0; period = null_string period0; p = (\<lambda>r. tu_teacher r = u \<and> tu_weekday r = weekday \<and> tu_period r = period) in
     if \<not> uuid u then Inl (Bad ''teacher_user_id'')
     else if weekday < 1 \<or> 7 < weekday then Inl (Bad ''weekday'')
     else case find p (sh_unavailable s) of
       Some e \<Rightarrow> Inr (s\<lparr>sh_unavailable := map (\<lambda>r. if tu_id r = tu_id e then r\<lparr>tu_reason := null_string reason0\<rparr> else r) (sh_unavailable s)\<rparr>)
     | None \<Rightarrow> Inr (s\<lparr>sh_unavailable := sh_unavailable s @ [\<lparr>tu_id = new_id, tu_teacher = u, tu_weekday = weekday, tu_period = period,
                  tu_reason = null_string reason0\<rparr>]\<rparr>))"

definition deleteTeacherUnavailability :: "(string \<Rightarrow> bool) \<Rightarrow> string \<Rightarrow> School \<Rightarrow> DraftError + School" where
  "deleteTeacherUnavailability uuid i s =
    (if \<not> uuid i then Inl (Bad ''id'') else Inr (s\<lparr>sh_unavailable := filter (\<lambda>r. tu_id r \<noteq> i) (sh_unavailable s)\<rparr>))"

end
