(* ===== verification/DraftProps.thy ===== *)
theory DraftProps
  imports Drafts Contracts
begin

text \<open>
  What the drafts of a timetable keep, over any sequence of generating, editing by hand, clearing,
  publishing, discarding and changing the rules.  The generator's guarantee about overlapping bells
  (\<open>SolverProps\<close>, over the contract \<open>time_overlap\<close>) and the check of the hand edits (\<open>SAME_TIME\<close>)
  meet here: they are shown to speak of the same overlaps.
\<close>

subsection \<open>The desk: every operation as a step\<close>

inductive desk :: "School \<Rightarrow> School \<Rightarrow> bool" where
  generated: "generateTimetableDraft uuid working made i ids q s = Inr s' \<Longrightarrow> i \<notin> td_id ` set (sh_drafts s) \<Longrightarrow> desk s s'"
| edited: "editMasterDraft uuid offered known i entry n cq s = Inr s' \<Longrightarrow> desk s s'"
| cleared: "clearMasterDraftPeriod uuid i entryID s = Inr s' \<Longrightarrow> desk s s'"
| published: "publishTimetableDraft uuid subject_of new i ack s = Inr s' \<Longrightarrow> desk s s'"
| discarded: "discardTimetableDraft uuid i s = Inr s' \<Longrightarrow> desk s s'"
| requirement_saved: "saveSubjectRequirement uuid on_file cs per morning s = Inr s' \<Longrightarrow> desk s s'"
| load_saved: "saveTeacherLoadRule uuid u perDay perWeek s = Inr s' \<Longrightarrow> desk s s'"
| absence_saved: "saveTeacherUnavailability uuid n u weekday period reason s = Inr s' \<Longrightarrow> desk s s'"
| absence_deleted: "deleteTeacherUnavailability uuid i s = Inr s' \<Longrightarrow> desk s s'"

subsection \<open>What each operation returns when it succeeds\<close>

lemma generated_result:
  assumes "generateTimetableDraft uuid working made i ids q s = Inr s'"
  obtains year inp cells d where "working (dq_year q) = Some year" "draft_input q year s = Inr inp"
    "insert_cells (map (cell_of ids) (re_placements (generate inp))) [] = Some cells"
    "s' = s\<lparr>sh_drafts := sh_drafts s @ [d]\<rparr>" "td_id d = i" "td_cells d = cells" "td_status d = ''draft''" "td_year d = year"
  using assms
  by (auto simp: generateTimetableDraft_def Let_def split: if_splits option.splits sum.splits)

lemma edited_result:
  assumes "editMasterDraft uuid offered known i entry n q s = Inr s'"
  obtains d x where "find_draft i s = Some d" "td_status d = ''draft''" "cell_fault offered known d s x = None"
    "\<not> draft_clash x (filter (\<lambda>y. ce_id y \<noteq> ce_id x) (td_cells d))" "\<exists>x0. edited_cell entry n d q = Some x0 \<and> x = changed_cell q x0"
    "s' = set_draft i (\<lambda>d. d\<lparr>td_cells := put_cell x (td_cells d), td_hand_edits := td_hand_edits d + 1\<rparr>) s"
  using assms
  by (auto simp: editMasterDraft_def Let_def split: if_splits option.splits)

lemma cleared_result:
  assumes "clearMasterDraftPeriod uuid i e s = Inr s'"
  obtains d where "find_draft i s = Some d" "td_status d = ''draft''"
    "s' = set_draft i (\<lambda>d. d\<lparr>td_cells := filter (\<lambda>y. ce_id y \<noteq> e) (td_cells d), td_hand_edits := td_hand_edits d + 1\<rparr>) s"
  using assms
  by (auto simp: clearMasterDraftPeriod_def split: if_splits option.splits)

lemma published_result:
  assumes "publishTimetableDraft uuid subject_of new i ack s = Inr s'"
  obtains d ls where "find_draft i s = Some d" "td_status d = ''draft''" "td_blocking d = 0 \<or> ack = Some True"
    "insert_live subject_of (written_live new d) (kept_live d (sh_live s)) = Some ls"
    "s' = set_draft i (\<lambda>d. d\<lparr>td_status := ''published''\<rparr>) (s\<lparr>sh_live := ls\<rparr>)"
  using assms
  by (auto simp: publishTimetableDraft_def split: if_splits option.splits)

lemma discarded_result:
  assumes "discardTimetableDraft uuid i s = Inr s'"
  shows "s' = set_draft i (\<lambda>d. if td_status d = ''draft'' then d\<lparr>td_status := ''discarded''\<rparr> else d) s"
  using assms by (auto simp: discardTimetableDraft_def split: if_splits)

lemmas results = generated_result edited_result cleared_result published_result

lemma requirement_result:
  "saveSubjectRequirement uuid on_file cs per morning s = Inr s' \<Longrightarrow> 0 \<le> per \<and> per \<le> 60
     \<and> s' = s\<lparr>sh_reqs := map (\<lambda>r. if rw_cs r = js_trim cs then r\<lparr>rw_per_week := per, rw_morning := morning\<rparr> else r) (sh_reqs s)\<rparr>"
  by (auto simp: saveSubjectRequirement_def Let_def split: if_splits)

lemma load_result:
  "saveTeacherLoadRule uuid u day week s = Inr s' \<Longrightarrow> 1 \<le> day \<and> day \<le> 20 \<and> day \<le> week \<and> week \<le> 80 \<and> (\<exists>rs. s' = s\<lparr>sh_rules := rs\<rparr>
     \<and> rs = (if list_ex (\<lambda>r. lr_teacher r = js_trim u) (sh_rules s)
         then map (\<lambda>r. if lr_teacher r = js_trim u then r\<lparr>lr_day := day, lr_week := week\<rparr> else r) (sh_rules s)
         else sh_rules s @ [\<lparr>lr_teacher = js_trim u, lr_day = day, lr_week = week\<rparr>]))"
  by (auto simp: saveTeacherLoadRule_def Let_def split: if_splits)

lemma absence_result:
  assumes "saveTeacherUnavailability uuid n u wd p reason s = Inr s'"
  shows "1 \<le> wd \<and> wd \<le> 7 \<and> tu_weekday ` set (sh_unavailable s') \<subseteq> insert wd (tu_weekday ` set (sh_unavailable s))"
proof -
  have "tu_weekday ` set (map (\<lambda>r. if c r then r\<lparr>tu_reason := v\<rparr> else r) us) = tu_weekday ` set us" for c v us
    by (induction us) auto
  with assms show ?thesis
    by (auto simp: saveTeacherUnavailability_def Let_def split: if_splits option.splits)
qed

lemma absence_deleted_result:
  "deleteTeacherUnavailability uuid i s = Inr s' \<Longrightarrow> s' = s\<lparr>sh_unavailable := filter (\<lambda>r. tu_id r \<noteq> i) (sh_unavailable s)\<rparr>"
  by (auto simp: deleteTeacherUnavailability_def split: if_splits)

lemma set_draft_fields [simp]:
  "sh_periods (set_draft i f s) = sh_periods s" "sh_default (set_draft i f s) = sh_default s" "sh_sections (set_draft i f s) = sh_sections s"
  "sh_reqs (set_draft i f s) = sh_reqs s" "sh_staff (set_draft i f s) = sh_staff s" "sh_rules (set_draft i f s) = sh_rules s"
  "sh_unavailable (set_draft i f s) = sh_unavailable s" "sh_live (set_draft i f s) = sh_live s"
  "sh_drafts (set_draft i f s) = map (\<lambda>d. if td_id d = i then f d else d) (sh_drafts s)"
  by (simp_all add: set_draft_def)

lemma find_draft_Some: "find_draft i s = Some d \<Longrightarrow> d \<in> set (sh_drafts s) \<and> td_id d = i"
  by (auto simp: find_draft_def find_Some_iff)

subsection \<open>What never changes\<close>

definition same_frame :: "School \<Rightarrow> School \<Rightarrow> bool" where
  "same_frame s s' \<longleftrightarrow> sh_periods s' = sh_periods s \<and> sh_default s' = sh_default s \<and> sh_sections s' = sh_sections s \<and> sh_staff s' = sh_staff s
     \<and> map (\<lambda>r. (rw_section r, rw_teacher r)) (sh_reqs s') = map (\<lambda>r. (rw_section r, rw_teacher r)) (sh_reqs s)"

lemma absence_frame:
  "saveTeacherUnavailability uuid n u wd p reason s = Inr s' \<Longrightarrow> same_frame s s' \<and> sh_drafts s' = sh_drafts s \<and> sh_live s' = sh_live s
     \<and> sh_rules s' = sh_rules s \<and> sh_reqs s' = sh_reqs s"
  by (auto simp: saveTeacherUnavailability_def Let_def same_frame_def split: if_splits option.splits)

lemma desk_frame: "desk s s' \<Longrightarrow> same_frame s s'"
proof (induction rule: desk.induct)
  case (generated uuid working made i ids q s s')
  from generated(1) show ?case by (elim generated_result) (simp add: same_frame_def)
next
  case (edited uuid offered known i entry n cq s s')
  then show ?case by (elim edited_result) (simp add: same_frame_def)
next
  case (cleared uuid i entryID s s')
  then show ?case by (elim cleared_result) (simp add: same_frame_def)
next
  case (published uuid subject_of new i ack s s')
  then show ?case by (elim published_result) (simp add: same_frame_def)
next
  case (discarded uuid i s s')
  then show ?case by (auto dest!: discarded_result simp: same_frame_def)
next
  case (requirement_saved uuid on_file cs per morning s s')
  then show ?case by (auto dest!: requirement_result simp: same_frame_def)
next
  case (load_saved uuid u perDay perWeek s s')
  then show ?case by (auto dest!: load_result simp: same_frame_def)
next
  case (absence_saved uuid n u weekday period reason s s')
  then show ?case by (simp add: absence_frame)
next
  case (absence_deleted uuid i s s')
  then show ?case by (auto dest!: absence_deleted_result simp: same_frame_def)
qed

subsection \<open>One bell and another: the generator's overlaps are the hand edit's\<close>

definition clocked :: "string option \<Rightarrow> bool" where
  "clocked t \<longleftrightarrow> (case t of None \<Rightarrow> False | Some x \<Rightarrow> length x = 5)"

definition timed :: "School \<Rightarrow> bool" where
  "timed s \<longleftrightarrow> distinct (map br_id (sh_periods s)) \<and> sh_default s \<noteq> None \<and> sh_default s \<noteq> Some ''''
     \<and> list_all (\<lambda>p. clocked (br_starts_at p) \<and> clocked (br_ends_at p)) (sh_periods s)"

definition staffed :: "School \<Rightarrow> bool" where
  "staffed s \<longleftrightarrow> list_all (\<lambda>r. rw_section r \<noteq> '''' \<and> CHR ''|'' \<notin> set (rw_section r)
       \<and> (rw_teacher r = '''' \<or> rw_teacher r \<in> sf_user ` set (active_staff s))) (sh_reqs s)
     \<and> list_all (\<lambda>u. CHR ''|'' \<notin> set (sf_user u)) (sh_staff s)"

lemma shape_fields [simp]: "bp_id (shape p) = br_id p" "bp_schedule (shape p) = br_schedule p"
  by (simp_all add: shape_def)

lemma clocked_take: "clocked t \<Longrightarrow> t = Some (take 5 (case t of None \<Rightarrow> '''' | Some x \<Rightarrow> x))"
  by (auto simp: clocked_def split: option.splits)

lemma timed_shape:
  assumes "timed s" "p \<in> set (sh_periods s)"
  shows "br_starts_at p = Some (bp_starts_at (shape p))" "br_ends_at p = Some (bp_ends_at (shape p))"
  using assms by (simp_all add: timed_def shape_def list_all_iff clocked_take [symmetric])

lemma timed_row_unique: "timed s \<Longrightarrow> p \<in> set (sh_periods s) \<Longrightarrow> q \<in> set (sh_periods s) \<Longrightarrow> br_id p = br_id q \<Longrightarrow> p = q"
  by (auto simp: timed_def distinct_map inj_on_def)

lemma same_time_iff:
  assumes "timed s" "p \<in> set (sh_periods s)" "q \<in> set (sh_periods s)"
  shows "same_time (sh_periods s) (br_id p) (br_id q) \<longleftrightarrow> br_id p = br_id q \<or> (br_schedule p \<noteq> br_schedule q
     \<and> bp_starts_at (shape q) < bp_ends_at (shape p) \<and> bp_starts_at (shape p) < bp_ends_at (shape q))"
proof -
  have row: "r \<in> set (sh_periods s) \<and> br_id r = br_id p' \<longleftrightarrow> r = p'" if "p' \<in> set (sh_periods s)" for r p'
    using timed_row_unique [OF assms(1) _ that] that by blast
  have ex: "list_ex (\<lambda>r. br_id r = br_id p' \<and> P r) (sh_periods s) \<longleftrightarrow> P p'" if "p' \<in> set (sh_periods s)" for p' P
    unfolding list_ex_iff using row [OF that] by metis
  show ?thesis
    unfolding same_time_def ex [OF assms(2)] ex [OF assms(3)] starts_before_end_def
    by (auto simp: timed_shape [OF assms(1,2)] timed_shape [OF assms(1,3)])
qed

lemma same_time_sym: "same_time rows a b \<Longrightarrow> same_time rows b a"
  unfolding same_time_def list_ex_iff by metis

lemma set_bell_periods:
  "set (bell_periods s b) = shape ` {p \<in> set (sh_periods s). br_schedule p = (case b of None \<Rightarrow> '''' | Some x \<Rightarrow> x)}"
  by (auto simp: bell_periods_def periodsBySchedule_groups set_allPeriods)

text \<open>
  The periods the generator is given, as one list: the bells in use, or the school day.
\<close>
lemma used_periods_distinct:
  assumes "timed s"
  shows "distinct (map bp_id (used_periods year s inScope))"
proof -
  have sorted: "distinct (map f (sort_key k xs)) = distinct (map f xs)" for f k and xs :: "BellPeriod list"
    by (simp add: distinct_map)
  have "distinct (map bp_id (allPeriods (sh_periods s)))"
    using assms by (simp add: allPeriods_def timed_def distinct_map comp_def inj_on_def)
  then have one: "distinct (map bp_id (bell_periods s b))" for b
    by (simp add: bell_periods_def periodsBySchedule_groups sorted distinct_map_filter)
  have apart: "False" if "p \<in> set (teaching_of (bell_periods s (Some b)))" "q \<in> set (teaching_of (bell_periods s (Some b')))"
      "b \<noteq> b'" "bp_id p = bp_id q" for p q b b'
  proof -
    from that(1,2) obtain x y where xy: "x \<in> set (sh_periods s)" "p = shape x" "br_schedule x = b"
      "y \<in> set (sh_periods s)" "q = shape y" "br_schedule y = b'" by (auto simp: teaching_of_def set_bell_periods)
    with that(4) timed_row_unique [OF assms xy(1,4)] have "x = y" by simp
    with xy(3,6) that(3) show False by simp
  qed
  have "distinct (map bp_id (concat (map (\<lambda>b. teaching_of (bell_periods s (Some b))) bs)))" if "distinct bs" for bs
    using that
  proof (induction bs)
    case (Cons b bs)
    have "bp_id ` set (teaching_of (bell_periods s (Some b))) \<inter> bp_id ` set (concat (map (\<lambda>b. teaching_of (bell_periods s (Some b))) bs)) = {}"
    proof (rule ccontr)
      assume "\<not> ?thesis"
      then obtain p q b' where "p \<in> set (teaching_of (bell_periods s (Some b)))" "b' \<in> set bs"
        "q \<in> set (teaching_of (bell_periods s (Some b')))" "bp_id p = bp_id q" by (auto 0 3)
      with apart [of p b q b'] Cons.prems show False by auto
    qed
    moreover have "distinct (map bp_id (teaching_of (bell_periods s (Some b))))" by (simp add: teaching_of_def distinct_map_filter one)
    ultimately show ?case using Cons by (simp add: comp_def)
  qed simp
  then show ?thesis unfolding used_periods_def by (simp add: first_of_each_def)
qed

lemma set_first_of_each [simp]: "set (first_of_each xs) = set xs"
  by (simp add: first_of_each_def)

lemma used_periods_iff:
  "p \<in> set (used_periods year s inScope) \<longleftrightarrow> (\<exists>i\<in>set inScope. p \<in> set (teaching_of (bell_periods s (bell_of year s i))))"
  by (auto simp: used_periods_def bell_periods_def split: option.splits)

lemma draft_input_result:
  assumes "draft_input q year s = Inr inp"
  defines "rows \<equiv> wanted_rows q year s"
  shows "in_requirements inp = map requirement_of rows" "in_teachers inp = load_staff year s (scope_of rows) (active_staff s)"
    "gr_weekdays (in_grid inp) = TEACHING_WEEKDAYS"
    "own_bells year s (scope_of rows) \<Longrightarrow> i \<in> set (scope_of rows) \<Longrightarrow>
       periods_of_section inp i = map as_period (teaching_of (bell_periods s (bell_of year s i)))"
    "own_bells year s (scope_of rows) \<Longrightarrow> in_overlaps inp = crossScheduleOverlaps (used_periods year s (scope_of rows))"
    "\<not> own_bells year s (scope_of rows) \<Longrightarrow> periods_of_section inp i = map as_period (teaching_of (schoolDayPeriods (sh_periods s) (sh_default s)))"
    "\<not> own_bells year s (scope_of rows) \<Longrightarrow> in_overlaps inp = Map.empty"
  using assms by (auto simp: draft_input_def Let_def periods_of_section_def split: if_splits)

lemma load_staff_users: "tc_userId ` set (load_staff year s inScope rs) = sf_user ` set rs"
  by (induction rs) (auto simp: Let_def)

lemma scope_of_iff: "i \<in> set (scope_of rows) \<longleftrightarrow> (\<exists>r\<in>set rows. i = rw_section r)"
  by (auto simp: scope_of_def)

lemma input_overlaps_cases: "input_overlaps inp = overlap_or_self (in_overlaps inp)"
  by (simp add: input_overlaps_def overlap_or_self_def fun_eq_iff)

lemma draft_wf:
  assumes "timed s" "staffed s" "draft_input q year s = Inr inp"
  shows "wf_input inp"
proof -
  note r = draft_input_result [OF assms(3)]
  have "time_overlap (input_overlaps inp)"
  proof (cases "own_bells year s (scope_of (wanted_rows q year s))")
    case True
    then show ?thesis by (simp add: input_overlaps_cases r(5) cross_time_overlap used_periods_distinct [OF assms(1)])
  next
    case False
    then have "input_overlaps inp = (\<lambda>p. [p])" by (simp add: input_overlaps_cases r(7) overlap_or_self_def fun_eq_iff)
    then show ?thesis by (simp add: one_bell.time_overlap_axioms)
  qed
  moreover have "CHR ''|'' \<notin> set (tc_userId t)" if t: "t \<in> set (in_teachers inp)" for t
  proof -
    from t have "tc_userId t \<in> sf_user ` set (active_staff s)" by (metis load_staff_users r(2) imageI)
    then obtain u where "u \<in> set (sh_staff s)" "tc_userId t = sf_user u" by (auto simp: active_staff_def)
    with assms(2) show ?thesis by (simp add: staffed_def list_all_iff)
  qed
  moreover have "rq_sectionId x \<noteq> '''' \<and> CHR ''|'' \<notin> set (rq_sectionId x) \<and> (rq_teacherId x \<noteq> '''' \<longrightarrow> rq_teacherId x \<in> tc_userId ` set (in_teachers inp))"
    if x: "x \<in> set (in_requirements inp)" for x
  proof -
    from x obtain y where "y \<in> set (sh_reqs s)" "x = requirement_of y" by (auto simp: r(1) wanted_rows_def)
    with assms(2) show ?thesis by (auto simp: staffed_def list_all_iff requirement_of_def r(2) load_staff_users)
  qed
  ultimately show ?thesis unfolding wf_input_def by blast
qed

text \<open>
  Where two placements are at the same time for the hand edits, the generator was told that they overlap.
\<close>
lemma draft_overlap:
  assumes "timed s" "draft_input q year s = Inr inp" "r \<in> set (in_requirements inp)" "r' \<in> set (in_requirements inp)"
    "a \<in> pd_id ` set (periods_of_section inp (rq_sectionId r))" "b \<in> pd_id ` set (periods_of_section inp (rq_sectionId r'))"
    "same_time (sh_periods s) a b"
  shows "b \<in> set (input_overlaps inp a)"
proof (cases "own_bells year s (scope_of (wanted_rows q year s))")
  case True
  note res = draft_input_result [OF assms(2)]
  let ?ps = "used_periods year s (scope_of (wanted_rows q year s))"
  have used: "\<exists>p\<in>set ?ps. x = bp_id p"
    if "r \<in> set (in_requirements inp)" "x \<in> pd_id ` set (periods_of_section inp (rq_sectionId r))" for r x
  proof -
    from that(1) have i: "rq_sectionId r \<in> set (scope_of (wanted_rows q year s))"
      by (auto simp: res(1) scope_of_iff requirement_of_def)
    from that(2) obtain p where "p \<in> set (teaching_of (bell_periods s (bell_of year s (rq_sectionId r))))" "x = bp_id p"
      by (auto simp: res(4) [OF True i] as_period_def)
    with i show ?thesis by (intro bexI [of _ p]) (auto simp: used_periods_iff)
  qed
  from used [OF assms(3,5)] used [OF assms(4,6)] obtain p p' where p: "p \<in> set ?ps" "a = bp_id p" "p' \<in> set ?ps" "b = bp_id p'" by blast
  then obtain x y where xy: "x \<in> set (sh_periods s)" "p = shape x" "y \<in> set (sh_periods s)" "p' = shape y"
    by (auto simp: used_periods_iff teaching_of_def set_bell_periods)
  note o = cross_time_overlap [OF used_periods_distinct [OF assms(1), of year "scope_of (wanted_rows q year s)"]]
  from assms(7) same_time_iff [OF assms(1) xy(1,3)] p(2,4) xy(2,4)
  consider "a = b" | "bp_schedule p \<noteq> bp_schedule p'" "bp_starts_at p' < bp_ends_at p" "bp_starts_at p < bp_ends_at p'" by auto
  then show ?thesis
  proof cases
    case 1
    with o show ?thesis by (simp add: input_overlaps_cases res(5) [OF True] time_overlap.ov_refl)
  next
    case 2
    with overlaps_are_clock_overlaps_parts(1) [OF used_periods_distinct [OF assms(1)] p(1,3) 2(1)] p(2,4) show ?thesis
      by (simp add: input_overlaps_cases res(5) [OF True])
  qed
next
  case False
  note res = draft_input_result [OF assms(2)]
  have day: "\<exists>x\<in>set (sh_periods s). Some (br_schedule x) = sh_default s \<and> u = br_id x"
    if "u \<in> pd_id ` set (periods_of_section inp i)" for u i
    using that assms(1) False
    by (auto simp: res(6) as_period_def teaching_of_def schoolDayPeriods_def periodsOfSchedule_def timed_def split: option.splits)
  from day [OF assms(5)] day [OF assms(6)] obtain x y where xy: "x \<in> set (sh_periods s)" "a = br_id x" "y \<in> set (sh_periods s)" "b = br_id y"
    "br_schedule x = br_schedule y" by (metis option.inject)
  with assms(7) same_time_iff [OF assms(1) xy(1,3)] have "a = b" by simp
  with False show ?thesis by (simp add: input_overlaps_cases res(7) overlap_or_self_def)
qed

subsection \<open>No teacher in two places, whoever placed the lesson\<close>

definition meets :: "BellRow list \<Rightarrow> Cell \<Rightarrow> Cell \<Rightarrow> bool" where
  "meets rows x y \<longleftrightarrow> ce_teacher x \<noteq> None \<and> ce_teacher x = ce_teacher y \<and> ce_weekday x = ce_weekday y \<and> same_time rows (ce_period x) (ce_period y)"

definition apart_cells :: "BellRow list \<Rightarrow> Cell list \<Rightarrow> bool" where
  "apart_cells rows cells \<longleftrightarrow> (\<forall>x\<in>set cells. \<forall>y\<in>set cells. x \<noteq> y \<longrightarrow> \<not> meets rows x y)"

lemma meets_sym: "meets rows x y \<Longrightarrow> meets rows y x"
  by (auto simp: meets_def same_time_sym)

lemma apart_cells_subset: "apart_cells rows cells \<Longrightarrow> set cells' \<subseteq> set cells \<Longrightarrow> apart_cells rows cells'"
  unfolding apart_cells_def by blast

lemma insert_cells_all: "insert_cells xs cells = Some cs \<Longrightarrow> cs = cells @ xs"
  by (induction xs cells rule: insert_cells.induct) (auto split: if_splits)

lemma generated_apart:
  assumes "timed s" "staffed s" "draft_input q year s = Inr inp"
  shows "apart_cells (sh_periods s) (map (cell_of ids) (re_placements (generate inp)))"
  unfolding apart_cells_def
proof (intro ballI impI notI)
  fix x y assume "x \<in> set (map (cell_of ids) (re_placements (generate inp)))" "y \<in> set (map (cell_of ids) (re_placements (generate inp)))"
    and ne: "x \<noteq> y" and m: "meets (sh_periods s) x y"
  then obtain p p' where p: "p \<in> set (re_placements (generate inp))" "p' \<in> set (re_placements (generate inp))" "x = cell_of ids p" "y = cell_of ids p'"
    by auto
  note wf = draft_wf [OF assms]
  note at_p = placements_in_timetable_parts [OF wf p(1)] and at_p' = placements_in_timetable_parts [OF wf p(2)]
  from at_p(3) at_p'(3) obtain r r' where r: "r \<in> set (in_requirements inp)" "rq_sectionId r = pl_sectionId p"
    "r' \<in> set (in_requirements inp)" "rq_sectionId r' = pl_sectionId p'" by blast
  have "p \<noteq> p'" "pl_teacherId p = pl_teacherId p'" "pl_teacherId p \<noteq> ''''" "pl_weekday p = pl_weekday p'"
    "same_time (sh_periods s) (pl_periodId p) (pl_periodId p')"
    using ne m by (auto simp: p(3,4) meets_def cell_of_def split: if_splits)
  with teacher_apart [OF wf p(1,2)] draft_overlap [OF assms(1,3) r(1,3), of "pl_periodId p" "pl_periodId p'"] at_p(2) at_p'(2)
  show False by (simp add: r(2,4))
qed

lemma set_put_cell: "set (put_cell x cells) = insert x {y \<in> set cells. ce_id y \<noteq> ce_id x}"
  by (auto simp: put_cell_def list_ex_iff split: if_splits)

lemma teacher_free:
  assumes "cell_fault offered known d s x = None" "y \<in> set (td_cells d)" "ce_id y \<noteq> ce_id x"
  shows "\<not> meets (sh_periods s) x y"
  using assms by (auto simp: cell_fault_def teacher_fault_def is_busy_def list_ex_iff meets_def Let_def split: if_splits option.splits)

lemma put_cell_apart:
  assumes "cell_fault offered known d s x = None" "apart_cells (sh_periods s) (td_cells d)"
  shows "apart_cells (sh_periods s) (put_cell x (td_cells d))"
  using assms(2) teacher_free [OF assms(1)] meets_sym
  unfolding apart_cells_def set_put_cell by blast

definition drafts_apart :: "School \<Rightarrow> bool" where
  "drafts_apart s \<longleftrightarrow> distinct (map td_id (sh_drafts s)) \<and> (\<forall>d\<in>set (sh_drafts s). apart_cells (sh_periods s) (td_cells d))"

lemma set_draft_apart:
  assumes "drafts_apart s" "\<And>d. td_id (f d) = td_id d"
    "\<And>d. d \<in> set (sh_drafts s) \<Longrightarrow> td_id d = i \<Longrightarrow> apart_cells (sh_periods s) (td_cells d) \<Longrightarrow> apart_cells (sh_periods s) (td_cells (f d))"
  shows "drafts_apart (set_draft i f s)"
proof -
  have "map td_id (map (\<lambda>d. if td_id d = i then f d else d) ds) = map td_id ds" for ds
    by (simp add: assms(2))
  with assms(1,3) show ?thesis by (auto simp: drafts_apart_def simp del: map_map)
qed

lemma the_draft: "drafts_apart s \<Longrightarrow> find_draft i s = Some d \<Longrightarrow> d' \<in> set (sh_drafts s) \<Longrightarrow> td_id d' = i \<Longrightarrow> d' = d"
  using find_draft_Some [of i s d] by (auto simp: drafts_apart_def distinct_map inj_on_def)

lemma desk_apart:
  "desk s s' \<Longrightarrow> timed s \<Longrightarrow> staffed s \<Longrightarrow> drafts_apart s \<Longrightarrow> drafts_apart s'"
proof (induction rule: desk.induct)
  case (generated uuid working made i ids q s s')
  from generated(1) show ?case
  proof (rule generated_result)
    fix year inp cells d
    assume *: "draft_input q year s = Inr inp" "insert_cells (map (cell_of ids) (re_placements (generate inp))) [] = Some cells"
      "s' = s\<lparr>sh_drafts := sh_drafts s @ [d]\<rparr>" "td_id d = i" "td_cells d = cells"
    from generated_apart [OF generated(3,4) *(1)] insert_cells_all [OF *(2)] have "apart_cells (sh_periods s) (td_cells d)"
      by (simp add: *(5))
    with generated(2,5) show ?case by (auto simp: drafts_apart_def *(3,4))
  qed
next
  case (edited uuid offered known i entry n cq s s')
  from edited(1) show ?case
  proof (rule edited_result)
    fix d x assume *: "find_draft i s = Some d" "cell_fault offered known d s x = None"
      "s' = set_draft i (\<lambda>d. d\<lparr>td_cells := put_cell x (td_cells d), td_hand_edits := td_hand_edits d + 1\<rparr>) s"
    show ?case unfolding *(3)
      by (rule set_draft_apart [OF edited(4)]) (auto dest: the_draft [OF edited(4) *(1)] intro: put_cell_apart [OF *(2)])
  qed
next
  case (cleared uuid i entryID s s')
  from cleared(1) show ?case
    by (rule cleared_result) (auto intro!: set_draft_apart [OF cleared(4)] elim: apart_cells_subset)
next
  case (published uuid subject_of new i ack s s')
  from published(1) show ?case
  proof (rule published_result)
    fix d ls assume *: "s' = set_draft i (\<lambda>d. d\<lparr>td_status := ''published''\<rparr>) (s\<lparr>sh_live := ls\<rparr>)"
    from published(4) have "drafts_apart (s\<lparr>sh_live := ls\<rparr>)" by (simp add: drafts_apart_def)
    then show ?case unfolding * by (rule set_draft_apart) simp_all
  qed
next
  case (discarded uuid i s s')
  from discarded_result [OF discarded(1)] show ?case
    by (auto intro!: set_draft_apart [OF discarded(4)])
next
  case (requirement_saved uuid on_file cs per morning s s')
  then show ?case by (auto dest!: requirement_result simp: drafts_apart_def)
next
  case (load_saved uuid u perDay perWeek s s')
  then show ?case by (auto dest!: load_result simp: drafts_apart_def)
next
  case (absence_saved uuid n u weekday period reason s s')
  then show ?case using absence_frame [OF absence_saved(1)] by (simp add: drafts_apart_def same_frame_def)
next
  case (absence_deleted uuid i s s')
  then show ?case by (auto dest!: absence_deleted_result simp: drafts_apart_def)
qed

lemma frame_keeps:
  assumes "same_frame s s'"
  shows "timed s' \<longleftrightarrow> timed s" "staffed s' \<longleftrightarrow> staffed s"
proof -
  have "list_all (\<lambda>r. P (rw_section r) (rw_teacher r)) rs = list_all (\<lambda>(a, b). P a b) (map (\<lambda>r. (rw_section r, rw_teacher r)) rs)" for P rs
    by (simp add: list_all_iff)
  note pairs = this
  from assms show "timed s' \<longleftrightarrow> timed s" by (simp add: timed_def same_frame_def)
  from assms show "staffed s' \<longleftrightarrow> staffed s"
    unfolding staffed_def pairs [of "\<lambda>a b. a \<noteq> '''' \<and> CHR ''|'' \<notin> set a \<and> (b = '''' \<or> b \<in> X)" for X]
    by (simp add: same_frame_def active_staff_def)
qed

lemma desk_run:
  assumes "desk\<^sup>*\<^sup>* s0 s" "timed s0" "staffed s0"
    "P s0" "\<And>s s'. desk s s' \<Longrightarrow> timed s \<Longrightarrow> staffed s \<Longrightarrow> P s \<Longrightarrow> P s'"
  shows "timed s \<and> staffed s \<and> P s"
  using assms(1)
proof (induction rule: rtranclp_induct)
  case base
  from assms show ?case by simp
next
  case (step s s')
  with assms(5) frame_keeps [OF desk_frame [OF step(2)]] show ?case by blast
qed

subsection \<open>Types of the rows\<close>

definition row_types :: "School \<Rightarrow> bool" where
  "row_types s \<longleftrightarrow> list_all (\<lambda>r. 0 \<le> rw_per_week r \<and> rw_per_week r \<le> 60) (sh_reqs s)
     \<and> distinct (map lr_teacher (sh_rules s)) \<and> list_all (\<lambda>r. 1 \<le> lr_day r \<and> lr_day r \<le> 20 \<and> lr_day r \<le> lr_week r \<and> lr_week r \<le> 80) (sh_rules s)
     \<and> tu_weekday ` set (sh_unavailable s) \<subseteq> {1..7}"

definition cell_types :: "School \<Rightarrow> bool" where
  "cell_types s \<longleftrightarrow> (\<forall>d\<in>set (sh_drafts s). td_status d \<in> {''draft'', ''published'', ''discarded''} \<and> ce_weekday ` set (td_cells d) \<subseteq> set TEACHING_WEEKDAYS)
     \<and> (\<lambda>l. ce_weekday (lv_cell l)) ` set (sh_live s) \<subseteq> set TEACHING_WEEKDAYS"

lemma desk_row_types: "desk s s' \<Longrightarrow> row_types s \<Longrightarrow> row_types s'"
proof (induction rule: desk.induct)
  case (requirement_saved uuid on_file cs per morning s s')
  then show ?case by (auto dest!: requirement_result simp: row_types_def list_all_iff)
next
  case (load_saved uuid u day week s s')
  have same: "map (lr_teacher \<circ> (\<lambda>r. if lr_teacher r = v then r\<lparr>lr_day := day, lr_week := week\<rparr> else r)) rs = map lr_teacher rs" for v rs
    by simp
  note r = load_result [OF load_saved(1)]
  show ?case
  proof (cases "list_ex (\<lambda>r. lr_teacher r = js_trim u) (sh_rules s)")
    case True
    with r load_saved(2) show ?thesis by (auto simp: row_types_def list_all_iff same)
  next
    case False
    then have "js_trim u \<notin> lr_teacher ` set (sh_rules s)" by (auto simp: list_ex_iff)
    with False r load_saved(2) show ?thesis by (auto simp: row_types_def list_all_iff)
  qed
next
  case (absence_saved uuid n u weekday period reason s s')
  then have "insert weekday (tu_weekday ` set (sh_unavailable s)) \<subseteq> {1..7}"
    using absence_result [OF absence_saved(1)] by (auto simp: row_types_def)
  with absence_result [OF absence_saved(1)] have "tu_weekday ` set (sh_unavailable s') \<subseteq> {1..7}" by (meson order_trans)
  with absence_saved(2) absence_frame [OF absence_saved(1)] show ?case by (simp add: row_types_def)
qed (auto elim!: results dest!: discarded_result absence_deleted_result simp: row_types_def)

lemma changed_weekday:
  "cell_fault offered known d s x = None \<Longrightarrow> ce_weekday x \<in> set TEACHING_WEEKDAYS"
  by (auto simp: cell_fault_def split: if_splits)

lemma insert_live_all: "insert_live subject_of xs ls = Some ls' \<Longrightarrow> ls' = ls @ xs"
  by (induction subject_of xs ls rule: insert_live.induct) (auto split: if_splits)

lemma set_draft_types:
  assumes "cell_types s"
    "\<And>d. d \<in> set (sh_drafts s) \<Longrightarrow> td_id d = i \<Longrightarrow> td_status (f d) \<in> {td_status d, ''published'', ''discarded''}
       \<and> ce_weekday ` set (td_cells (f d)) \<subseteq> ce_weekday ` set (td_cells d) \<union> set TEACHING_WEEKDAYS"
  shows "cell_types (set_draft i f s)"
  using assms unfolding cell_types_def by (fastforce simp: image_subset_iff)

lemma cell_types_cong: "sh_drafts s' = sh_drafts s \<Longrightarrow> sh_live s' = sh_live s \<Longrightarrow> cell_types s' \<longleftrightarrow> cell_types s"
  by (simp add: cell_types_def)

lemma desk_cell_types:
  "desk s s' \<Longrightarrow> timed s \<Longrightarrow> staffed s \<Longrightarrow> cell_types s \<Longrightarrow> cell_types s'"
proof (induction rule: desk.induct)
  case (generated uuid working made i ids q s s')
  from generated(1) show ?case
  proof (rule generated_result)
    fix year inp cells d
    assume *: "draft_input q year s = Inr inp" "insert_cells (map (cell_of ids) (re_placements (generate inp))) [] = Some cells"
      "s' = s\<lparr>sh_drafts := sh_drafts s @ [d]\<rparr>" "td_cells d = cells" "td_status d = ''draft''"
    have "ce_weekday ` set cells \<subseteq> set TEACHING_WEEKDAYS"
      using placements_in_timetable_parts(1) [OF draft_wf [OF generated(3,4) *(1)]] insert_cells_all [OF *(2)]
      by (auto simp: draft_input_result(3) [OF *(1)] cell_of_def)
    with generated(5) show ?case by (auto simp: cell_types_def *(3-5))
  qed
next
  case (edited uuid offered known i entry n cq s s')
  from edited(1) show ?case
    by (rule edited_result)
      (auto intro!: set_draft_types [OF edited(4)] dest: changed_weekday simp: set_put_cell)
next
  case (cleared uuid i entryID s s')
  from cleared(1) show ?case
    by (rule cleared_result) (auto intro!: set_draft_types [OF cleared(4)])
next
  case (published uuid subject_of new i ack s s')
  from published(1) show ?case
  proof (rule published_result)
    fix d ls assume *: "find_draft i s = Some d" "insert_live subject_of (written_live new d) (kept_live d (sh_live s)) = Some ls"
      "s' = set_draft i (\<lambda>d. d\<lparr>td_status := ''published''\<rparr>) (s\<lparr>sh_live := ls\<rparr>)"
    have "cell_types (s\<lparr>sh_live := ls\<rparr>)"
      using published(4) find_draft_Some [OF *(1)] insert_live_all [OF *(2)]
      by (auto simp: cell_types_def written_live_def kept_live_def image_subset_iff)
    then show ?case unfolding *(3) by (rule set_draft_types) auto
  qed
next
  case (discarded uuid i s s')
  from discarded_result [OF discarded(1)] show ?case
    by (auto intro!: set_draft_types [OF discarded(4)] split: if_splits)
next
  case (requirement_saved uuid on_file cs per morning s s')
  then have "cell_types s' \<longleftrightarrow> cell_types s" by (intro cell_types_cong) (auto dest!: requirement_result)
  with requirement_saved show ?case by simp
next
  case (load_saved uuid u perDay perWeek s s')
  then have "cell_types s' \<longleftrightarrow> cell_types s" by (intro cell_types_cong) (auto dest!: load_result)
  with load_saved show ?case by simp
next
  case (absence_saved uuid n u weekday period reason s s')
  then have "cell_types s' \<longleftrightarrow> cell_types s" using absence_frame [OF absence_saved(1)] by (intro cell_types_cong) simp_all
  with absence_saved show ?case by simp
next
  case (absence_deleted uuid i s s')
  then have "cell_types s' \<longleftrightarrow> cell_types s" by (intro cell_types_cong) (auto dest!: absence_deleted_result)
  with absence_deleted show ?case by simp
qed

subsection \<open>The live timetable\<close>

text \<open>The index \<open>timetable_section_slot\<close>: a section has one lesson in a slot.\<close>

definition section_slot :: "Live \<Rightarrow> (string \<times> int \<times> string) option" where
  "section_slot l = Some (ce_section (lv_cell l), ce_weekday (lv_cell l), ce_period (lv_cell l))"

definition insert_one :: "(string \<Rightarrow> string option) \<Rightarrow> Live \<Rightarrow> Live list \<Rightarrow> Live list" where
  "insert_one subject_of l ls = (if live_clash subject_of l ls then ls else ls @ [l])"

interpretation live_slots: unique_index section_slot "insert_one subject_of"
proof
  fix l ls
  show "insert_one subject_of l ls = ls \<or> (insert_one subject_of l ls = ls @ [l] \<and> (section_slot l = None \<or> section_slot l \<notin> section_slot ` set ls))"
    by (auto simp: insert_one_def live_clash_def list_ex_iff section_slot_def same_slot_def)
qed

lemma insert_live_fold: "insert_live subject_of xs ls = Some ls' \<Longrightarrow> ls' = fold (insert_one subject_of) xs ls"
  by (induction subject_of xs ls rule: insert_live.induct) (auto simp: insert_one_def split: if_splits)

lemma desk_live: "desk s s' \<Longrightarrow> distinct (keys_of section_slot (sh_live s)) \<Longrightarrow> distinct (keys_of section_slot (sh_live s'))"
proof (induction rule: desk.induct)
  case (published uuid subject_of new i ack s s')
  from published(1) show ?case
  proof (rule published_result)
    fix d ls assume *: "insert_live subject_of (written_live new d) (kept_live d (sh_live s)) = Some ls"
      "s' = set_draft i (\<lambda>d. d\<lparr>td_status := ''published''\<rparr>) (s\<lparr>sh_live := ls\<rparr>)"
    from published(2) have "distinct (keys_of section_slot (kept_live d (sh_live s)))" unfolding kept_live_def by (rule keys_of_filter)
    from live_slots.fold_distinct [OF this] insert_live_fold [OF *(1)] show ?case by (simp add: *(2))
  qed
next
  case (absence_saved uuid n u weekday period reason s s')
  then show ?case using absence_frame [OF absence_saved(1)] by simp
qed (auto elim!: results dest!: discarded_result absence_deleted_result requirement_result load_result)

text \<open>The sections a draft covers, in its year.\<close>

definition covered :: "Draft \<Rightarrow> Live \<Rightarrow> bool" where
  "covered d l \<longleftrightarrow> lv_year l = td_year d \<and> ce_section (lv_cell l) \<in> ce_section ` set (td_cells d)"

lemma published_live:
  assumes "insert_live subject_of (written_live new d) (kept_live d ls) = Some ls'"
  shows "filter (covered d) ls' = written_live new d" "filter (\<lambda>l. \<not> covered d l) ls' = filter (\<lambda>l. \<not> covered d l) ls"
proof -
  have "filter (covered d) (written_live new d) = written_live new d" "filter (\<lambda>l. \<not> covered d l) (written_live new d) = []"
    by (auto simp: filter_id_conv filter_empty_conv written_live_def covered_def)
  moreover have "kept_live d ls = filter (\<lambda>l. \<not> covered d l) ls" by (simp add: kept_live_def covered_def)
  ultimately show "filter (covered d) ls' = written_live new d" "filter (\<lambda>l. \<not> covered d l) ls' = filter (\<lambda>l. \<not> covered d l) ls"
    by (simp_all add: insert_live_all [OF assms])
qed

lemma find_map_draft:
  assumes "\<And>d. td_id (f d) = td_id d"
  shows "find (\<lambda>d. td_id d = i) (map (\<lambda>d. if td_id d = i then f d else d) ds) = map_option f (find (\<lambda>d. td_id d = i) ds)"
  by (induction ds) (auto simp: assms)

subsection \<open>A school with two bells\<close>

text \<open>
  Section \<open>s1\<close> runs on the school's bell, \<open>s2\<close> on a bell of its own whose period starts before the
  second period of the other ends; one teacher has both, and works on Mondays only.
\<close>

definition mondays_only :: "UnavRow list" where
  "mondays_only = map (\<lambda>(i, w). \<lparr>tu_id = i, tu_teacher = ''t1'', tu_weekday = w, tu_period = None, tu_reason = None\<rparr>)
     [(''u2'', 2), (''u3'', 3), (''u4'', 4), (''u5'', 5), (''u6'', 6)]"

definition bell_row :: "string \<Rightarrow> int \<Rightarrow> string \<Rightarrow> string \<Rightarrow> string \<Rightarrow> BellRow" where
  "bell_row i n from_time to_time b = \<lparr>br_id = i, br_name = i, br_sequence = n, br_starts_at = Some from_time, br_ends_at = Some to_time, br_is_break = 0, br_schedule = b\<rparr>"

definition req_row :: "string \<Rightarrow> ReqRow" where
  "req_row sec = \<lparr>rw_year = ''y'', rw_campus = None, rw_section = sec, rw_section_name = sec, rw_cs = ''m'', rw_subject = ''Maths'', rw_per_week = 1,
     rw_morning = False, rw_teacher = ''t1''\<rparr>"

definition demo_school :: School where
  "demo_school =
    \<lparr>sh_periods = [bell_row ''a1'' 1 ''08:00'' ''08:45'' ''A'', bell_row ''a2'' 2 ''09:00'' ''09:45'' ''A'', bell_row ''b1'' 1 ''09:30'' ''10:15'' ''B''],
     sh_default = Some ''A'',
     sh_sections = [\<lparr>sx_id = ''s1'', sx_year = ''y'', sx_class_schedule = None, sx_schedule = None\<rparr>,
       \<lparr>sx_id = ''s2'', sx_year = ''y'', sx_class_schedule = None, sx_schedule = Some ''B''\<rparr>],
     sh_reqs = [req_row ''s1'', req_row ''s2''],
     sh_staff = [\<lparr>sf_user = ''t1'', sf_name = ''Rao'', sf_status = ''active''\<rparr>],
     sh_rules = [], sh_unavailable = mondays_only, sh_live = [], sh_drafts = []\<rparr>"

definition demo_ask :: "string list \<Rightarrow> DraftReq" where
  "demo_ask secs = \<lparr>dq_sections = secs, dq_year = ''y'', dq_campus = None, dq_seed = 7, dq_budget = 0, dq_name = ''First''\<rparr>"

definition drawn :: "string list \<Rightarrow> School \<Rightarrow> DraftError + School" where
  "drawn secs s = generateTimetableDraft (\<lambda>_. True) Some ''made'' ''d1'' (\<lambda>p. pl_sectionId p @ pl_periodId p) (demo_ask secs) s"

definition cells_view :: "Cell list \<Rightarrow> (string \<times> int \<times> string \<times> string option) list" where
  "cells_view cells = map (\<lambda>x. (ce_section x, ce_weekday x, ce_period x, ce_teacher x)) cells"

definition drafts_view :: "DraftError + School \<Rightarrow> (string \<times> nat \<times> nat \<times> string list \<times> (string \<times> int \<times> string \<times> string option) list) list" where
  "drafts_view r = (case r of Inl _ \<Rightarrow> [] | Inr s \<Rightarrow> map (\<lambda>d. (td_id d, td_blocking d, td_hand_edits d, map ce_id (td_cells d), cells_view (td_cells d))) (sh_drafts s))"

lemma demo_drawn: "drafts_view (drawn [] demo_school) = [(''d1'', 0, 0, [''s1a1'', ''s2b1''], [(''s1'', 1, ''a1'', Some ''t1''), (''s2'', 1, ''b1'', Some ''t1'')])]"
  by code_simp

lemma demo_result:
  obtains s d x y where "drawn [] demo_school = Inr s" "sh_drafts s = [d]" "td_id d = ''d1''" "td_blocking d = 0" "td_hand_edits d = 0"
    "td_cells d = [x, y]" "ce_id x = ''s1a1''" "ce_id y = ''s2b1''"
    "ce_section x = ''s1''" "ce_weekday x = 1" "ce_period x = ''a1''" "ce_teacher x = Some ''t1''"
    "ce_section y = ''s2''" "ce_weekday y = 1" "ce_period y = ''b1''" "ce_teacher y = Some ''t1''"
proof (cases "drawn [] demo_school")
  case (Inl e)
  with demo_drawn show ?thesis by (simp add: drafts_view_def)
next
  case (Inr s)
  with demo_drawn obtain d where d: "sh_drafts s = [d]" "td_id d = ''d1''" "td_blocking d = 0" "td_hand_edits d = 0" "map ce_id (td_cells d) = [''s1a1'', ''s2b1'']"
    "cells_view (td_cells d) = [(''s1'', 1, ''a1'', Some ''t1''), (''s2'', 1, ''b1'', Some ''t1'')]"
    by (auto simp: drafts_view_def)
  then obtain x y where "td_cells d = [x, y]" by (auto simp: cells_view_def)
  with d Inr show ?thesis by (intro that) (auto simp: cells_view_def)
qed

lemma demo_timed: "timed demo_school" and demo_staffed: "staffed demo_school"
  by (simp_all add: timed_def staffed_def demo_school_def bell_row_def req_row_def clocked_def active_staff_def)

lemma demo_step: "drawn [] demo_school = Inr s \<Longrightarrow> desk\<^sup>*\<^sup>* demo_school s"
  unfolding drawn_def by (rule r_into_rtranclp) (rule desk.generated, assumption, simp add: demo_school_def)

subsection \<open>Properties\<close>



text \<open>
  C28. The rows keep their types over any sequence of operations: between 0 and 60 periods a week,
  one load rule a teacher with 1 to 20 periods a day and no fewer and at most 80 a week, weekdays of
  absences 1 to 7, lessons on the six teaching days only, in drafts and live, and a draft in one of
  its three states.
\<close>
theorem rows_stay_typed:
  assumes "desk\<^sup>*\<^sup>* s0 s" "timed s0" "staffed s0" "row_types s0" "cell_types s0"
  shows "row_types s \<and> cell_types s"
  using desk_run [where P = "\<lambda>s. row_types s \<and> cell_types s", OF assms(1-3)] assms(4,5) desk_row_types desk_cell_types by blast

theorem rows_stay_typed_witness:
  "\<exists>s. desk\<^sup>*\<^sup>* demo_school s \<and> length (sh_drafts s) = 1 \<and> row_types s \<and> cell_types s"
proof (rule demo_result)
  fix s d assume s: "drawn [] demo_school = Inr s" "sh_drafts s = [d]"
  have "row_types demo_school" "cell_types demo_school"
    by (simp_all add: row_types_def cell_types_def demo_school_def req_row_def mondays_only_def)
  from rows_stay_typed [OF demo_step [OF s(1)] demo_timed demo_staffed this] demo_step [OF s(1)] s(2) show ?thesis
    by (intro exI [of _ s]) simp
qed

text \<open>
  C26. Publishing replaces: for the sections the draft covers, the live timetable of its year is
  afterwards exactly the draft; every other lesson is as it was; a section has one lesson in a slot
  if it had before; blocking issues had to be acknowledged; and the draft cannot be published again.
\<close>
theorem publishing_replaces:
  assumes "publishTimetableDraft uuid subject_of new i ack s = Inr s'"
  shows "\<exists>d. find_draft i s = Some d \<and> filter (covered d) (sh_live s') = written_live new d
      \<and> filter (\<lambda>l. \<not> covered d l) (sh_live s') = filter (\<lambda>l. \<not> covered d l) (sh_live s)
      \<and> (distinct (keys_of section_slot (sh_live s)) \<longrightarrow> distinct (keys_of section_slot (sh_live s')))
      \<and> (td_blocking d = 0 \<or> ack = Some True)
      \<and> publishTimetableDraft uuid subject_of new' i (Some ack') s' = Inl (Refuse ''draft_closed'')"
proof (rule published_result [OF assms(1)])
  fix d ls
  assume *: "find_draft i s = Some d" "td_status d = ''draft''" "td_blocking d = 0 \<or> ack = Some True"
    "insert_live subject_of (written_live new d) (kept_live d (sh_live s)) = Some ls"
    "s' = set_draft i (\<lambda>d. d\<lparr>td_status := ''published''\<rparr>) (s\<lparr>sh_live := ls\<rparr>)"
  have "find_draft i s' = Some (d\<lparr>td_status := ''published''\<rparr>)" unfolding *(5)
    using *(1) find_map_draft [of "\<lambda>d. d\<lparr>td_status := ''published''\<rparr>" i "sh_drafts s"] by (simp add: find_draft_def)
  moreover have "uuid i" using assms(1) by (auto simp: publishTimetableDraft_def split: if_splits)
  moreover have "sh_live s' = ls" by (simp add: *(5))
  ultimately show ?thesis
    using *(1,3) published_live [OF *(4)] desk_live [OF desk.published [OF assms(1)]]
    by (intro exI [of _ d]) (simp add: publishTimetableDraft_def)
qed

theorem publishing_replaces_witness:
  "\<exists>s s' d. drawn [] demo_school = Inr s \<and> publishTimetableDraft (\<lambda>_. True) Some id ''d1'' (Some False) s = Inr s'
     \<and> filter (covered d) (sh_live s') = written_live id d \<and> length (written_live id d) = 2"
proof (rule demo_result)
  fix s d x y
  assume s: "drawn [] demo_school = Inr s" "sh_drafts s = [d]" "td_id d = ''d1''" "td_blocking d = 0" "td_cells d = [x, y]"
    and x: "ce_section x = ''s1''" "ce_period x = ''a1''" and y: "ce_section y = ''s2''" "ce_period y = ''b1''"
  have st: "td_status d = ''draft''" "sh_live s = []"
    using s(1,2) unfolding drawn_def by (auto elim!: generated_result simp: demo_school_def)
  have f: "find_draft ''d1'' s = Some d" by (simp add: find_draft_def s(2,3))
  have ins: "insert_live Some (written_live id d) (kept_live d []) = Some (written_live id d)"
    by (simp add: written_live_def s(5) live_clash_def same_slot_def x y kept_live_def)
  obtain s' where s': "publishTimetableDraft (\<lambda>_. True) Some id ''d1'' (Some False) s = Inr s'"
    by (simp add: publishTimetableDraft_def f st s(4) ins)
  from publishing_replaces [OF s'] f s(1,5) s' show ?thesis
    by (intro exI [of _ s] exI [of _ s'] exI [of _ d]) (auto simp: written_live_def)
qed

lemma put_cell_count:
  assumes "distinct (map ce_id cells)"
  shows "length (filter P (put_cell x cells)) = length (filter P (filter (\<lambda>y. ce_id y \<noteq> ce_id x) cells)) + (if P x then 1 else 0)"
proof -
  have none: "filter (\<lambda>y. ce_id y \<noteq> ce_id x) cs = cs \<and> map (\<lambda>y. if ce_id y = ce_id x then x else y) cs = cs"
    if "\<not> list_ex (\<lambda>y. ce_id y = ce_id x) cs" for cs
    using that by (induction cs) auto
  show ?thesis
  proof (cases "list_ex (\<lambda>y. ce_id y = ce_id x) cells")
    case True
    with assms have "length (filter P (map (\<lambda>y. if ce_id y = ce_id x then x else y) cells))
        = length (filter P (filter (\<lambda>y. ce_id y \<noteq> ce_id x) cells)) + (if P x then 1 else 0)"
    proof (induction cells)
      case (Cons y ys)
      show ?case
      proof (cases "ce_id y = ce_id x")
        case True
        with Cons.prems have "\<not> list_ex (\<lambda>y. ce_id y = ce_id x) ys" by (auto simp: list_ex_iff image_iff)
        from none [OF this] True show ?thesis by simp
      next
        case False
        with Cons show ?thesis by simp
      qed
    qed simp
    with True show ?thesis by (simp add: put_cell_def)
  next
    case False
    with none [OF False] show ?thesis by (simp add: put_cell_def)
  qed
qed

lemma put_cell_sections:
  assumes "distinct (map ce_id cells)" "y \<in> set cells" "ce_id y = ce_id x \<Longrightarrow> ce_section y = ce_section x"
  shows "ce_section y \<in> ce_section ` set (put_cell x cells)"
  using assms(2,3) unfolding set_put_cell by (cases "ce_id y = ce_id x") auto

lemma load_elsewhere_mono:
  assumes "td_year d' = td_year d" "ce_section ` set (td_cells d) \<subseteq> ce_section ` set (td_cells d')" "sh_live s' = sh_live s"
  shows "length (filter P (elsewhere d' s')) \<le> length (filter P (elsewhere d s))"
proof -
  have that_mono: "length (filter P (map f (filter a ls))) \<le> length (filter P (map f (filter b ls)))" if "\<And>l. a l \<Longrightarrow> b l" for f a b and ls :: "Live list"
    using that by (induction ls) auto
  show ?thesis unfolding elsewhere_def assms(1,3) by (rule that_mono) (use assms(2) in blast)
qed

lemma edited_section:
  assumes "edited_cell entry n d q = Some x0" "x = changed_cell q x0" "distinct (map ce_id (td_cells d))" "n \<notin> ce_id ` set (td_cells d)"
    "y \<in> set (td_cells d)" "ce_id y = ce_id x"
  shows "ce_section y = ce_section x"
proof (cases entry)
  case None
  with assms show ?thesis by (auto simp: edited_cell_def changed_cell_def)
next
  case (Some i)
  with assms(1) have "x0 \<in> set (td_cells d)" by (auto simp: edited_cell_def find_Some_iff)
  moreover have "ce_id y = ce_id x0" "ce_section x = ce_section x0" using assms(2,6) by (auto simp: changed_cell_def)
  ultimately show ?thesis using assms(3,5) by (auto simp: distinct_map inj_on_def)
qed

lemma caps_of_fault:
  assumes "cell_fault offered known d s x = None" "ce_teacher x = Some t"
  defines "others \<equiv> filter (\<lambda>y. ce_id y \<noteq> ce_id x) (td_cells d)"
  shows "int (length (filter (\<lambda>y. ce_teacher y = Some t \<and> ce_weekday y = ce_weekday x) (others @ elsewhere d s))) + 1 \<le> max_day s t"
    "int (length (filter (\<lambda>y. ce_teacher y = Some t) (others @ elsewhere d s))) + 1 \<le> max_week s t"
    "\<not> is_busy s t (ce_weekday x) (ce_period x) (elsewhere d s)"
    "\<not> list_ex (\<lambda>r. tu_teacher r = t \<and> tu_weekday r = ce_weekday x \<and> (tu_period r = None \<or> tu_period r = Some (ce_period x))) (sh_unavailable s)"
proof -
  have f: "teacher_fault known d s x = None" using assms(1) by (auto simp: cell_fault_def split: if_splits option.splits)
  have split: "filter (\<lambda>y. ce_weekday y = ce_weekday x) (load_on t cells) = filter (\<lambda>y. ce_teacher y = Some t \<and> ce_weekday y = ce_weekday x) cells" for cells
    by (simp add: load_on_def conj_commute)
  from f assms(2) show "int (length (filter (\<lambda>y. ce_teacher y = Some t \<and> ce_weekday y = ce_weekday x) (others @ elsewhere d s))) + 1 \<le> max_day s t"
    unfolding split [symmetric] by (simp add: teacher_fault_def Let_def others_def split: if_splits)
  from f assms(2) show "int (length (filter (\<lambda>y. ce_teacher y = Some t) (others @ elsewhere d s))) + 1 \<le> max_week s t"
    by (simp add: teacher_fault_def Let_def others_def load_on_def split: if_splits)
  from f assms(2) show "\<not> is_busy s t (ce_weekday x) (ce_period x) (elsewhere d s)"
    "\<not> list_ex (\<lambda>r. tu_teacher r = t \<and> tu_weekday r = ce_weekday x \<and> (tu_period r = None \<or> tu_period r = Some (ce_period x))) (sh_unavailable s)"
    by (auto simp: teacher_fault_def Let_def split: if_splits)
qed

text \<open>The limits of a lesson in a draft, counting the live lessons the draft does not replace.\<close>

definition hand_ok :: "School \<Rightarrow> Draft \<Rightarrow> Cell \<Rightarrow> bool" where
  "hand_ok s d x \<longleftrightarrow> (case ce_teacher x of None \<Rightarrow> True | Some t \<Rightarrow>
      int (length (filter (\<lambda>y. ce_teacher y = Some t \<and> ce_weekday y = ce_weekday x) (td_cells d @ elsewhere d s))) \<le> max_day s t
    \<and> int (length (filter (\<lambda>y. ce_teacher y = Some t) (td_cells d @ elsewhere d s))) \<le> max_week s t
    \<and> \<not> is_busy s t (ce_weekday x) (ce_period x) (elsewhere d s)
    \<and> \<not> list_ex (\<lambda>r. tu_teacher r = t \<and> tu_weekday r = ce_weekday x \<and> (tu_period r = None \<or> tu_period r = Some (ce_period x))) (sh_unavailable s))"

lemma placed_within_limits:
  assumes "cell_fault offered known d s x = None" "distinct (map ce_id (td_cells d))"
    "td_cells d' = put_cell x (td_cells d)" "sh_rules s' = sh_rules s" "sh_unavailable s' = sh_unavailable s" "sh_periods s' = sh_periods s"
    "\<And>P. length (filter P (elsewhere d' s')) \<le> length (filter P (elsewhere d s))"
  shows "hand_ok s' d' x"
proof (cases "ce_teacher x")
  case (Some t)
  note c = caps_of_fault [OF assms(1) Some]
  have cells: "length (filter P (td_cells d' @ elsewhere d' s'))
      \<le> length (filter P (filter (\<lambda>y. ce_id y \<noteq> ce_id x) (td_cells d) @ elsewhere d s)) + 1" for P
    using assms(7) [of P] put_cell_count [OF assms(2), of P x] by (simp add: assms(3))
  have "int (length (filter (\<lambda>y. ce_teacher y = Some t \<and> ce_weekday y = ce_weekday x) (td_cells d' @ elsewhere d' s'))) \<le> max_day s t"
    using c(1) cells [of "\<lambda>y. ce_teacher y = Some t \<and> ce_weekday y = ce_weekday x"] by linarith
  moreover have "int (length (filter (\<lambda>y. ce_teacher y = Some t) (td_cells d' @ elsewhere d' s'))) \<le> max_week s t"
    using c(2) cells [of "\<lambda>y. ce_teacher y = Some t"] by linarith
  moreover have "\<not> is_busy s t (ce_weekday x) (ce_period x) (elsewhere d' s')"
  proof -
    let ?P = "\<lambda>y. ce_teacher y = Some t \<and> ce_weekday y = ce_weekday x \<and> same_time (sh_periods s) (ce_period x) (ce_period y)"
    have "length (filter ?P (elsewhere d s)) = 0" using c(3) by (auto simp: is_busy_def list_ex_iff filter_empty_conv)
    with assms(7) [of ?P] have "filter ?P (elsewhere d' s') = []" by simp
    then show ?thesis by (auto simp: is_busy_def list_ex_iff filter_empty_conv)
  qed
  moreover have "max_day s' t = max_day s t" "max_week s' t = max_week s t" by (simp_all add: max_day_def max_week_def assms(4))
  moreover have "is_busy s' t w p cs = is_busy s t w p cs" for w p cs by (simp add: is_busy_def assms(6))
  ultimately show ?thesis using c(4) unfolding hand_ok_def Some option.case assms(5) by simp
qed (simp add: hand_ok_def)

lemma edited_sections:
  assumes "edited_cell entry n d q = Some x0" "x = changed_cell q x0" "distinct (map ce_id (td_cells d))" "n \<notin> ce_id ` set (td_cells d)"
  shows "ce_section ` set (td_cells d) \<subseteq> ce_section ` set (put_cell x (td_cells d))"
proof (rule image_subsetI)
  fix y assume y: "y \<in> set (td_cells d)"
  from put_cell_sections [OF assms(3) y] edited_section [OF assms y] show "ce_section y \<in> ce_section ` set (put_cell x (td_cells d))" .
qed

lemma find_set_draft:
  assumes "\<And>d. td_id (f d) = td_id d"
  shows "find_draft i (set_draft i f s) = map_option f (find_draft i s)"
  unfolding find_draft_def set_draft_fields using assms by (rule find_map_draft)


text \<open>A hand edit of the lesson of \<open>s1\<close>: its period, weekday or room.\<close>

definition moved :: "string option \<Rightarrow> int option \<Rightarrow> string option \<Rightarrow> DraftError + School" where
  "moved p w room =
    (case drawn [] demo_school of Inl e \<Rightarrow> Inl e
     | Inr s \<Rightarrow> editMasterDraft (\<lambda>_. True) (\<lambda>_ _. True) (\<lambda>_. True) ''d1'' (Some ''s1a1'') ''n''
         \<lparr>cq_section = '''', cq_subject = '''', cq_weekday = w, cq_period = p, cq_teacher = None, cq_room = room\<rparr> s)"

lemma demo_moved:
  "drafts_view (moved None None (Some ''12'')) = [(''d1'', 0, 1, [''s1a1'', ''s2b1''], [(''s1'', 1, ''a1'', Some ''t1''), (''s2'', 1, ''b1'', Some ''t1'')])]"
  by code_simp


text \<open>
  A school whose teacher already has a lesson in \<open>s2\<close>, on its own bell, on Monday at 9:30, and is
  away for the first period.
\<close>

definition busy_school :: School where
  "busy_school = demo_school\<lparr>
     sh_live := [\<lparr>lv_year = ''y'', lv_cell = \<lparr>ce_id = ''l'', ce_section = ''s2'', ce_period = ''b1'', ce_weekday = 1, ce_subject = ''m'',
       ce_teacher = Some ''t1'', ce_room = None\<rparr>\<rparr>],
     sh_unavailable := \<lparr>tu_id = ''u1'', tu_teacher = ''t1'', tu_weekday = 1, tu_period = Some ''a1'', tu_reason = None\<rparr> # mondays_only\<rparr>"

definition published_view :: "DraftError + School \<Rightarrow> (string \<times> int \<times> string \<times> string option) list" where
  "published_view r =
    (case r of Inl _ \<Rightarrow> []
     | Inr s \<Rightarrow> (case publishTimetableDraft (\<lambda>_. True) Some (\<lambda>i. i @ ''x'') ''d1'' (Some False) s of Inl _ \<Rightarrow> [] | Inr s' \<Rightarrow> cells_view (map lv_cell (sh_live s'))))"

definition by_hand_view :: "DraftError + School \<Rightarrow> string" where
  "by_hand_view r =
    (case r of Inl _ \<Rightarrow> ''''
     | Inr s \<Rightarrow> (case editMasterDraft (\<lambda>_. True) (\<lambda>_ _. True) (\<lambda>_. True) ''d1'' (Some ''s1a2'') ''n''
         \<lparr>cq_section = '''', cq_subject = '''', cq_weekday = None, cq_period = None, cq_teacher = None, cq_room = Some ''12''\<rparr> s of
           Inl (Refuse c) \<Rightarrow> c | _ \<Rightarrow> ''''))"

text \<open>
  A draft for one section of a school with two bells: no section in it runs on a bell of its own,
  so the generator is given no overlaps, and the lesson the teacher already has elsewhere, 9:30 to
  10:15 on the other bell, does not keep it from placing her at 9:00 to 9:45.  The draft has no issue
  and is published, and she is in two places; touching the lesson by hand would be refused.
\<close>
theorem lesson_on_another_bell_is_missed:
  "drafts_view (drawn [''s1''] busy_school) = [(''d1'', 0, 0, [''s1a2''], [(''s1'', 1, ''a2'', Some ''t1'')])]
   \<and> published_view (drawn [''s1''] busy_school) = [(''s2'', 1, ''b1'', Some ''t1''), (''s1'', 1, ''a2'', Some ''t1'')]
   \<and> same_time (sh_periods busy_school) ''a2'' ''b1''
   \<and> by_hand_view (drawn [''s1''] busy_school) = ''teacher_busy''"
  by code_simp

end
