(* ===== verification/LossOfPay.thy ===== *)
theory LossOfPay
  imports Payroll FineEngine
begin

text \<open>
  The days of pay a month of attendance costs, \<open>lopRegister\<close> of \<open>worker/src/routes/payroll.ts\<close>, over whose
  holiday a day is (\<open>worker/src/routes/hr/staff_holidays.ts\<close>).  The rows of its queries are the input:
  the work patterns a person falls back through, the leave days of the year with their quotas, and the
  marks of the month.  Times of day are minutes, a check-in is milliseconds (\<open>None\<close>: none, or not a
  date), and the members of a staff group are given.  \<open>Payroll\<close> takes the days from here.
\<close>

subsection \<open>Whose holiday it is\<close>

record HolidayRow =
  ho_from :: string
  ho_to :: string
  ho_applies :: string
  ho_kind :: string

definition appliesToStaff :: "(string \<Rightarrow> string list option) \<Rightarrow> string \<Rightarrow> bool \<Rightarrow> string option \<Rightarrow> bool" where
  "appliesToStaff groups a teaching eid =
    (if a = ''all'' \<or> a = ''staff'' then True
     else if a = ''teaching'' then teaching
     else if a = ''non_teaching'' then \<not> teaching
     else if startsWith a ''people:'' then (case eid of None \<Rightarrow> False | Some e \<Rightarrow> e \<noteq> '''' \<and> e \<in> set (js_split (CHR '','') (drop 7 a)))
     else if startsWith a ''group:'' then (case (eid, groups (drop 6 a)) of (Some e, Some ms) \<Rightarrow> e \<noteq> '''' \<and> e \<in> set ms | _ \<Rightarrow> False)
     else False)"

definition isStaffHoliday :: "(string \<Rightarrow> string list option) \<Rightarrow> HolidayRow list \<Rightarrow> string \<Rightarrow> bool \<Rightarrow> string option \<Rightarrow> bool" where
  "isStaffHoliday groups rows day teaching eid =
    (let here = filter (\<lambda>h. ho_from h \<le> day \<and> day \<le> ho_to h \<and> appliesToStaff groups (ho_applies h) teaching eid) rows in
     here \<noteq> [] \<and> \<not> list_ex (\<lambda>h. ho_kind h = ''working_day'') here)"

text \<open>What the checker loads: the rows of the month, who teaches, and the employee of a user.\<close>

record HolidayBook =
  hb_rows :: "HolidayRow list"
  hb_teachers :: "string list"
  hb_employee :: "(string \<times> string) list"
  hb_groups :: "string \<Rightarrow> string list option"

definition staffHolidayChecker :: "HolidayBook \<Rightarrow> string \<Rightarrow> string option \<Rightarrow> bool" where
  "staffHolidayChecker hb day uid =
    (case uid of None \<Rightarrow> isStaffHoliday (hb_groups hb) (hb_rows hb) day False None
     | Some u \<Rightarrow> if u = '''' then isStaffHoliday (hb_groups hb) (hb_rows hb) day False None
         else isStaffHoliday (hb_groups hb) (hb_rows hb) day (u \<in> set (hb_teachers hb)) (map_of (rev (hb_employee hb)) u))"

subsection \<open>The rules of a month\<close>

record LeavePolicy =
  po_half_day :: rat
  po_shift_starts :: int
  po_grace :: int
  po_late_marks :: rat
  po_late_half_day_after :: "int option"
  po_lop_on_absent :: bool
  po_lop_on_unpaid :: bool
  po_lop_on_quota :: bool
  po_rounding :: string
  po_max_per_month :: "rat option"

definition leave_policy :: "LeavePolicy option \<Rightarrow> 'a PayRules_scheme \<Rightarrow> LeavePolicy" where
  "leave_policy row rules =
    (let pol = (case row of Some p \<Rightarrow> p | None \<Rightarrow>
        \<lparr>po_half_day = 1/2, po_shift_starts = 540, po_grace = 10, po_late_marks = 3, po_late_half_day_after = None, po_lop_on_absent = True,
         po_lop_on_unpaid = True, po_lop_on_quota = True, po_rounding = ''half'', po_max_per_month = None\<rparr>) in
     if pr_late_rule rules = ''per_day'' then pol\<lparr>po_late_marks := of_int (pr_late_marks_per_day rules), po_late_half_day_after := None\<rparr> else pol)"

text \<open>A person with the work patterns they fall back through: their own, their department's, the default.\<close>

record WorkPattern =
  wp_starts :: "int option"
  wp_grace :: "int option"
  wp_days :: "int list option"

record StaffRow =
  sr_eid :: string
  sr_uid :: "string option"
  sr_patterns :: "WorkPattern option list"

fun first_set :: "'a option list \<Rightarrow> 'a option" where
  "first_set [] = None"
| "first_set (x # xs) = (case x of Some v \<Rightarrow> Some v | None \<Rightarrow> first_set xs)"

definition pattern_column :: "(WorkPattern \<Rightarrow> 'a option) \<Rightarrow> StaffRow \<Rightarrow> 'a option" where
  "pattern_column f r = first_set (map (\<lambda>p. case p of None \<Rightarrow> None | Some w \<Rightarrow> f w) (sr_patterns r))"

record Shift =
  sf_uid :: "string option"
  sf_startsAt :: int
  sf_grace :: int
  sf_workingDays :: "int list"

definition shift_of :: "LeavePolicy \<Rightarrow> StaffRow \<Rightarrow> Shift" where
  "shift_of pol r =
    \<lparr>sf_uid = sr_uid r,
     sf_startsAt = (case pattern_column wp_starts r of Some m \<Rightarrow> m | None \<Rightarrow> po_shift_starts pol),
     sf_grace = (case pattern_column wp_grace r of Some g \<Rightarrow> g | None \<Rightarrow> po_grace pol),
     sf_workingDays = (case pattern_column wp_days r of Some (d # ds) \<Rightarrow> d # ds | _ \<Rightarrow> [1, 2, 3, 4, 5, 6])\<rparr>"

definition daysInMonth :: "int \<Rightarrow> int \<Rightarrow> int" where
  "daysInMonth y m = (if m = 12 then days_of_civil (y + 1) 1 1 else days_of_civil y (m + 1) 1) - days_of_civil y m 1"

definition isodow :: "string \<Rightarrow> int" where
  "isodow day = (let dow = getUTCDay (date_day day * 86400000) in if dow = 0 then 7 else dow)"

definition off_day :: "HolidayBook \<Rightarrow> Shift \<Rightarrow> string \<Rightarrow> bool" where
  "off_day hb sh day \<longleftrightarrow> isodow day \<notin> set (sf_workingDays sh) \<or> staffHolidayChecker hb day (sf_uid sh)"

definition day_of_month :: "int \<Rightarrow> int \<Rightarrow> int \<Rightarrow> string" where
  "day_of_month y m d = js_int y @ ''-'' @ padStart 2 (CHR ''0'') (js_int m) @ ''-'' @ padStart 2 (CHR ''0'') (js_int d)"

definition expected_days :: "HolidayBook \<Rightarrow> Shift \<Rightarrow> int \<Rightarrow> int \<Rightarrow> int" where
  "expected_days hb sh y m = int (length (filter (\<lambda>d. \<not> off_day hb sh (day_of_month y m d)) [1..daysInMonth y m]))"

subsection \<open>Leave past its quota\<close>

record LeaveDay =
  ld_eid :: string
  ld_date :: string
  ld_half :: bool
  ld_type :: string
  ld_paid :: "bool option"
  ld_entitled :: "rat option"
  ld_annual :: "rat option"

definition leave_weight :: "LeaveDay \<Rightarrow> rat" where
  "leave_weight l = (if ld_half l then 1/2 else 1)"

definition leave_quota :: "LeaveDay \<Rightarrow> rat option" where
  "leave_quota l = (case ld_entitled l of Some q \<Rightarrow> Some q | None \<Rightarrow> ld_annual l)"

text \<open>The days used so far by person and type, and the days past the quota by person and date.\<close>

fun leave_excess :: "LeaveDay list \<Rightarrow> (string \<times> string \<rightharpoonup> rat) \<Rightarrow> (string \<times> string \<rightharpoonup> rat) \<Rightarrow> (string \<times> string \<rightharpoonup> rat)" where
  "leave_excess [] used ex = ex"
| "leave_excess (l # ls) used ex =
    (let key = (ld_eid l, ld_type l); d = leave_weight l; c2 = fl ((case used key of None \<Rightarrow> 0 | Some c \<Rightarrow> c) + d);
         ex' = (case (ld_paid l \<noteq> Some False, leave_quota l) of
                  (True, Some quota) \<Rightarrow> ex((ld_eid l, ld_date l) \<mapsto> max 0 (min d (fl (c2 - quota)))) | _ \<Rightarrow> ex)
     in leave_excess ls (used(key \<mapsto> c2)) ex')"

subsection \<open>The marks of the month\<close>

record Mark =
  mk_eid :: string
  mk_date :: string
  mk_status :: string
  mk_check_in :: "int option"
  mk_half :: bool
  mk_paid :: "bool option"

record Tally =
  ta_charged :: rat
  ta_marks :: int
  ta_holidayWork :: int
  ta_absent :: rat
  ta_half :: int
  ta_unpaid :: rat
  ta_lateDates :: "string list"

definition no_tally :: Tally where
  "no_tally = \<lparr>ta_charged = 0, ta_marks = 0, ta_holidayWork = 0, ta_absent = 0, ta_half = 0, ta_unpaid = 0, ta_lateDates = []\<rparr>"

definition PERMISSION_MINUTES :: int where "PERMISSION_MINUTES = 60"

definition WORKED :: "string list" where "WORKED = [''present'', ''late'', ''permission'', ''on_duty'']"

text \<open>Minutes late on the clock of India; \<open>None\<close> counts as 0 wherever it is compared.\<close>

definition late_minutes :: "Shift \<Rightarrow> Mark \<Rightarrow> int" where
  "late_minutes sh m =
    (case mk_check_in m of None \<Rightarrow> 0
     | Some t \<Rightarrow> let ist = t + 19800000 in max 0 (getUTCHours ist * 60 + getUTCMinutes ist - sf_startsAt sh))"

definition very_late :: "LeavePolicy \<Rightarrow> Shift \<Rightarrow> Mark \<Rightarrow> bool" where
  "very_late pol sh m = (case po_late_half_day_after pol of None \<Rightarrow> False | Some n \<Rightarrow> n \<le> late_minutes sh m)"

definition charge_of :: "LeavePolicy \<Rightarrow> Shift \<Rightarrow> rat \<Rightarrow> Mark \<Rightarrow> rat" where
  "charge_of pol sh quotaExcess m =
    (if mk_status m = ''absent'' then (if po_lop_on_absent pol then 1 else 0)
     else if mk_status m = ''half_day'' then po_half_day pol
     else if mk_status m = ''leave'' then
       (if po_lop_on_unpaid pol \<and> mk_paid m \<noteq> Some True then (if mk_half m then po_half_day pol else 1)
        else if po_lop_on_quota pol then quotaExcess else 0)
     else if very_late pol sh m then po_half_day pol
     else 0)"

definition late_mark :: "LeavePolicy \<Rightarrow> Shift \<Rightarrow> Mark \<Rightarrow> bool" where
  "late_mark pol sh m =
    (if mk_status m \<in> set [''absent'', ''half_day'', ''leave'', ''holiday'', ''week_off''] then False
     else if very_late pol sh m then False
     else if mk_status m = ''permission'' then PERMISSION_MINUTES < late_minutes sh m
     else mk_status m = ''late'' \<or> sf_grace sh < late_minutes sh m)"

definition count_mark :: "LeavePolicy \<Rightarrow> Shift \<Rightarrow> rat \<Rightarrow> Mark \<Rightarrow> Tally \<Rightarrow> Tally" where
  "count_mark pol sh quotaExcess m t =
    (let c = charge_of pol sh quotaExcess m; lm = late_mark pol sh m in
     t\<lparr>ta_charged := fl (ta_charged t + c), ta_marks := ta_marks t + (if lm then 1 else 0),
       ta_absent := (if mk_status m = ''absent'' \<and> 0 < c then fl (ta_absent t + c) else ta_absent t),
       ta_half := (if mk_status m = ''half_day'' \<and> 0 < c then ta_half t + 1 else ta_half t),
       ta_unpaid := (if mk_status m = ''leave'' \<and> 0 < c then fl (ta_unpaid t + c) else ta_unpaid t),
       ta_lateDates := (if lm then ta_lateDates t @ [mk_date m] else ta_lateDates t)\<rparr>)"

text \<open>What a month is worked out from.\<close>

record Month_in =
  mi_year :: int
  mi_month :: int
  mi_policy :: "LeavePolicy option"
  mi_staff :: "StaffRow list"
  mi_book :: HolidayBook
  mi_leave :: "LeaveDay list"
  mi_marks :: "Mark list"

definition shifts :: "LeavePolicy \<Rightarrow> StaffRow list \<Rightarrow> (string \<rightharpoonup> Shift)" where
  "shifts pol rows = map_of (rev (map (\<lambda>r. (sr_eid r, shift_of pol r)) rows))"

definition tally_at :: "(string \<rightharpoonup> Tally) \<Rightarrow> string \<Rightarrow> Tally" where
  "tally_at tally eid = (case tally eid of None \<Rightarrow> no_tally | Some t \<Rightarrow> t)"

definition tally_mark :: "LeavePolicy \<Rightarrow> (string \<rightharpoonup> Shift) \<Rightarrow> HolidayBook \<Rightarrow> (string \<times> string \<rightharpoonup> rat) \<Rightarrow> Mark \<Rightarrow> (string \<rightharpoonup> Tally) \<Rightarrow> (string \<rightharpoonup> Tally)" where
  "tally_mark pol shift hb ex m tally =
    (case shift (mk_eid m) of None \<Rightarrow> tally
     | Some sh \<Rightarrow>
        let t = tally_at tally (mk_eid m) in
        if off_day hb sh (mk_date m) then
          (if mk_status m \<in> set WORKED then tally(mk_eid m \<mapsto> t\<lparr>ta_holidayWork := ta_holidayWork t + 1\<rparr>) else tally)
        else tally(mk_eid m \<mapsto> count_mark pol sh (case ex (mk_eid m, mk_date m) of None \<Rightarrow> 0 | Some x \<Rightarrow> x) m t))"

record LopWhy =
  wy_holidays_worked :: int
  wy_late_marks :: int
  wy_free_leave_used :: rat
  wy_absent_days :: rat
  wy_half_days :: int
  wy_unpaid_leave_days :: rat
  wy_late_dates :: "string list"

record LopRow =
  lo_days :: rat
  lo_expected :: int
  lo_why :: "LopWhy option"

definition lop_days :: "LeavePolicy \<Rightarrow> rat \<Rightarrow> int \<Rightarrow> rat \<Rightarrow> int \<Rightarrow> rat" where
  "lop_days pol free_days nDays charged marks =
    (let free = min free_days charged;
         per = (if po_late_marks pol = 0 then 3 else po_late_marks pol);
         gross = fl (fl (charged - free) + of_int \<lfloor>fl (of_int marks / per)\<rfloor>);
         v0 = (if po_rounding pol = ''up'' then of_int \<lceil>gross\<rceil> else if po_rounding pol = ''half'' then of_int (js_round (fl (gross * 2))) / 2 else gross);
         v1 = (case po_max_per_month pol of None \<Rightarrow> v0 | Some mx \<Rightarrow> min v0 mx)
     in toFixed2 (min v1 (of_int nDays)))"

definition lop_row :: "LeavePolicy \<Rightarrow> rat \<Rightarrow> int \<Rightarrow> int \<Rightarrow> Tally \<Rightarrow> LopRow" where
  "lop_row pol free_days nDays expected t =
    \<lparr>lo_days = lop_days pol free_days nDays (ta_charged t) (ta_marks t), lo_expected = expected,
     lo_why = Some \<lparr>wy_holidays_worked = ta_holidayWork t, wy_late_marks = ta_marks t, wy_free_leave_used = min free_days (ta_charged t),
       wy_absent_days = ta_absent t, wy_half_days = ta_half t, wy_unpaid_leave_days = ta_unpaid t, wy_late_dates = sort (ta_lateDates t)\<rparr>\<rparr>"

definition lopRegister :: "'a PayRules_scheme \<Rightarrow> Month_in \<Rightarrow> (string \<rightharpoonup> LopRow)" where
  "lopRegister rules mi =
    (let pol = leave_policy (mi_policy mi) rules; shift = shifts pol (mi_staff mi); n = daysInMonth (mi_year mi) (mi_month mi);
         ex = leave_excess (mi_leave mi) Map.empty Map.empty;
         tally = fold (tally_mark pol shift (mi_book mi) ex) (mi_marks mi) Map.empty
     in (\<lambda>eid. case shift eid of None \<Rightarrow> None
         | Some sh \<Rightarrow> (let e = expected_days (mi_book mi) sh (mi_year mi) (mi_month mi) in
             case tally eid of Some t \<Rightarrow> Some (lop_row pol (pr_free_leave_days rules) n e t)
             | None \<Rightarrow> Some \<lparr>lo_days = 0, lo_expected = e, lo_why = None\<rparr>)))"

end
