(* ===== verification/LopProps.thy ===== *)
theory LopProps
  imports LossOfPay
begin

text \<open>
  What the register of loss of pay promises: the days lie between none and the month, under the
  school's maximum, and never fall when more is charged; nothing marked on a day off cuts pay; and
  the days past a leave quota add up to what was taken beyond it.
\<close>

subsection \<open>Rounding of the days\<close>

lemma toFixed2_mono:
  assumes "x \<le> y"
  shows "toFixed2 x \<le> toFixed2 y"
proof -
  let ?h = "\<lambda>x :: rat. if 0 \<le> x then \<lfloor>x * 100 + 1/2\<rfloor> else - \<lfloor>- x * 100 + 1/2\<rfloor>"
  have "?h x \<le> ?h y"
  proof (cases "0 \<le> x")
    case True
    with assms have "0 \<le> y" "x * 100 + 1/2 \<le> y * 100 + 1/2" by simp_all
    with True show ?thesis by (simp add: floor_mono)
  next
    case False
    show ?thesis
    proof (cases "0 \<le> y")
      case True
      have "0 \<le> \<lfloor>- x * 100 + 1/2\<rfloor>" using False by simp
      then have "- \<lfloor>- x * 100 + 1/2\<rfloor> \<le> 0" by simp
      also have "0 \<le> \<lfloor>y * 100 + 1/2\<rfloor>" using True by simp
      finally show ?thesis using True False by simp
    next
      case False': False
      have "- y * 100 + 1/2 \<le> - x * 100 + 1/2" using assms by simp
      then have "\<lfloor>- y * 100 + 1/2\<rfloor> \<le> \<lfloor>- x * 100 + 1/2\<rfloor>" by (rule floor_mono)
      with False False' show ?thesis by simp
    qed
  qed
  then have "(of_int (?h x) :: rat) / 100 \<le> of_int (?h y) / 100" by (simp add: divide_right_mono)
  then show ?thesis unfolding toFixed2_def by (rule fl_mono)
qed

lemma toFixed2_of_int [simp]: "0 \<le> n \<Longrightarrow> n < 2 ^ 40 \<Longrightarrow> toFixed2 (of_int n) = of_int n"
proof -
  assume n: "0 \<le> n" "n < 2 ^ 40"
  have "\<lfloor>of_int n * 100 + (1/2 :: rat)\<rfloor> = n * 100"
    by (rule floor_unique) (simp_all add: field_simps)
  then have "toFixed2 (of_int n) = fl (of_int (n * 100) / 100)" using n by (simp add: toFixed2_def)
  also have "(of_int (n * 100) / 100 :: rat) = of_int n" by simp
  finally show ?thesis using n by simp
qed

lemma toFixed2_0 [simp]: "toFixed2 0 = 0"
  using toFixed2_of_int [of 0] by simp

subsection \<open>The days of a tally\<close>

definition per_day :: "LeavePolicy \<Rightarrow> rat" where
  "per_day pol = (if po_late_marks pol = 0 then 3 else po_late_marks pol)"

definition round_days :: "LeavePolicy \<Rightarrow> rat \<Rightarrow> rat" where
  "round_days pol g = (if po_rounding pol = ''up'' then of_int \<lceil>g\<rceil> else if po_rounding pol = ''half'' then of_int (js_round (fl (g * 2))) / 2 else g)"

lemma lop_days_alt:
  "lop_days pol free_days n charged marks =
    (let v = round_days pol (fl (fl (charged - min free_days charged) + of_int \<lfloor>fl (of_int marks / per_day pol)\<rfloor>)) in
     toFixed2 (min (case po_max_per_month pol of None \<Rightarrow> v | Some mx \<Rightarrow> min v mx) (of_int n)))"
  by (simp add: lop_days_def round_days_def per_day_def Let_def)

lemma round_days_mono: "g \<le> g' \<Longrightarrow> round_days pol g \<le> round_days pol g'"
proof -
  assume g: "g \<le> g'"
  have "fl (g * 2) + 1/2 \<le> fl (g' * 2) + 1/2" using fl_mono [of "g * 2" "g' * 2"] g by simp
  then have "js_round (fl (g * 2)) \<le> js_round (fl (g' * 2))" unfolding js_round_def by (rule floor_mono)
  then have "(of_int (js_round (fl (g * 2))) :: rat) \<le> of_int (js_round (fl (g' * 2)))" by simp
  with g ceiling_mono [OF g] show ?thesis by (simp add: round_days_def divide_right_mono)
qed

lemma round_days_0 [simp]: "round_days pol 0 = 0"
proof -
  have "\<lfloor>1 / 2 :: rat\<rfloor> = 0" by (rule floor_unique) simp_all
  then show ?thesis by (simp add: round_days_def js_round_def)
qed

text \<open>
  Charging more, or more late marks, never costs fewer days.
\<close>
lemma lop_days_mono:
  assumes "charged \<le> charged'" "marks \<le> marks'" "0 \<le> po_late_marks pol"
  shows "lop_days pol free_days n charged marks \<le> lop_days pol free_days n charged' marks'"
proof -
  have "0 \<le> per_day pol" using assms(3) by (simp add: per_day_def)
  then have "(of_int marks / per_day pol :: rat) \<le> of_int marks' / per_day pol" using assms(2) by (intro divide_right_mono) simp_all
  then have "\<lfloor>fl (of_int marks / per_day pol)\<rfloor> \<le> \<lfloor>fl (of_int marks' / per_day pol)\<rfloor>" by (intro floor_mono fl_mono)
  moreover have "fl (charged - min free_days charged) \<le> fl (charged' - min free_days charged')" using assms(1) by (intro fl_mono) auto
  ultimately have "fl (charged - min free_days charged) + of_int \<lfloor>fl (of_int marks / per_day pol)\<rfloor>
      \<le> fl (charged' - min free_days charged') + of_int \<lfloor>fl (of_int marks' / per_day pol)\<rfloor>" by (intro add_mono) simp_all
  from round_days_mono [OF fl_mono [OF this], of pol] show ?thesis
    unfolding lop_days_alt Let_def by (intro toFixed2_mono) (auto split: option.splits)
qed

lemma lop_days_none:
  assumes "0 \<le> free_days" "0 \<le> n" "\<And>mx. po_max_per_month pol = Some mx \<Longrightarrow> 0 \<le> mx"
  shows "lop_days pol free_days n 0 0 = 0"
  using assms by (auto simp: lop_days_alt Let_def min_def split: option.splits)

lemma lop_days_le:
  assumes "0 \<le> n" "n < 2 ^ 40"
  shows "lop_days pol free_days n charged marks \<le> of_int n"
    and "po_max_per_month pol = Some mx \<Longrightarrow> lop_days pol free_days n charged marks \<le> toFixed2 mx"
proof -
  have "lop_days pol free_days n charged marks \<le> toFixed2 (of_int n)"
    unfolding lop_days_alt Let_def by (rule toFixed2_mono) simp
  then show "lop_days pol free_days n charged marks \<le> of_int n" using assms by simp
  show "lop_days pol free_days n charged marks \<le> toFixed2 mx" if "po_max_per_month pol = Some mx"
    unfolding lop_days_alt Let_def using that by (intro toFixed2_mono) simp
qed

subsection \<open>The calendar\<close>

lemma div_pred:
  fixes r :: int
  assumes "0 < n"
  shows "(r - 1) div n \<le> r div n \<and> r div n \<le> (r - 1) div n + 1"
proof -
  have "r div n \<le> (r - 1 + n) div n" using assms by (intro zdiv_mono1) auto
  moreover have "(r - 1 + n) div n = (r - 1) div n + 1" using assms by simp
  moreover have "(r - 1) div n \<le> r div n" using assms by (intro zdiv_mono1) auto
  ultimately show ?thesis by linarith
qed

lemma daysInMonth_bounds:
  assumes "1 \<le> m" "m \<le> 12"
  shows "27 \<le> daysInMonth y m \<and> daysInMonth y m \<le> 31"
proof -
  have feb: "27 \<le> daysInMonth y 2 \<and> daysInMonth y 2 \<le> 31"
  proof -
    define q r where "q = y div 400" and "r = y mod 400"
    have y: "y = 400 * q + r" "0 \<le> r" "r < 400" by (simp_all add: q_def r_def)
    show ?thesis
    proof (cases "r = 0")
      case True
      have "(y - 1) div 400 = q - 1" "(y - 1) mod 400 = 399"
        using int_div_pos_eq [of "y - 1" 400 "q - 1" 399] int_mod_pos_eq [of "y - 1" 400 "q - 1" 399] y(1) True by simp_all
      then show ?thesis using True y(1) by (simp add: daysInMonth_def days_of_civil_def Let_def)
    next
      case False
      have qr: "y div 400 = q" "y mod 400 = r" by (simp_all add: q_def r_def)
      have "y - 1 = 400 * q + (r - 1)" "0 \<le> r - 1" "r - 1 < 400" using y False by linarith+
      from int_div_pos_eq [OF this] int_mod_pos_eq [OF this] qr
      have p: "(y - 1) div 400 = q" "(y - 1) mod 400 = r - 1" "y div 400 = q" "y mod 400 = r" by blast+
      from div_pred [of 4 r] div_pred [of 100 r] show ?thesis by (simp add: daysInMonth_def days_of_civil_def Let_def p)
    qed
  qed
  from assms have "m = 1 \<or> m = 2 \<or> m = 3 \<or> m = 4 \<or> m = 5 \<or> m = 6 \<or> m = 7 \<or> m = 8 \<or> m = 9 \<or> m = 10 \<or> m = 11 \<or> m = 12" by presburger
  then show ?thesis using feb by (elim disjE) (simp_all add: daysInMonth_def days_of_civil_def Let_def)
qed

subsection \<open>A day off changes nothing\<close>

definition same_cut :: "(string \<rightharpoonup> Tally) \<Rightarrow> (string \<rightharpoonup> Tally) \<Rightarrow> bool" where
  "same_cut T T' \<longleftrightarrow> (\<forall>e. ta_charged (tally_at T e) = ta_charged (tally_at T' e) \<and> ta_marks (tally_at T e) = ta_marks (tally_at T' e))"

lemma same_cut_refl: "same_cut T T"
  by (simp add: same_cut_def)

lemma tally_at_upd: "tally_at (T(e \<mapsto> t)) e' = (if e' = e then t else tally_at T e')"
  by (simp add: tally_at_def)

lemma count_mark_cut:
  "ta_charged (count_mark pol sh x m t) = fl (ta_charged t + charge_of pol sh x m)"
  "ta_marks (count_mark pol sh x m t) = ta_marks t + (if late_mark pol sh m then 1 else 0)"
  by (simp_all add: count_mark_def Let_def)

lemma tally_mark_same:
  "same_cut T T' \<Longrightarrow> same_cut (tally_mark pol shift hb ex m T) (tally_mark pol shift hb ex m T')"
  by (auto simp: same_cut_def tally_mark_def Let_def tally_at_upd count_mark_cut split: option.splits)

text \<open>A mark on a day the person is expected, or of nobody on file.\<close>

definition working_mark :: "(string \<rightharpoonup> Shift) \<Rightarrow> HolidayBook \<Rightarrow> Mark \<Rightarrow> bool" where
  "working_mark shift hb m \<longleftrightarrow> (case shift (mk_eid m) of None \<Rightarrow> True | Some sh \<Rightarrow> \<not> off_day hb sh (mk_date m))"

lemma tally_mark_off: "\<not> working_mark shift hb m \<Longrightarrow> same_cut T T' \<Longrightarrow> same_cut (tally_mark pol shift hb ex m T) T'"
  by (auto simp: working_mark_def same_cut_def tally_mark_def Let_def tally_at_upd split: option.splits)

lemma fold_tally_off:
  "same_cut T T' \<Longrightarrow> same_cut (fold (tally_mark pol shift hb ex) ms T) (fold (tally_mark pol shift hb ex) (filter (working_mark shift hb) ms) T')"
  by (induction ms arbitrary: T T') (auto intro: tally_mark_same tally_mark_off)

definition rule_policy :: "'a PayRules_scheme \<Rightarrow> Month_in \<Rightarrow> LeavePolicy" where
  "rule_policy rules mi = leave_policy (mi_policy mi) rules"

definition month_days :: "Month_in \<Rightarrow> int" where
  "month_days mi = daysInMonth (mi_year mi) (mi_month mi)"

definition month_tally :: "'a PayRules_scheme \<Rightarrow> Month_in \<Rightarrow> (string \<rightharpoonup> Tally)" where
  "month_tally rules mi = fold (tally_mark (rule_policy rules mi) (shifts (rule_policy rules mi) (mi_staff mi)) (mi_book mi)
     (leave_excess (mi_leave mi) Map.empty Map.empty)) (mi_marks mi) Map.empty"

text \<open>What a school may set: no negative allowance, fraction or maximum, and a month of the year.\<close>

definition sane_month :: "'a PayRules_scheme \<Rightarrow> Month_in \<Rightarrow> bool" where
  "sane_month rules mi \<longleftrightarrow> 0 \<le> pr_free_leave_days rules \<and> 1 \<le> mi_month mi \<and> mi_month mi \<le> 12
     \<and> 0 \<le> po_half_day (rule_policy rules mi) \<and> 0 \<le> po_late_marks (rule_policy rules mi)
     \<and> (case po_max_per_month (rule_policy rules mi) of None \<Rightarrow> True | Some mx \<Rightarrow> 0 \<le> mx)"

lemma sane_days: "sane_month rules mi \<Longrightarrow> 0 \<le> month_days mi \<and> month_days mi < 2 ^ 40"
  using daysInMonth_bounds [of "mi_month mi" "mi_year mi"] by (auto simp: sane_month_def month_days_def)

lemma sane_none:
  assumes "sane_month rules mi"
  shows "lop_days (rule_policy rules mi) (pr_free_leave_days rules) (month_days mi) 0 0 = 0"
  using assms sane_days [OF assms] by (intro lop_days_none) (auto simp: sane_month_def)

text \<open>Nothing counted is ever negative.\<close>

definition ran_ok :: "('k \<rightharpoonup> rat) \<Rightarrow> bool" where
  "ran_ok ex \<longleftrightarrow> (\<forall>k. 0 \<le> (case ex k of None \<Rightarrow> 0 | Some x \<Rightarrow> x))"

lemma ran_ok_upd: "ran_ok ex \<Longrightarrow> 0 \<le> x \<Longrightarrow> ran_ok (ex(k \<mapsto> x))"
  by (simp add: ran_ok_def)

lemma excess_nonneg: "ran_ok ex \<Longrightarrow> ran_ok (leave_excess ls used ex)"
proof (induction ls arbitrary: used ex)
  case (Cons l ls)
  then show ?case by (auto simp: Let_def intro!: Cons.IH ran_ok_upd split: option.splits bool.splits)
qed simp

lemma charge_nonneg: "0 \<le> po_half_day pol \<Longrightarrow> 0 \<le> x \<Longrightarrow> 0 \<le> charge_of pol sh x m"
  by (simp add: charge_of_def)

definition tally_ok :: "(string \<rightharpoonup> Tally) \<Rightarrow> bool" where
  "tally_ok T \<longleftrightarrow> (\<forall>e. 0 \<le> ta_charged (tally_at T e) \<and> 0 \<le> ta_marks (tally_at T e))"

lemma tally_mark_ok:
  assumes "0 \<le> po_half_day pol" "ran_ok ex" "tally_ok T"
  shows "tally_ok (tally_mark pol shift hb ex m T)"
proof (cases "shift (mk_eid m)")
  case None
  with assms(3) show ?thesis by (simp add: tally_mark_def)
next
  case (Some sh)
  let ?x = "case ex (mk_eid m, mk_date m) of None \<Rightarrow> 0 | Some x \<Rightarrow> x" and ?t = "tally_at T (mk_eid m)"
  have t: "0 \<le> ta_charged ?t" "0 \<le> ta_marks ?t" using assms(3) by (simp_all add: tally_ok_def)
  have "0 \<le> charge_of pol sh ?x m" using assms(2) by (intro charge_nonneg [OF assms(1)]) (simp add: ran_ok_def)
  then have "0 \<le> ta_charged (count_mark pol sh ?x m ?t) \<and> 0 \<le> ta_marks (count_mark pol sh ?x m ?t)"
    using t by (simp add: count_mark_cut fl_nonneg)
  with assms(3) t show ?thesis unfolding tally_ok_def by (simp add: tally_mark_def Some Let_def tally_at_upd)
qed

lemma tally_nonneg:
  assumes "sane_month rules mi"
  shows "0 \<le> ta_charged (tally_at (month_tally rules mi) e) \<and> 0 \<le> ta_marks (tally_at (month_tally rules mi) e)"
proof -
  have run: "tally_ok (fold (tally_mark pol shift hb ex) ms T)"
    if "0 \<le> po_half_day pol" "ran_ok ex" "tally_ok T" for pol shift hb ex ms T
    using that(3)
  proof (induction ms arbitrary: T)
    case (Cons m ms)
    from Cons.IH [OF tally_mark_ok [OF that(1,2) Cons.prems]] show ?case by simp
  qed simp
  have "tally_ok Map.empty" by (simp add: tally_ok_def tally_at_def no_tally_def)
  moreover have "ran_ok (leave_excess (mi_leave mi) Map.empty Map.empty)" by (rule excess_nonneg) (simp add: ran_ok_def)
  moreover have "0 \<le> po_half_day (rule_policy rules mi)" using assms by (simp add: sane_month_def)
  ultimately have "tally_ok (month_tally rules mi)" unfolding month_tally_def by (intro run)
  then show ?thesis by (simp add: tally_ok_def)
qed

text \<open>
  The days of everybody on file, from their tally; who has none has none to lose.
\<close>
lemma register_days:
  assumes "sane_month rules mi"
  shows "map_option lo_days (lopRegister rules mi eid) =
    (if shifts (rule_policy rules mi) (mi_staff mi) eid = None then None
     else Some (lop_days (rule_policy rules mi) (pr_free_leave_days rules) (month_days mi)
        (ta_charged (tally_at (month_tally rules mi) eid)) (ta_marks (tally_at (month_tally rules mi) eid))))"
  using sane_none [OF assms]
  by (auto simp: lopRegister_def Let_def lop_row_def tally_at_def no_tally_def month_tally_def rule_policy_def month_days_def split: option.splits)

subsection \<open>The days past a quota\<close>

lemma leave_excess_other:
  "k \<notin> (\<lambda>l. (ld_eid l, ld_date l)) ` set ls \<Longrightarrow> leave_excess ls used ex k = ex k"
  by (induction ls used ex rule: leave_excess.induct) (auto simp: Let_def split: option.splits bool.splits)

text \<open>Paid leave of one person and one type, on different days.\<close>

definition one_leave :: "string \<Rightarrow> string \<Rightarrow> rat \<Rightarrow> LeaveDay list \<Rightarrow> bool" where
  "one_leave eid type quota ls \<longleftrightarrow> distinct (map ld_date ls)
     \<and> list_all (\<lambda>l. ld_eid l = eid \<and> ld_type l = type \<and> ld_paid l \<noteq> Some False \<and> leave_quota l = Some quota) ls"

definition leave_taken :: "LeaveDay list \<Rightarrow> rat" where
  "leave_taken ls = sum_list (map leave_weight ls)"

lemma half_fl: "\<bar>m\<bar> < 2 ^ 53 \<Longrightarrow> fl (of_int m / 2) = of_int m / 2"
  using fl_grid [of m 1] by simp

lemma weight_half: "leave_weight l = of_int (if ld_half l then 1 else 2) / 2"
  by (simp add: leave_weight_def)

definition past_quota :: "(string \<times> string \<rightharpoonup> rat) \<Rightarrow> LeaveDay \<Rightarrow> rat" where
  "past_quota ex l = (case ex (ld_eid l, ld_date l) of None \<Rightarrow> 0 | Some x \<Rightarrow> x)"

lemma one_day_past:
  fixes w c quota :: rat
  assumes "0 \<le> w"
  shows "max 0 (min w (c + w - quota)) = max 0 (c + w - quota) - max 0 (c - quota)"
  using assms by (auto simp: max_def min_def)

lemma leave_excess_sum:
  assumes "one_leave eid type quota ls" "quota = of_int k / 2" "\<bar>k\<bar> < 2 ^ 50"
    "(case used (eid, type) of None \<Rightarrow> 0 | Some x \<Rightarrow> x) = of_int j / 2" "0 \<le> j" "j + 2 * int (length ls) < 2 ^ 50"
  shows "(\<Sum>l\<leftarrow>ls. past_quota (leave_excess ls used ex) l) = max 0 (of_int j / 2 + leave_taken ls - quota) - max 0 (of_int j / 2 - quota)"
  using assms(1,4-)
proof (induction ls arbitrary: used ex j)
  case (Cons l ls)
  let ?w = "if ld_half l then 1 else 2 :: int"
  have l: "ld_eid l = eid" "ld_type l = type" "ld_paid l \<noteq> Some False" "leave_quota l = Some quota" "ld_date l \<notin> ld_date ` set ls"
    and ls: "one_leave eid type quota ls" "\<And>x. x \<in> set ls \<Longrightarrow> ld_eid x = eid"
    using Cons.prems(1) by (auto simp: one_leave_def list_all_iff)
  have w: "leave_weight l = of_int ?w / 2" "0 \<le> leave_weight l" by (simp_all add: leave_weight_def)
  have j': "0 \<le> j + ?w" "j + ?w + 2 * int (length ls) < 2 ^ 50" using Cons.prems(3,4) by auto
  obtain C :: rat where C: "C = of_int (j + ?w) / 2" by blast
  have c2: "fl (of_int j / 2 + leave_weight l) = C"
    using half_fl [of "j + ?w"] j' by (simp add: C w(1) add_divide_distrib)
  have x: "fl (C - quota) = of_int j / 2 + leave_weight l - quota"
    using half_fl [of "j + ?w - k"] j' assms(3) by (simp add: C w(1) assms(2) add_divide_distrib diff_divide_distrib)
  define used' where "used' = used((eid, type) \<mapsto> C)"
  define ex' where "ex' = ex((eid, ld_date l) \<mapsto> max 0 (min (leave_weight l) (of_int j / 2 + leave_weight l - quota)))"
  have rest: "leave_excess (l # ls) used ex = leave_excess ls used' ex'"
    using l(3) by (simp only: leave_excess.simps Let_def l(1,2,4) Cons.prems(2) c2 used'_def ex'_def) (simp add: x)
  have "(eid, ld_date l) \<notin> (\<lambda>x. (ld_eid x, ld_date x)) ` set ls" using l(5) by auto
  then have here: "past_quota (leave_excess ls used' ex') l = max 0 (min (leave_weight l) (of_int j / 2 + leave_weight l - quota))"
    using leave_excess_other [of "(eid, ld_date l)" ls used' ex'] by (simp add: past_quota_def l(1) ex'_def)
  have Cw: "of_int (j + ?w) / 2 = of_int j / 2 + leave_weight l" by (simp add: w(1) add_divide_distrib)
  have "(\<Sum>x\<leftarrow>ls. past_quota (leave_excess ls used' ex') x)
      = max 0 (of_int (j + ?w) / 2 + leave_taken ls - quota) - max 0 (of_int (j + ?w) / 2 - quota)"
    by (rule Cons.IH [OF ls(1) _ j']) (simp add: used'_def C)
  then have "(\<Sum>x\<leftarrow>ls. past_quota (leave_excess ls used' ex') x)
      = max 0 (of_int j / 2 + (leave_weight l + leave_taken ls) - quota) - max 0 (of_int j / 2 + leave_weight l - quota)"
    unfolding Cw add.assoc .
  moreover have "past_quota (leave_excess ls used' ex') l = max 0 (of_int j / 2 + leave_weight l - quota) - max 0 (of_int j / 2 - quota)"
    unfolding here by (rule one_day_past [OF w(2)])
  moreover have "leave_taken (l # ls) = leave_weight l + leave_taken ls" by (simp add: leave_taken_def)
  ultimately show ?case unfolding rest by simp
qed (simp add: leave_taken_def)

subsection \<open>Properties\<close>

text \<open>
  C16. The days of pay somebody loses lie between none and the days of the month, under the school's
  maximum where there is one, and had they been charged more, or been late more often, they would not
  have lost less.
\<close>
theorem lop_within_month:
  assumes "sane_month rules mi" "lopRegister rules mi eid = Some r"
  shows "0 \<le> lo_days r \<and> lo_days r \<le> of_int (month_days mi)
    \<and> (po_max_per_month (rule_policy rules mi) = Some mx \<longrightarrow> lo_days r \<le> toFixed2 mx)
    \<and> (ta_charged (tally_at (month_tally rules mi) eid) \<le> charged \<and> ta_marks (tally_at (month_tally rules mi) eid) \<le> marks
       \<longrightarrow> lo_days r \<le> lop_days (rule_policy rules mi) (pr_free_leave_days rules) (month_days mi) charged marks)"
proof -
  let ?t = "tally_at (month_tally rules mi) eid" and ?pol = "rule_policy rules mi" and ?n = "month_days mi"
  have r: "lo_days r = lop_days ?pol (pr_free_leave_days rules) ?n (ta_charged ?t) (ta_marks ?t)"
    using register_days [OF assms(1), of eid] assms(2) by (auto split: if_splits)
  have late: "0 \<le> po_late_marks ?pol" using assms(1) by (simp add: sane_month_def)
  have "0 \<le> ta_charged ?t \<and> 0 \<le> ta_marks ?t" using tally_nonneg [OF assms(1)] .
  with lop_days_mono [of 0 _ 0 _ ?pol "pr_free_leave_days rules" ?n] sane_none [OF assms(1)] late have "0 \<le> lo_days r" by (simp add: r)
  with lop_days_le sane_days [OF assms(1)] lop_days_mono [OF _ _ late] show ?thesis by (auto simp: r)
qed


text \<open>
  C18. The days charged past a quota add up: of paid leave of one type, day by day and half days among
  them, exactly what was taken beyond the quota is counted.
\<close>
theorem leave_past_quota_adds_up:
  assumes "one_leave eid type quota ls" "quota = of_int k / 2" "0 \<le> k" "k < 2 ^ 50" "2 * int (length ls) < 2 ^ 50"
  shows "(\<Sum>l\<leftarrow>ls. past_quota (leave_excess ls Map.empty Map.empty) l) = max 0 (leave_taken ls - quota)"
proof -
  have "max 0 (- quota) = 0" using assms(2,3) by (simp add: max_def)
  with leave_excess_sum [OF assms(1,2), of Map.empty 0 Map.empty] assms(3-5) show ?thesis by simp
qed

subsection \<open>A month of three people\<close>

text \<open>
  October 2026: the 2nd is a holiday for all, the 20th for the office only.  \<open>e1\<close> teaches, \<open>e2\<close> is in the
  office; both are absent on the 20th, \<open>e1\<close> is late three times, once on the holiday, and half a day
  of leave runs over the quota.  \<open>e3\<close> has no marks.
\<close>

definition lop_rules :: PayRules where
  "lop_rules = DEFAULT_RULES"

definition lop_mark :: "string \<Rightarrow> string \<Rightarrow> string \<Rightarrow> Mark" where
  "lop_mark e day st = \<lparr>mk_eid = e, mk_date = day, mk_status = st, mk_check_in = None, mk_half = False, mk_paid = Some True\<rparr>"

definition lop_leave :: "LeaveDay list" where
  "lop_leave = map (\<lambda>(day, half). \<lparr>ld_eid = ''e1'', ld_date = day, ld_half = half, ld_type = ''CL'', ld_paid = Some True, ld_entitled = Some 2, ld_annual = None\<rparr>)
     [(''2026-06-10'', False), (''2026-09-01'', False), (''2026-10-12'', True)]"

definition lop_month :: Month_in where
  "lop_month =
    \<lparr>mi_year = 2026, mi_month = 10, mi_policy = None,
     mi_staff = map (\<lambda>(e, u). \<lparr>sr_eid = e, sr_uid = Some u, sr_patterns = [None, None]\<rparr>) [(''e1'', ''u1''), (''e2'', ''u2''), (''e3'', ''u3'')],
     mi_book = \<lparr>hb_rows = [\<lparr>ho_from = ''2026-10-02'', ho_to = ''2026-10-02'', ho_applies = ''all'', ho_kind = ''holiday''\<rparr>,
         \<lparr>ho_from = ''2026-10-20'', ho_to = ''2026-10-20'', ho_applies = ''non_teaching'', ho_kind = ''holiday''\<rparr>],
       hb_teachers = [''u1''], hb_employee = [(''u1'', ''e1''), (''u2'', ''e2''), (''u3'', ''e3'')], hb_groups = Map.empty\<rparr>,
     mi_leave = lop_leave,
     mi_marks = [lop_mark ''e1'' ''2026-10-01'' ''late'', lop_mark ''e1'' ''2026-10-02'' ''late'', lop_mark ''e1'' ''2026-10-05'' ''late'',
       lop_mark ''e1'' ''2026-10-12'' ''leave'', lop_mark ''e1'' ''2026-10-20'' ''absent'', lop_mark ''e2'' ''2026-10-20'' ''absent'',
       lop_mark ''e1'' ''2026-10-21'' ''late'']\<rparr>"

definition lop_view :: "LopRow option \<Rightarrow> (rat \<times> int) option" where
  "lop_view r = map_option (\<lambda>r. (lo_days r, lo_expected r)) r"

lemma lop_demo: "lop_view (lopRegister lop_rules lop_month ''e1'') = Some (5 / 2, 26)"
  by code_simp

lemma lop_demo_row: "\<exists>r. lopRegister lop_rules lop_month ''e1'' = Some r \<and> lo_days r = 5 / 2"
  using lop_demo by (auto simp: lop_view_def)

lemma lop_sane: "sane_month lop_rules lop_month"
  by (simp add: sane_month_def rule_policy_def leave_policy_def lop_rules_def lop_month_def DEFAULT_RULES_def Let_def)

theorem lop_within_month_witness:
  "\<exists>r. lopRegister lop_rules lop_month ''e1'' = Some r \<and> lo_days r = 5 / 2 \<and> 0 \<le> lo_days r \<and> lo_days r \<le> of_int (month_days lop_month)"
proof -
  from lop_demo_row obtain r where r: "lopRegister lop_rules lop_month ''e1'' = Some r" "lo_days r = 5 / 2" by blast
  from lop_within_month [OF lop_sane r(1)] r show ?thesis by blast
qed


theorem leave_past_quota_adds_up_witness:
  "(\<Sum>l\<leftarrow>lop_leave. past_quota (leave_excess lop_leave Map.empty Map.empty) l) = 1 / 2"
proof -
  have "one_leave ''e1'' ''CL'' 2 lop_leave" by (simp add: one_leave_def lop_leave_def leave_quota_def)
  from leave_past_quota_adds_up [OF this, of 4] show ?thesis by (simp add: lop_leave_def leave_taken_def leave_weight_def)
qed

text \<open>Three days of leave a year, and what else was taken before the half day of October 12.\<close>

definition lop_three :: "(string \<times> bool) list \<Rightarrow> LeaveDay list" where
  "lop_three extra = map (\<lambda>(day, half). \<lparr>ld_eid = ''e1'', ld_date = day, ld_half = half, ld_type = ''CL'', ld_paid = Some True, ld_entitled = Some 3, ld_annual = None\<rparr>)
     ([(''2026-06-10'', False), (''2026-09-01'', False)] @ extra @ [(''2026-10-12'', True)])"

text \<open>
  The quota does look at days off: a leave marked on the holiday of October 2 uses up a day of it, and
  the half day after it, within the quota before, now costs half a day of pay.
\<close>
theorem leave_on_a_holiday_uses_the_quota:
  "lop_view (lopRegister lop_rules (lop_month\<lparr>mi_leave := lop_three []\<rparr>) ''e1'') = Some (2, 26)
   \<and> lop_view (lopRegister lop_rules (lop_month\<lparr>mi_leave := lop_three [(''2026-10-02'', False)]\<rparr>) ''e1'') = Some (5 / 2, 26)
   \<and> \<not> working_mark (shifts (rule_policy lop_rules lop_month) (mi_staff lop_month)) (mi_book lop_month) (lop_mark ''e1'' ''2026-10-02'' ''leave'')"
  by code_simp

end
