(* ===== verification/Spec2Isabelle.thy ===== *)
theory Spec2Isabelle
  imports SolverProps Bell Jobs Cron Money Numbering LedgerProps PayrollProps FineProps FormatProps OutboxProps BankProps PayoutProps RefundProps DraftProps LopProps
begin

text \<open>
  A verification library of a school ERP: of its server (\<open>worker/src\<close>, TypeScript on Cloudflare Workers,
  one SQLite database a school) and of the queue its screens keep when there is no connection
  (\<open>web/src/lib\<close>).  It models the parts in which the program decides something: who is placed where in a
  timetable, what a family owes, what a salary comes to, which bank entry a line stands for, who may
  release money, when a job is due, and when a write has already been done.

  \<^bold>\<open>The parts and how they work together.\<close>

  \<^item> Timetables.  \<open>Solver\<close> is \<open>routes/scheduling/solver.ts\<close>: the grid, the seeded jitter, requirement order,
    blockers, scores, greedy placement, repair, preflight and report, function by function.  \<open>Bell\<close> is
    \<open>bell.ts\<close>: which bell a class runs to and which periods of different bells overlap.  \<open>Drafts\<close> is the life
    of a draft (\<open>optimizer.ts\<close>, \<open>master.ts\<close>): from the tables to the generator's input, the draft kept, lessons
    placed by hand, publication over the live timetable.  \<open>SolverProofs\<close> couples the generator's indexes
    with the set of assignments they stand for; \<open>SolverProps\<close> and \<open>DraftProps\<close> hold the results.  The two
    meet in one contract, the locale \<open>time_overlap\<close>: the generator is proved once inside it, the bells
    interpret it (\<open>bell_grid\<close>), and the check of the hand edits is shown to speak of the same overlaps.
  \<^item> Fees.  \<open>Money\<close> (\<open>routes/fees/common.ts\<close>) reads and prints paise, dates, the financial year and the
    freshness of a money action; \<open>Numbering\<close> (\<open>numbering.ts\<close>) is the gapless receipt series under several
    cashiers at once; \<open>Ledger\<close> (\<open>counter.ts\<close>, \<open>corrections.ts\<close> and the triggers of \<open>common.ts\<close>) is collecting,
    allocating, clearing, bouncing, voiding, moving and the wallet, over invoices, payments, allocations
    and wallets, each handler as the batch of statements it writes; \<open>FineEngine\<close> (\<open>fee_engine.ts\<close>) is
    late fines and the versions of a fee structure; \<open>Refunds\<close> (\<open>refunds.ts\<close>) stands beside the books of
    \<open>Ledger\<close> and moves with them.  \<open>FileFormats\<close> (\<open>fileformats.ts\<close>) is what goes to and comes from banks:
    amounts, dates, CSV, statements, payout files, the Tally export.  \<open>Banking\<close> and \<open>Payouts\<close> are the two halves
    of \<open>banking.ts\<close>: reconciling a statement read by \<open>FileFormats\<close> with the entries of the books, and batches of
    payments put together by one person, released by another, written out as a file.
  \<^item> Salaries.  \<open>Payroll\<close> (\<open>routes/payroll.ts\<close>) is one payslip in the doubles the code computes with
    (\<open>Double\<close>), statutory deductions, advances, corrections, income tax, and the months' way from draft to
    published.  \<open>LossOfPay\<close> (\<open>lopRegister\<close> of the same file, \<open>hr/staff_holidays.ts\<close>) turns a month of attendance into
    the days a payslip is cut by.
  \<^item> Machinery.  \<open>Jobs\<close> (\<open>services/jobs.ts\<close>) and \<open>Cron\<close> (\<open>services/cron.ts\<close>) are the background work;
    \<open>Idempotency\<close> (\<open>idempotency.ts\<close>) is the middleware that runs a write once; \<open>Outbox\<close> (\<open>web/src/lib/outbox.ts\<close>,
    \<open>offline-policy.ts\<close>, \<open>send\<close> of \<open>api.ts\<close>) is the queue on the device that relies on it, and \<open>OutboxProps\<close>
    puts the two together.

  \<^bold>\<open>How state and operations correspond.\<close>  A table is a list of records in insertion order, with the columns
  the handlers read or write; a Map is a map or an association list; a request handler is a function from
  the request and the tables to an error of its own datatype or the tables it leaves, its checks in the
  order of the code.  A unique index is part of the insert it guards.  Where requests of several people
  can interleave between what they read and what they write, the reads and the writes are separate
  definitions and an inductive relation interleaves them (\<open>series\<close>, \<open>office_run\<close>, \<open>serves\<close>); where they cannot
  (one batch that asserts what it read), a handler is one step (\<open>ledger_step\<close>, \<open>bank_move\<close>, \<open>month_step\<close>,
  \<open>till_step\<close>, \<open>version_step\<close>, \<open>desk\<close>).

  \<^bold>\<open>What the lemmas show.\<close>
  \<^item> \<open>SolverProps\<close>: no teacher and no section twice at a time, commitments, absences and limits respected,
    every lesson in its section's own bell, every shortfall reported, the cheapest slot taken.
  \<^item> \<open>DraftProps\<close>: that this survives any sequence of hand edits; limits after an edit; what publishing
    replaces; the types of the rows.
  \<^item> \<open>LedgerProofs\<close>, \<open>LedgerProps\<close>: the books balance (paid is the sum of the allocations, never above the net,
    no payment allocated beyond its amount) after every handler; money goes to the oldest invoice first.
  \<^item> \<open>Numbering\<close>: the numbers of a year are consecutive.  \<open>FineProps\<close>: fines within their rule, charged once,
    billed lines frozen.  \<open>RefundProps\<close>, \<open>PayoutProps\<close>: two people for all money that leaves, each document
    paid once, the file is what was submitted, no more back than came in.
  \<^item> \<open>BankProps\<close>: one claim an entry, finalised periods frozen, nothing guessed, nothing imported twice.
    \<open>FormatProps\<close>: round trips of amounts, CSV rows and escaped XML, distinct fingerprints, balanced vouchers.
  \<^item> \<open>PayrollProps\<close>: lines add up to the net, a correction folded back equals a fresh run, advances are not
    recovered twice, what is published was approved by another.  \<open>LopProps\<close>: the days lost are within the
    month and the maximum, days off do not count, and leave past its quota adds up.
  \<^item> \<open>IdempotencyProps\<close>: the middleware refines a handler that runs once; \<open>OutboxProps\<close>: a pass loses nothing,
    keeps the order, empties the queue.  \<open>Jobs\<close>, \<open>Cron\<close>: a job ends after six deliveries; a schedule is due
    exactly when an occurrence lies in its window, and a minute is enqueued once.
  Some theorems state where the code does not keep what it means to (a lesson on another bell that a
  draft does not see, a fine that does not reach the net, two cheques cleared at once, an item that
  slips into a released batch, a receipt that is lost, a pass that goes on under the next person): they
  are closed computations or general statements about the same definitions.

  \<^bold>\<open>Contracts.\<close>  \<open>Contracts\<close> holds two locales that components share: \<open>countersigned\<close> (a step settles nothing for
  the person who asked), interpreted by payouts and twice by refunds; and \<open>unique_index\<close> (an insert guarded by
  an index keeps keys distinct), interpreted by payouts and by the live timetable.  \<open>Prelude\<close> holds the
  strings, counters and rendering everything uses.

  \<^bold>\<open>Bounds, recursion and numbers.\<close>  No definition runs on fuel of our own: the loops of the code are structural, or
  end by a measure (\<open>due_loop\<close> on the minutes left, which the code caps by its look-back; the readers on
  what is left of the text).  The repair of the generator stops by the code's own budget, and the number of rounds
  is the largest requirement, as in the code.  The jitter uses 32-bit words with their wrap-around.  Amounts of money are
  exact integers, which JavaScript numbers are below \<open>2 ^ 53\<close>; where the code divides, \<open>Double\<close> rounds every
  operation to 53 bits, ties to even, without overflow or subnormals.

  \<^bold>\<open>Parameters.\<close>  What is not under the sources is an argument: SHA-256, the letter tables of Unicode, the zone
  database, the clock, fresh identifiers, whether a string is a uuid where its shape does not matter, and the
  redelivery of the queue.  Hypotheses about data (identifiers without the separator, times of five
  characters, balanced books at the start) are named predicates and every theorem that has one is
  applied to a concrete state.

  \<^bold>\<open>Not modelled.\<close>  Within these files: reading screens, wording of messages, audit rows, notifications, PDF
  pages, timestamps, and the reach of a caller over campuses.  Of \<open>payroll.ts\<close>: the settings screens and the statutory files.  Of \<open>refunds.ts\<close>: the book of concessions.  Of \<open>banking.ts\<close>: bank accounts of
  students.  The other routes (admissions, examinations, attendance, transport, messages, portals, the
  assistant) are forms over tables with queries in SQL, outside this development; the screens (\<open>web\<close>, \<open>site\<close>), the older
  server in Go, the mobile and desktop programs and the deployment are not TypeScript logic of the
  worker.
\<close>

end
